(* ===== verification/Prelude.thy ===== *)
theory Prelude
  imports Main "HOL-Library.Word"
begin

unbundle bit_operations_syntax

text \<open>
  Shared notions of the development: the machine integers of the target
  (\<^verbatim>\<open>riscv64gc\<close>, so \<^verbatim>\<open>usize\<close> has 64 bits), Rust's checked and saturating
  arithmetic, and the type of kernel computations: a state transformer whose
  outcome is a value, a panic, a final \<^verbatim>\<open>wfi\<close> loop (every function of type
  \<^verbatim>\<open>-> !\<close> ends in one), or an exhausted fuel bound of a loop.  A
  weakest-precondition calculus whose rules are equations drives the proofs about
  kernel computations by simplification.
\<close>

section \<open>Machine integers\<close>

type_synonym u8 = "8 word"
type_synonym u64 = "64 word"
type_synonym usize = "64 word"
type_synonym isize = "64 word"

definition checked_add :: "'a::len word \<Rightarrow> 'a word \<Rightarrow> 'a word option" where
  "checked_add a b = (if unat a + unat b < 2 ^ LENGTH('a) then Some (a + b) else None)"

definition checked_sub :: "'a::len word \<Rightarrow> 'a word \<Rightarrow> 'a word option" where
  "checked_sub a b = (if b \<le> a then Some (a - b) else None)"

definition checked_mul :: "'a::len word \<Rightarrow> 'a word \<Rightarrow> 'a word option" where
  "checked_mul a b = (if unat a * unat b < 2 ^ LENGTH('a) then Some (a * b) else None)"

definition saturating_sub :: "'a::len word \<Rightarrow> 'a word \<Rightarrow> 'a word" where
  "saturating_sub a b = (if b \<le> a then a - b else 0)"

named_theorems word_nat "reading the arithmetic of machine integers as natural numbers"

lemma checked_add_Some [word_nat]:
  "checked_add a b = Some c \<longleftrightarrow> unat a + unat b < 2 ^ LENGTH('a) \<and> c = a + b"
  for a :: "'a::len word"
  by (auto simp: checked_add_def)

lemma checked_add_None:
  "checked_add a b = None \<longleftrightarrow> 2 ^ LENGTH('a) \<le> unat a + unat b" for a :: "'a::len word"
  by (auto simp: checked_add_def)

lemma checked_sub_Some [word_nat]: "checked_sub a b = Some c \<longleftrightarrow> b \<le> a \<and> c = a - b"
  by (auto simp: checked_sub_def)

lemma unat_add_no_overflow:
  "unat a + unat b < 2 ^ LENGTH('a) \<Longrightarrow> unat (a + b) = unat a + unat b"
  for a :: "'a::len word"
  by (simp add: unat_word_ariths)

lemma unat_sub_le: "b \<le> a \<Longrightarrow> unat (a - b) = unat a - unat b" for a :: "'a::len word"
  by (simp add: unat_sub)

lemma unat_saturating_sub [word_nat]:
  "unat (saturating_sub a b) = unat a - unat b" for a :: "'a::len word"
  by (auto simp: saturating_sub_def unat_sub_le word_le_nat_alt)

lemma saturating_sub_le: "saturating_sub a b \<le> a" for a :: "'a::len word"
  by (simp add: word_le_nat_alt unat_saturating_sub)

lemma unat_bound64 [simp]: "unat (a :: 64 word) < 18446744073709551616"
  using unsigned_less [of a] by simp

section \<open>Kernel computations\<close>

text \<open>
  \<open>Ret a s\<close> is a normal return; \<open>Panicked msg s\<close> a Rust panic with its message
  (the profile has \<^verbatim>\<open>panic = "abort"\<close>, nothing is unwound); \<open>Halted s\<close> an
  endless \<^verbatim>\<open>wfi\<close> loop entered in state \<open>s\<close>; \<open>NoFuel\<close> a loop that has not ended
  within its bound.
\<close>

datatype ('a, 's) outcome = Ret 'a 's | Panicked string 's | Halted 's | NoFuel

type_synonym ('s, 'a) kernel = "'s \<Rightarrow> ('a, 's) outcome"

definition kret :: "'a \<Rightarrow> ('s, 'a) kernel" where
  "kret a = (\<lambda>s. Ret a s)"

definition kbind :: "('s, 'a) kernel \<Rightarrow> ('a \<Rightarrow> ('s, 'b) kernel) \<Rightarrow> ('s, 'b) kernel" where
  "kbind m f = (\<lambda>s. case m s of
     Ret a s' \<Rightarrow> f a s' | Panicked e s' \<Rightarrow> Panicked e s' | Halted s' \<Rightarrow> Halted s' | NoFuel \<Rightarrow> NoFuel)"

definition kthen :: "('s, 'a) kernel \<Rightarrow> ('s, 'b) kernel \<Rightarrow> ('s, 'b) kernel" where
  "kthen m n = kbind m (\<lambda>_. n)"

definition kpanic :: "string \<Rightarrow> ('s, 'a) kernel" where
  "kpanic msg = (\<lambda>s. Panicked msg s)"

definition khalt :: "('s, 'a) kernel" where
  "khalt = (\<lambda>s. Halted s)"

definition kstarve :: "('s, 'a) kernel" where
  "kstarve = (\<lambda>s. NoFuel)"

definition kgets :: "('s \<Rightarrow> 'a) \<Rightarrow> ('s, 'a) kernel" where
  "kgets f = (\<lambda>s. Ret (f s) s)"

definition kmodify :: "('s \<Rightarrow> 's) \<Rightarrow> ('s, unit) kernel" where
  "kmodify f = (\<lambda>s. Ret () (f s))"

text \<open>Rust's \<^verbatim>\<open>assert!\<close>, \<^verbatim>\<open>if c { panic!(..) }\<close>, \<^verbatim>\<open>unwrap\<close>/\<^verbatim>\<open>expect\<close>
  on an option, array indexing, and the statement \<^verbatim>\<open>if c { m }\<close>.\<close>

definition kassert :: "bool \<Rightarrow> string \<Rightarrow> ('s, unit) kernel" where
  "kassert b msg = (if b then kret () else kpanic msg)"

definition panic_if :: "bool \<Rightarrow> string \<Rightarrow> ('s, unit) kernel" where
  "panic_if b msg = (if b then kpanic msg else kret ())"

definition kexpect :: "'a option \<Rightarrow> string \<Rightarrow> ('s, 'a) kernel" where
  "kexpect v msg = (case v of None \<Rightarrow> kpanic msg | Some a \<Rightarrow> kret a)"

definition kindex :: "'a list \<Rightarrow> nat \<Rightarrow> ('s, 'a) kernel" where
  "kindex xs i = (if i < length xs then kret (xs ! i) else kpanic ''index out of bounds'')"

definition kwhen :: "bool \<Rightarrow> ('s, unit) kernel \<Rightarrow> ('s, unit) kernel" where
  "kwhen b m = (if b then m else kret ())"

text \<open>
  Plain \<^verbatim>\<open>-\<close>, \<^verbatim>\<open>+\<close> and \<^verbatim>\<open>*\<close> on \<^verbatim>\<open>usize\<close>: with overflow checks (the dev
  profile) an overflow panics, without them (the release profile) it wraps.
\<close>

definition arith_sub :: "bool \<Rightarrow> usize \<Rightarrow> usize \<Rightarrow> ('s, usize) kernel" where
  "arith_sub checks a b =
     (if checks \<and> checked_sub a b = None
      then kpanic ''attempt to subtract with overflow'' else kret (a - b))"

definition arith_add :: "bool \<Rightarrow> usize \<Rightarrow> usize \<Rightarrow> ('s, usize) kernel" where
  "arith_add checks a b =
     (if checks \<and> checked_add a b = None
      then kpanic ''attempt to add with overflow'' else kret (a + b))"

definition arith_mul :: "bool \<Rightarrow> usize \<Rightarrow> usize \<Rightarrow> ('s, usize) kernel" where
  "arith_mul checks a b =
     (if checks \<and> checked_mul a b = None
      then kpanic ''attempt to multiply with overflow'' else kret (a * b))"

fun kfor :: "'a list \<Rightarrow> ('a \<Rightarrow> ('s, unit) kernel) \<Rightarrow> ('s, unit) kernel" where
  "kfor [] f = kret ()"
| "kfor (x # xs) f = kthen (f x) (kfor xs f)"

text \<open>A block of statements.\<close>

fun kseq :: "('s, unit) kernel list \<Rightarrow> ('s, unit) kernel" where
  "kseq [] = kret ()"
| "kseq (m # ms) = kthen m (kseq ms)"

section \<open>Evaluating kernel computations\<close>

named_theorems krun "equations that run a kernel computation on a state"

lemma kret_run [krun]: "kret a s = Ret a s"
  by (simp add: kret_def)

lemma kpanic_run [krun]: "kpanic msg s = Panicked msg s"
  by (simp add: kpanic_def)

lemma khalt_run [krun]: "khalt s = Halted s"
  by (simp add: khalt_def)

lemma kstarve_run [krun]: "kstarve s = NoFuel"
  by (simp add: kstarve_def)

lemma kgets_run [krun]: "kgets f s = Ret (f s) s"
  by (simp add: kgets_def)

lemma kmodify_run [krun]: "kmodify f s = Ret () (f s)"
  by (simp add: kmodify_def)

lemma kbind_run [krun]:
  "kbind m f s = (case m s of
     Ret a s' \<Rightarrow> f a s' | Panicked e s' \<Rightarrow> Panicked e s' | Halted s' \<Rightarrow> Halted s' | NoFuel \<Rightarrow> NoFuel)"
  by (simp add: kbind_def)

lemma kthen_run [krun]:
  "kthen m n s = (case m s of
     Ret a s' \<Rightarrow> n s' | Panicked e s' \<Rightarrow> Panicked e s' | Halted s' \<Rightarrow> Halted s' | NoFuel \<Rightarrow> NoFuel)"
  by (simp add: kthen_def kbind_def)

lemma kassert_run [krun]: "kassert b msg s = (if b then Ret () s else Panicked msg s)"
  by (simp add: kassert_def krun)

lemma panic_if_run [krun]: "panic_if b msg s = (if b then Panicked msg s else Ret () s)"
  by (simp add: panic_if_def krun)

lemma kexpect_run [krun]:
  "kexpect v msg s = (case v of None \<Rightarrow> Panicked msg s | Some a \<Rightarrow> Ret a s)"
  by (simp add: kexpect_def krun split: option.split)

lemma kindex_run [krun]:
  "kindex xs i s = (if i < length xs then Ret (xs ! i) s else Panicked ''index out of bounds'' s)"
  by (simp add: kindex_def krun)

lemma kwhen_run [krun]: "kwhen b m s = (if b then m s else Ret () s)"
  by (simp add: kwhen_def krun)

lemma arith_sub_run [krun]: "b \<le> a \<Longrightarrow> arith_sub checks a b s = Ret (a - b) s"
  by (simp add: arith_sub_def checked_sub_def krun)

lemma arith_add_run [krun]:
  "unat a + unat b < 2 ^ 64 \<Longrightarrow> arith_add checks a b s = Ret (a + b) s"
  by (simp add: arith_add_def checked_add_def krun)

lemma arith_mul_run [krun]:
  "unat a * unat b < 2 ^ 64 \<Longrightarrow> arith_mul checks a b s = Ret (a * b) s"
  by (simp add: arith_mul_def checked_mul_def krun)

section \<open>The weakest-precondition calculus\<close>

text \<open>
  \<open>wp m Q H s\<close>: started in \<open>s\<close>, \<open>m\<close> never panics, ends within its fuel, and ends either
  in a return that satisfies \<open>Q\<close> or halted in a state that satisfies \<open>H\<close>.  \<open>wlp\<close> is
  the same without the claim about fuel.
\<close>

definition wp :: "('s, 'a) kernel \<Rightarrow> ('a \<Rightarrow> 's \<Rightarrow> bool) \<Rightarrow> ('s \<Rightarrow> bool) \<Rightarrow> 's \<Rightarrow> bool" where
  "wp m Q H s = (case m s of
     Ret a s' \<Rightarrow> Q a s' | Panicked e s' \<Rightarrow> False | Halted s' \<Rightarrow> H s' | NoFuel \<Rightarrow> False)"

definition wlp :: "('s, 'a) kernel \<Rightarrow> ('a \<Rightarrow> 's \<Rightarrow> bool) \<Rightarrow> ('s \<Rightarrow> bool) \<Rightarrow> 's \<Rightarrow> bool" where
  "wlp m Q H s = (case m s of
     Ret a s' \<Rightarrow> Q a s' | Panicked e s' \<Rightarrow> False | Halted s' \<Rightarrow> H s' | NoFuel \<Rightarrow> True)"

named_theorems wps "equations of the weakest-precondition calculus"

lemma wp_basic [wps]:
  "wp (kret a) Q H s = Q a s"
  "wp (kpanic msg) Q H s = False"
  "wp khalt Q H s = H s"
  "wp kstarve Q H s = False"
  "wp (kgets f) R H s = R (f s) s"
  "wp (kmodify g) U H s = U () (g s)"
  by (simp_all add: wp_def krun)

lemma wlp_basic [wps]:
  "wlp (kret a) Q H s = Q a s"
  "wlp (kpanic msg) Q H s = False"
  "wlp khalt Q H s = H s"
  "wlp kstarve Q H s = True"
  "wlp (kgets f) R H s = R (f s) s"
  "wlp (kmodify g) U H s = U () (g s)"
  by (simp_all add: wlp_def krun)

lemma wp_seq [wps]:
  "wp (kbind m f) Q H s = wp m (\<lambda>a. wp (f a) Q H) H s"
  "wp (kthen m n) Q H s = wp m (\<lambda>_. wp n Q H) H s"
  by (simp_all add: wp_def krun split: outcome.split)

lemma wlp_seq [wps]:
  "wlp (kbind m f) Q H s = wlp m (\<lambda>a. wlp (f a) Q H) H s"
  "wlp (kthen m n) Q H s = wlp m (\<lambda>_. wlp n Q H) H s"
  by (simp_all add: wlp_def krun split: outcome.split)

lemma wp_guards [wps]:
  "wp (kassert b msg) U H s = (b \<and> U () s)"
  "wp (panic_if b msg) U H s = (\<not> b \<and> U () s)"
  "wp (kindex xs i) Q H s = (i < length xs \<and> Q (xs ! i) s)"
  "wp (kwhen b m) U H s = (if b then wp m U H s else U () s)"
  "wp (kexpect v msg) R H s = (\<exists>a. v = Some a \<and> R a s)"
  by (simp_all add: wp_def krun split: option.split)

lemma wlp_guards [wps]:
  "wlp (kassert b msg) U H s = (b \<and> U () s)"
  "wlp (panic_if b msg) U H s = (\<not> b \<and> U () s)"
  "wlp (kindex xs i) Q H s = (i < length xs \<and> Q (xs ! i) s)"
  "wlp (kwhen b m) U H s = (if b then wlp m U H s else U () s)"
  "wlp (kexpect v msg) R H s = (\<exists>a. v = Some a \<and> R a s)"
  by (simp_all add: wlp_def krun split: option.split)

lemma wp_if [wps]:
  "wp (if b then m else n) Q H s = (if b then wp m Q H s else wp n Q H s)"
  "wlp (if b then m else n) Q H s = (if b then wlp m Q H s else wlp n Q H s)"
  by simp_all

lemma wp_let [wps]:
  "wp (let x = t in m x) Q H s = wp (m t) Q H s"
  "wlp (let x = t in m x) Q H s = wlp (m t) Q H s"
  by (simp_all add: Let_def)

lemma wp_case_prod [wps]:
  "wp (case p of (x, y) \<Rightarrow> m x y) Q H s = (case p of (x, y) \<Rightarrow> wp (m x y) Q H s)"
  "wlp (case p of (x, y) \<Rightarrow> m x y) Q H s = (case p of (x, y) \<Rightarrow> wlp (m x y) Q H s)"
  by (simp_all split: prod.split)

lemma wp_mono:
  assumes "wp m Q H s" and "\<And>a s'. Q a s' \<Longrightarrow> Q' a s'" and "\<And>s'. H s' \<Longrightarrow> H' s'"
  shows "wp m Q' H' s"
  using assms by (auto simp: wp_def split: outcome.splits)

lemma wlp_mono:
  assumes "wlp m Q H s" and "\<And>a s'. Q a s' \<Longrightarrow> Q' a s'" and "\<And>s'. H s' \<Longrightarrow> H' s'"
  shows "wlp m Q' H' s"
  using assms by (auto simp: wlp_def split: outcome.splits)

lemma wp_imp_wlp: "wp m Q H s \<Longrightarrow> wlp m Q H s"
  by (auto simp: wp_def wlp_def split: outcome.splits)

lemma wlp_conj:
  "wlp m Q H s \<Longrightarrow> wlp m Q' H' s \<Longrightarrow> wlp m (\<lambda>a s. Q a s \<and> Q' a s) (\<lambda>s. H s \<and> H' s) s"
  by (auto simp: wlp_def split: outcome.splits)

lemma wp_Ret: "m s = Ret a s' \<Longrightarrow> wp m Q H s = Q a s'"
  by (simp add: wp_def)

lemma wlp_Ret: "m s = Ret a s' \<Longrightarrow> wlp m Q H s = Q a s'"
  by (simp add: wlp_def)

lemma wp_no_panic: "wp m Q H s \<Longrightarrow> m s \<noteq> Panicked e s'"
  by (auto simp: wp_def)

lemma wlp_no_panic: "wlp m Q H s \<Longrightarrow> m s \<noteq> Panicked e s'"
  by (auto simp: wlp_def)

lemma wp_return_cases:
  assumes "wp m Q (\<lambda>_. False) s"
  obtains a s' where "m s = Ret a s'" and "Q a s'"
  using assms by (cases "m s") (auto simp: wp_def)

lemma wp_kfor:
  assumes "I s" and "\<And>x s. x \<in> set xs \<Longrightarrow> I s \<Longrightarrow> wp (f x) (\<lambda>_. I) H s"
  shows "wp (kfor xs f) (\<lambda>_. I) H s"
  using assms
proof (induction xs arbitrary: s)
  case Nil
  then show ?case by (simp add: wps)
next
  case (Cons x xs)
  have rest: "wp (kfor xs f) (\<lambda>_. I) H s'" if "I s'" for s'
    using that Cons.prems(2) by (intro Cons.IH) auto
  have "wp (f x) (\<lambda>_. I) H s" using Cons.prems by simp
  then have "wp (f x) (\<lambda>_. wp (kfor xs f) (\<lambda>_. I) H) H s"
    by (rule wp_mono) (auto intro: rest)
  then show ?case by (simp add: wps)
qed

section \<open>Computations that may panic for tolerated reasons\<close>

text \<open>
  \<open>kspec m Q E s\<close>: started in \<open>s\<close>, a return of \<open>m\<close> satisfies \<open>Q\<close> and a panic has a message
  that satisfies \<open>E\<close>.  With it a component is shown to keep its own promises whatever its
  environment does.
\<close>

definition kspec :: "('s, 'a) kernel \<Rightarrow> ('a \<Rightarrow> 's \<Rightarrow> bool) \<Rightarrow> (string \<Rightarrow> bool) \<Rightarrow> 's \<Rightarrow> bool" where
  "kspec m Q E s = (case m s of
     Ret a s' \<Rightarrow> Q a s' | Panicked e s' \<Rightarrow> E e | Halted s' \<Rightarrow> True | NoFuel \<Rightarrow> True)"

named_theorems kspecs "equations for the tolerant specification calculus"

lemma kspec_basic [kspecs]:
  "kspec (kret a) Q E s = Q a s"
  "kspec (kpanic msg) Q E s = E msg"
  "kspec khalt Q E s = True"
  "kspec kstarve Q E s = True"
  "kspec (kgets f) R E s = R (f s) s"
  "kspec (kmodify g) U E s = U () (g s)"
  by (simp_all add: kspec_def krun)

lemma kspec_seq [kspecs]:
  "kspec (kbind m f) Q E s = kspec m (\<lambda>a. kspec (f a) Q E) E s"
  "kspec (kthen m n) Q E s = kspec m (\<lambda>_. kspec n Q E) E s"
  by (simp_all add: kspec_def krun split: outcome.split)

lemma kspec_guards [kspecs]:
  "kspec (kassert b msg) U E s = ((\<not> b \<longrightarrow> E msg) \<and> (b \<longrightarrow> U () s))"
  "kspec (panic_if b msg) U E s = ((b \<longrightarrow> E msg) \<and> (\<not> b \<longrightarrow> U () s))"
  "kspec (kindex xs i) Q E s =
     ((\<not> i < length xs \<longrightarrow> E ''index out of bounds'') \<and> (i < length xs \<longrightarrow> Q (xs ! i) s))"
  "kspec (kwhen b m) U E s = (if b then kspec m U E s else U () s)"
  "kspec (kexpect v msg) R E s = ((v = None \<longrightarrow> E msg) \<and> (\<forall>a. v = Some a \<longrightarrow> R a s))"
  by (simp_all add: kspec_def krun split: option.split)

lemma kspec_arith [kspecs]:
  "kspec (arith_sub c a b) R E s =
     (if c \<and> checked_sub a b = None then E ''attempt to subtract with overflow'' else R (a - b) s)"
  "kspec (arith_add c a b) R E s =
     (if c \<and> checked_add a b = None then E ''attempt to add with overflow'' else R (a + b) s)"
  "kspec (arith_mul c a b) R E s =
     (if c \<and> checked_mul a b = None then E ''attempt to multiply with overflow'' else R (a * b) s)"
  by (simp_all add: kspec_def arith_sub_def arith_add_def arith_mul_def krun)

lemma kspec_if [kspecs]:
  "kspec (if b then m else n) Q E s = (if b then kspec m Q E s else kspec n Q E s)"
  "kspec (let x = t in f x) Q E s = kspec (f t) Q E s"
  "kspec (case p of (x, y) \<Rightarrow> g x y) Q E s = (case p of (x, y) \<Rightarrow> kspec (g x y) Q E s)"
  by (simp_all split: prod.split)

lemma kspec_mono:
  assumes "kspec m Q E s" and "\<And>a s'. Q a s' \<Longrightarrow> Q' a s'" and "\<And>e. E e \<Longrightarrow> E' e"
  shows "kspec m Q' E' s"
  using assms by (auto simp: kspec_def split: outcome.splits)

lemma kspec_Ret: "m s = Ret a s' \<Longrightarrow> kspec m Q E s = Q a s'"
  by (simp add: kspec_def)

lemma kspecD: "kspec m Q E s \<Longrightarrow> m s = Ret a s' \<Longrightarrow> Q a s'"
  by (simp add: kspec_def)

lemma kspec_panic: "kspec m Q E s \<Longrightarrow> m s = Panicked e s' \<Longrightarrow> E e"
  by (simp add: kspec_def)

lemma kspec_kfor:
  assumes "I s" and "\<And>x s. x \<in> set xs \<Longrightarrow> I s \<Longrightarrow> kspec (f x) (\<lambda>_. I) E s"
  shows "kspec (kfor xs f) (\<lambda>_. I) E s"
  using assms
proof (induction xs arbitrary: s)
  case Nil
  then show ?case by (simp add: kspecs)
next
  case (Cons x xs)
  have rest: "kspec (kfor xs f) (\<lambda>_. I) E s'" if "I s'" for s'
    using that Cons.prems(2) by (intro Cons.IH) auto
  have "kspec (f x) (\<lambda>_. I) E s" using Cons.prems by simp
  then have "kspec (f x) (\<lambda>_. kspec (kfor xs f) (\<lambda>_. I) E) E s"
    by (rule kspec_mono) (auto intro: rest)
  then show ?case by (simp add: kspecs)
qed

section \<open>Lists\<close>

named_theorems list_facts "facts about lists the components share"

lemma map_upt_nth [list_facts]: "n \<le> length xs \<Longrightarrow> map ((!) xs) [0..<n] = take n xs"
  by (rule nth_equalityI) auto

lemma list_update_take_drop:
  "n < length xs \<Longrightarrow> take (Suc n) (xs[n := x]) = take n xs @ [x]"
  by (simp add: take_Suc_conv_app_nth)

lemma list4_cases: "length xs = 4 \<Longrightarrow> \<exists>a b c d. xs = [a, b, c, d]"
  by (auto simp: eval_nat_numeral length_Suc_conv)

end
