(* ===== verification/Machine.thy ===== *)
theory Machine
  imports Prelude
begin

unbundle bit_operations_syntax

text \<open>
  The single-hart machine the kernel runs on, and what the linker, the build
  configuration, the firmware and the user programs contribute to a run.

  The machine state holds the integer registers, the supervisor CSRs the sources
  touch, byte-addressed memory, the bytes written to the UART, the log of SBI calls,
  and the kernel's own mutable statics: \<^verbatim>\<open>LAST_EXIT_CODE\<close> and
  \<^verbatim>\<open>EXPECTED_TRAP_FRAME\<close> of \<^verbatim>\<open>src/user.rs\<close>, \<^verbatim>\<open>ACTIVE\<close> of
  \<^verbatim>\<open>src/user10.rs\<close>, \<^verbatim>\<open>EXCHANGE\<close> of \<^verbatim>\<open>src/scheduler.rs\<close>.  Their data
  types stand here because the state mentions them; each is named after the Rust
  type it models.

  The \<open>platform\<close> is a parameter of every definition that needs it: addresses of
  linker symbols, the enabled cargo features, whether the build checks integer
  overflow, the readings of \<^verbatim>\<open>rdtime\<close> in order, the answers of the SBI firmware, what
  a write to \<^verbatim>\<open>stvec\<close> leaves in the register, and what the code in user mode does
  between an \<^verbatim>\<open>sret\<close> and the next trap.
\<close>

section \<open>Byte-addressed memory\<close>

type_synonym memory = "usize \<Rightarrow> u8"

definition store_bytes :: "memory \<Rightarrow> usize \<Rightarrow> u8 list \<Rightarrow> memory" where
  "store_bytes m a bs =
     (\<lambda>b. if unat (b - a) < length bs then bs ! unat (b - a) else m b)"

definition dword_byte :: "u64 \<Rightarrow> nat \<Rightarrow> u8" where
  "dword_byte v k = ucast (drop_bit (8 * k) v)"

definition bytes_dword :: "u8 list \<Rightarrow> u64" where
  "bytes_dword bs = foldr (\<lambda>b acc. ucast b OR push_bit 8 acc) bs 0"

text \<open>The instructions \<^verbatim>\<open>sd\<close> and \<^verbatim>\<open>ld\<close>: eight bytes, little endian.\<close>

definition store64 :: "memory \<Rightarrow> usize \<Rightarrow> u64 \<Rightarrow> memory" where
  "store64 m a v = store_bytes m a (map (dword_byte v) [0..<8])"

definition load64 :: "memory \<Rightarrow> usize \<Rightarrow> u64" where
  "load64 m a = bytes_dword (map (\<lambda>i. m (a + of_nat i)) [0..<8])"

text \<open>A run of consecutive doublewords, the shape of every \<^verbatim>\<open>repr(C)\<close> struct here.\<close>

fun store_words :: "memory \<Rightarrow> usize \<Rightarrow> u64 list \<Rightarrow> memory" where
  "store_words m a [] = m"
| "store_words m a (w # ws) = store_words (store64 m a w) (a + 8) ws"

fun load_words :: "memory \<Rightarrow> usize \<Rightarrow> nat \<Rightarrow> u64 list" where
  "load_words m a 0 = []"
| "load_words m a (Suc n) = load64 m a # load_words m (a + 8) n"

text \<open>\<^verbatim>\<open>core::ptr::write_bytes(start, 0, size)\<close>.\<close>

definition write_zeros :: "memory \<Rightarrow> usize \<Rightarrow> usize \<Rightarrow> memory" where
  "write_zeros m a n = (\<lambda>b. if b - a < n then 0 else m b)"

definition aligned8 :: "usize \<Rightarrow> bool" where
  "aligned8 a \<longleftrightarrow> unat a mod 8 = 0"

lemma unat_add_mod8: "unat (a + b) mod 8 = (unat a + unat b) mod 8" for a b :: usize
proof -
  have "unat (a + b) = (unat a + unat b) mod 2 ^ 64"
    by (simp add: unat_word_ariths)
  moreover have "((unat a + unat b) mod 2 ^ 64) mod 8 = (unat a + unat b) mod 8"
    by (rule mod_mod_cancel) simp
  ultimately show ?thesis by simp
qed

lemma aligned8_add [intro]: "aligned8 a \<Longrightarrow> aligned8 b \<Longrightarrow> aligned8 (a + b)"
  unfolding aligned8_def unat_add_mod8 by presburger

lemma aligned8_add_iff: "aligned8 a \<Longrightarrow> aligned8 (a + b) = aligned8 b"
  unfolding aligned8_def unat_add_mod8 by presburger

lemma aligned8_numeral [simp]:
  "aligned8 (numeral n) = (unat (numeral n :: usize) mod 8 = 0)" "aligned8 0" "\<not> aligned8 1"
  by (simp_all add: aligned8_def)

lemma aligned8_diff: "aligned8 a \<Longrightarrow> aligned8 b \<Longrightarrow> aligned8 (a - b)"
  using aligned8_add_iff [of b "a - b"] by simp

lemma bit_bytes_dword:
  "bit (bytes_dword bs) n \<longleftrightarrow> n < 64 \<and> n div 8 < length bs \<and> bit (bs ! (n div 8)) (n mod 8)"
proof (induction bs arbitrary: n)
  case Nil
  then show ?case by (simp add: bytes_dword_def)
next
  case (Cons b bs)
  have step: "bytes_dword (b # bs) = ucast b OR push_bit 8 (bytes_dword bs)"
    by (simp add: bytes_dword_def)
  show ?case
  proof (cases "n < 8")
    case True
    then show ?thesis by (simp add: step bit_or_iff bit_push_bit_iff bit_ucast_iff)
  next
    case False
    then have "n div 8 = Suc ((n - 8) div 8)" and "n mod 8 = (n - 8) mod 8"
      by (simp_all add: div_if mod_if)
    with False show ?thesis
      using bit_imp_le_length [of b n]
      by (auto simp: step bit_or_iff bit_push_bit_iff bit_ucast_iff Cons.IH)
  qed
qed

lemma bytes_dword_bytes: "bytes_dword (map (dword_byte v) [0..<8]) = v"
proof (rule bit_word_eqI)
  fix n assume "n < LENGTH(64)"
  moreover from this have "n div 8 < 8" by auto
  ultimately show "bit (bytes_dword (map (dword_byte v) [0..<8])) n = bit v n"
    by (simp add: bit_bytes_dword dword_byte_def bit_ucast_iff bit_drop_bit_eq)
qed

text \<open>A doubleword read back where it was written, and where nothing overlapping was.\<close>

lemma load64_store64_same [simp]: "load64 (store64 m a v) a = v"
proof -
  have "map (\<lambda>i. store64 m a v (a + of_nat i)) [0..<8] = map (dword_byte v) [0..<8]"
    by (simp add: store64_def store_bytes_def unat_of_nat take_bit_eq_mod)
  then show ?thesis by (simp only: load64_def bytes_dword_bytes)
qed

lemma aligned8_gap:
  assumes "aligned8 a" and "aligned8 b" and "a \<noteq> b" and "i < 8"
  shows "8 \<le> unat (a + of_nat i - b)"
proof -
  let ?d = "a - b"
  have d: "unat ?d mod 8 = 0" using aligned8_diff [OF assms(1,2)] by (simp add: aligned8_def)
  have "unat ?d \<noteq> 0" using assms(3) by (simp add: unat_eq_0)
  with d have ge: "8 \<le> unat ?d" by presburger
  have "unat ?d < 18446744073709551616" by simp
  with d have le: "unat ?d \<le> 18446744073709551616 - 8" by presburger
  have "unat (?d + of_nat i) = unat ?d + i"
    using assms(4) le by (simp add: unat_word_ariths unat_of_nat take_bit_eq_mod)
  then show ?thesis using ge by (simp add: algebra_simps)
qed

lemma load64_store64_other:
  assumes "aligned8 a" and "aligned8 b" and "a \<noteq> b"
  shows "load64 (store64 m b v) a = load64 m a"
proof -
  have "store64 m b v (a + of_nat i) = m (a + of_nat i)" if "i < 8" for i
    using aligned8_gap [OF assms that] by (simp add: store64_def store_bytes_def)
  then have "map (\<lambda>i. store64 m b v (a + of_nat i)) [0..<8] = map (\<lambda>i. m (a + of_nat i)) [0..<8]"
    by (intro map_cong) auto
  then show ?thesis by (simp only: load64_def)
qed

lemma load64_store64:
  "aligned8 a \<Longrightarrow> aligned8 b \<Longrightarrow>
   load64 (store64 m b v) a = (if a = b then v else load64 m a)"
  by (simp add: load64_store64_other)

lemma length_load_words [simp]: "length (load_words m a n) = n"
  by (induction n arbitrary: a) auto

lemma load_words_nth: "i < n \<Longrightarrow> load_words m a n ! i = load64 m (a + 8 * of_nat i)"
proof (induction n arbitrary: a i)
  case 0
  then show ?case by simp
next
  case (Suc n)
  then show ?case by (cases i) (simp_all add: algebra_simps)
qed

lemma aligned8_slot: "aligned8 a \<Longrightarrow> aligned8 (a + 8 * of_nat i)"
  by (rule aligned8_add) (simp_all add: aligned8_def unat_word_ariths mod_mod_cancel)

lemma slot_inject:
  assumes "i < 2 ^ 61" and "j < 2 ^ 61"
  shows "(a + 8 * of_nat i = a + 8 * (of_nat j :: usize)) = (i = j)"
proof -
  have "unat (8 * of_nat k :: usize) = 8 * k" if "k < 2 ^ 61" for k
    using that by (simp add: unat_word_ariths unat_of_nat take_bit_eq_mod)
  from this [OF assms(1)] this [OF assms(2)]
  have "8 * of_nat i = (8 * of_nat j :: usize) \<longleftrightarrow> 8 * i = 8 * j"
    by (simp only: word_unat_eq_iff)
  then show ?thesis by simp
qed

lemma load64_store_words_other:
  assumes "aligned8 a" and "aligned8 b" and "\<And>i. i < length ws \<Longrightarrow> a \<noteq> b + 8 * of_nat i"
  shows "load64 (store_words m b ws) a = load64 m a"
  using assms
proof (induction ws arbitrary: m b)
  case Nil
  then show ?case by simp
next
  case (Cons w ws)
  have "a \<noteq> b + 8 + 8 * of_nat i" if "i < length ws" for i
    using Cons.prems(3) [of "Suc i"] that by (simp add: algebra_simps)
  moreover have "aligned8 (b + 8)" using aligned8_slot [of b 1] Cons.prems(2) by simp
  moreover have "a \<noteq> b" using Cons.prems(3) [of 0] by simp
  ultimately show ?case using Cons.IH [of "b + 8"] Cons.prems(1,2)
    by (simp add: load64_store64_other)
qed

lemma load64_store_words:
  assumes "aligned8 a" and "i < length ws" and "length ws < 2 ^ 61"
  shows "load64 (store_words m a ws) (a + 8 * of_nat i) = ws ! i"
  using assms
proof (induction ws arbitrary: m a i)
  case Nil
  then show ?case by simp
next
  case (Cons w ws)
  have al: "aligned8 (a + 8)" using aligned8_slot [of a 1] Cons.prems(1) by simp
  show ?case
  proof (cases i)
    case 0
    have "a \<noteq> a + 8 + 8 * of_nat j" if "j < length ws" for j
      using slot_inject [of 0 "Suc j" a] that Cons.prems(3) by (simp add: algebra_simps)
    with al Cons.prems(1) 0 show ?thesis by (simp add: load64_store_words_other)
  next
    case (Suc j)
    then show ?thesis using Cons.IH [OF al, of j] Cons.prems by (simp add: algebra_simps)
  qed
qed

lemma load_words_store_words:
  assumes "aligned8 a" and "length ws < 2 ^ 61"
  shows "load_words (store_words m a ws) a (length ws) = ws"
  using assms by (intro nth_equalityI) (simp_all add: load_words_nth load64_store_words)

section \<open>Data the machine state mentions\<close>

text \<open>
  \<^verbatim>\<open>TrapFrame\<close> of \<^verbatim>\<open>src/trap.rs\<close>: 32 integer registers and four CSRs, 36
  doublewords in \<^verbatim>\<open>repr(C)\<close> order.
\<close>

record TrapFrame =
  tf_x :: "usize list"
  tf_sstatus :: usize
  tf_sepc :: usize
  tf_scause :: usize
  tf_stval :: usize

text \<open>\<^verbatim>\<open>AddressRange\<close> of \<^verbatim>\<open>src/process.rs\<close>, a half-open interval.\<close>

record AddressRange =
  ar_start :: usize
  ar_end :: usize

text \<open>\<^verbatim>\<open>RunOutcome\<close> and \<^verbatim>\<open>Active\<close> of \<^verbatim>\<open>src/user10.rs\<close>.\<close>

datatype RunOutcome = Run_Exited u8 | Run_Faulted usize usize usize

record Active =
  act_code :: AddressRange
  act_outcome :: "RunOutcome option"

text \<open>\<^verbatim>\<open>Reason\<close> and \<^verbatim>\<open>Exchange\<close> of \<^verbatim>\<open>src/scheduler.rs\<close>.\<close>

datatype Reason =
  Reason_Syscall | Reason_Yield | Reason_Timer | Reason_Exit usize | Reason_Fault usize

record Exchange =
  ex_expected :: usize
  ex_frame :: TrapFrame
  ex_reason :: Reason
  ex_time :: usize

section \<open>The machine and its platform\<close>

datatype csr = Sstatus | Sepc | Scause | Stval | Stvec | Sscratch | Sie

record machine =
  regs :: "nat \<Rightarrow> usize"
  csrs :: "csr \<Rightarrow> usize"
  mem :: memory
  uart :: "u8 list"
  sbi_log :: "(usize \<times> usize \<times> usize) list"
  time_reads :: nat
  user_entries :: nat
  last_exit_code :: usize
  expected_trap_frame :: usize
  active :: Active
  exchange :: Exchange

record platform =
  symbol :: "string \<Rightarrow> usize"
  feature :: "string \<Rightarrow> bool"
  overflow_checks :: bool
  clock :: "nat \<Rightarrow> usize"
  firmware :: "nat \<Rightarrow> usize \<Rightarrow> usize \<Rightarrow> usize \<Rightarrow> isize \<times> usize"
  stvec_keeps :: "usize \<Rightarrow> usize"
  user_code :: "nat \<Rightarrow> TrapFrame \<Rightarrow> memory \<Rightarrow> (TrapFrame \<times> memory) option"

type_synonym 'a K = "(machine, 'a) kernel"

text \<open>\<^verbatim>\<open>csrr\<close>, \<^verbatim>\<open>csrw\<close>, \<^verbatim>\<open>csrs\<close> and \<^verbatim>\<open>csrc\<close> as the sources' inline assembly uses them.\<close>

definition csr_write :: "platform \<Rightarrow> csr \<Rightarrow> usize \<Rightarrow> machine \<Rightarrow> machine" where
  "csr_write pf c v s =
     s\<lparr>csrs := (csrs s)(c := if c = Stvec then stvec_keeps pf v else v)\<rparr>"

definition csrr :: "csr \<Rightarrow> usize K" where
  "csrr c = kgets (\<lambda>s. csrs s c)"

definition csrw :: "platform \<Rightarrow> csr \<Rightarrow> usize \<Rightarrow> unit K" where
  "csrw pf c v = kmodify (csr_write pf c v)"

definition csr_set_bits :: "platform \<Rightarrow> csr \<Rightarrow> usize \<Rightarrow> unit K" where
  "csr_set_bits pf c v = kmodify (\<lambda>s. csr_write pf c (csrs s c OR v) s)"

definition csr_clear_bits :: "platform \<Rightarrow> csr \<Rightarrow> usize \<Rightarrow> unit K" where
  "csr_clear_bits pf c v = kmodify (\<lambda>s. csr_write pf c (csrs s c AND NOT v) s)"

text \<open>\<^verbatim>\<open>mv dst, sp\<close>: register \<^verbatim>\<open>x2\<close>.\<close>

definition read_sp :: "usize K" where
  "read_sp = kgets (\<lambda>s. regs s 2)"

named_theorems machine_defs "definitions of the machine's primitive operations"

lemmas [machine_defs] = csrr_def csrw_def csr_set_bits_def csr_clear_bits_def csr_write_def read_sp_def

section \<open>Trap frames in memory\<close>

definition frame_words :: "TrapFrame \<Rightarrow> u64 list" where
  "frame_words f = tf_x f @ [tf_sstatus f, tf_sepc f, tf_scause f, tf_stval f]"

definition words_frame :: "u64 list \<Rightarrow> TrapFrame" where
  "words_frame ws =
     \<lparr>tf_x = take 32 ws, tf_sstatus = ws ! 32, tf_sepc = ws ! 33,
      tf_scause = ws ! 34, tf_stval = ws ! 35\<rparr>"

definition load_frame :: "memory \<Rightarrow> usize \<Rightarrow> TrapFrame" where
  "load_frame m a = words_frame (load_words m a 36)"

definition store_frame :: "memory \<Rightarrow> usize \<Rightarrow> TrapFrame \<Rightarrow> memory" where
  "store_frame m a f = store_words m a (frame_words f)"

lemma words_frame_frame_words: "length (tf_x f) = 32 \<Longrightarrow> words_frame (frame_words f) = f"
  by (simp add: words_frame_def frame_words_def nth_append)

lemma length_tf_x_load_frame [simp]: "length (tf_x (load_frame m a)) = 32"
  by (simp add: load_frame_def words_frame_def)

lemma load_store_frame:
  assumes "aligned8 a" and "length (tf_x f) = 32"
  shows "load_frame (store_frame m a f) a = f"
proof -
  have len: "length (frame_words f) = 36" using assms(2) by (simp add: frame_words_def)
  have "load_words (store_words m a (frame_words f)) a 36 = frame_words f"
    using load_words_store_words [OF assms(1), of "frame_words f" m] len by simp
  then show ?thesis
    by (simp add: load_frame_def store_frame_def words_frame_frame_words assms(2))
qed

end
