(* ===== verification/Console.thy ===== *)
theory Console
  imports Machine
begin

text \<open>
  \<^verbatim>\<open>src/console.rs\<close>: everything the kernel prints becomes a sequence of byte
  writes to the UART.  A Rust string is its UTF-8 byte sequence, so a text is a list of
  8-bit characters and \<^verbatim>\<open>as_bytes\<close> reads each as a byte.  The formatting directives
  the sources use (\<^verbatim>\<open>{}\<close>, \<^verbatim>\<open>{:#x}\<close>, \<^verbatim>\<open>{:#018x}\<close>, \<^verbatim>\<open>{:<11}\<close>) are the
  functions \<open>fmt_*\<close>.
\<close>

section \<open>Output\<close>

definition as_bytes :: "string \<Rightarrow> u8 list" where
  "as_bytes text = map of_char text"

definition put_byte :: "u8 \<Rightarrow> unit K" where
  "put_byte byte = kmodify (\<lambda>s. s\<lparr>uart := uart s @ [byte]\<rparr>)"

definition write_text :: "string \<Rightarrow> unit K" where
  "write_text text = kfor (as_bytes text) put_byte"

text \<open>
  \<^verbatim>\<open>Console::write_str\<close> returns \<^verbatim>\<open>fmt::Result\<close>: it writes and always succeeds.
  \<^verbatim>\<open>_print\<close> hands the formatted pieces to it and drops the result.
\<close>

definition write_str :: "string \<Rightarrow> (unit + unit) K" where
  "write_str text = kthen (write_text text) (kret (Inr ()))"

definition print :: "string \<Rightarrow> unit K" where
  "print text = kthen (write_str text) (kret ())"

definition println :: "string \<Rightarrow> unit K" where
  "println text = print (text @ [CHR 0x0A])"

lemma kfor_put_byte: "kfor bs put_byte s = Ret () (s\<lparr>uart := uart s @ bs\<rparr>)"
  by (induction bs arbitrary: s) (simp_all add: put_byte_def krun)

lemma write_text_run [krun]: "write_text text s = Ret () (s\<lparr>uart := uart s @ as_bytes text\<rparr>)"
  by (simp add: write_text_def kfor_put_byte)

lemma print_run [krun]: "print text s = Ret () (s\<lparr>uart := uart s @ as_bytes text\<rparr>)"
  by (simp add: print_def write_str_def krun)

lemma println_run [krun]:
  "println text s = Ret () (s\<lparr>uart := uart s @ as_bytes text @ [10]\<rparr>)"
  by (simp add: println_def krun as_bytes_def)

lemma put_byte_run [krun]: "put_byte b s = Ret () (s\<lparr>uart := uart s @ [b]\<rparr>)"
  by (simp add: put_byte_def krun)

lemma wp_print [wps]:
  "wp (put_byte b) Q H s = Q () (s\<lparr>uart := uart s @ [b]\<rparr>)"
  "wp (print text) Q H s = Q () (s\<lparr>uart := uart s @ as_bytes text\<rparr>)"
  "wp (println text) Q H s = Q () (s\<lparr>uart := uart s @ as_bytes text @ [10]\<rparr>)"
  "wlp (put_byte b) Q H s = Q () (s\<lparr>uart := uart s @ [b]\<rparr>)"
  "wlp (print text) Q H s = Q () (s\<lparr>uart := uart s @ as_bytes text\<rparr>)"
  "wlp (println text) Q H s = Q () (s\<lparr>uart := uart s @ as_bytes text @ [10]\<rparr>)"
  by (simp_all add: wp_def wlp_def krun)

text \<open>Computations whose only effect is output.\<close>

definition only_prints :: "unit K \<Rightarrow> bool" where
  "only_prints m \<longleftrightarrow> (\<forall>s. \<exists>out. m s = Ret () (s\<lparr>uart := uart s @ out\<rparr>))"

lemma only_printsD: "only_prints m \<Longrightarrow> \<exists>out. m s = Ret () (s\<lparr>uart := uart s @ out\<rparr>)"
  by (simp add: only_prints_def)

lemma only_prints_intros [intro, simp]:
  "only_prints (print t)" "only_prints (println t)" "only_prints (put_byte b)" "only_prints (kret ())"
  by (auto simp: only_prints_def krun intro: exI [of _ "[]"])

lemma only_prints_kthen [intro]: "only_prints m \<Longrightarrow> only_prints n \<Longrightarrow> only_prints (kthen m n)"
  unfolding only_prints_def
proof
  fix s
  assume m: "\<forall>s. \<exists>out. m s = Ret () (s\<lparr>uart := uart s @ out\<rparr>)"
    and n: "\<forall>s. \<exists>out. n s = Ret () (s\<lparr>uart := uart s @ out\<rparr>)"
  obtain o1 where o1: "m s = Ret () (s\<lparr>uart := uart s @ o1\<rparr>)" using m by blast
  obtain o2 where "n (s\<lparr>uart := uart s @ o1\<rparr>) = Ret () (s\<lparr>uart := (uart s @ o1) @ o2\<rparr>)"
    using n [rule_format, of "s\<lparr>uart := uart s @ o1\<rparr>"] by auto
  with o1 have "kthen m n s = Ret () (s\<lparr>uart := uart s @ (o1 @ o2)\<rparr>)" by (simp add: krun)
  then show "\<exists>out. kthen m n s = Ret () (s\<lparr>uart := uart s @ out\<rparr>)" by blast
qed

lemma only_prints_kseq [intro]: "list_all only_prints ms \<Longrightarrow> only_prints (kseq ms)"
  by (induction ms) auto

lemma only_prints_kwhen [intro]: "only_prints m \<Longrightarrow> only_prints (kwhen b m)"
  by (cases b) (simp_all add: kwhen_def)

lemma only_prints_wp:
  assumes "only_prints m" and "\<And>out. Q () (s\<lparr>uart := uart s @ out\<rparr>) = P"
  shows "wp m Q H s = P" and "wlp m Q H s = P"
  using only_printsD [OF assms(1), of s] assms(2) by (auto simp: wp_Ret wlp_Ret)

section \<open>Number formatting\<close>

definition digit_char :: "nat \<Rightarrow> char" where
  "digit_char d = (if d < 10 then char_of (48 + d) else char_of (87 + d))"

fun fmt_radix :: "nat \<Rightarrow> nat \<Rightarrow> string" where
  "fmt_radix b n =
     (if b < 2 \<or> n < b then [digit_char n] else fmt_radix b (n div b) @ [digit_char (n mod b)])"

declare fmt_radix.simps [simp del]

definition fmt_nat :: "nat \<Rightarrow> string" where
  "fmt_nat n = fmt_radix 10 n"

definition fmt_dec :: "'a::len word \<Rightarrow> string" where
  "fmt_dec w = fmt_nat (unat w)"

definition fmt_int :: "'a::len word \<Rightarrow> string" where
  "fmt_int w = (if 0 \<le> sint w then fmt_nat (nat (sint w)) else CHR ''-'' # fmt_nat (nat (- sint w)))"

definition fmt_hex :: "'a::len word \<Rightarrow> string" where
  "fmt_hex w = ''0x'' @ fmt_radix 16 (unat w)"

text \<open>\<^verbatim>\<open>{:#018x}\<close>: zero-padded to a width of 18 that counts the prefix.\<close>

definition fmt_hex18 :: "'a::len word \<Rightarrow> string" where
  "fmt_hex18 w =
     (let ds = fmt_radix 16 (unat w) in ''0x'' @ replicate (16 - length ds) (CHR ''0'') @ ds)"

text \<open>\<^verbatim>\<open>{:<11}\<close>: padded with blanks on the right.\<close>

definition fmt_left11 :: "string \<Rightarrow> string" where
  "fmt_left11 t = t @ replicate (11 - length t) (CHR '' '')"

definition fmt_bool :: "bool \<Rightarrow> string" where
  "fmt_bool b = (if b then ''true'' else ''false'')"

text \<open>Reading a printed number back: formatting loses nothing.\<close>

definition char_digit :: "char \<Rightarrow> nat" where
  "char_digit c = (let n = of_char c in if n < 58 then n - 48 else n - 87)"

definition parse_radix :: "nat \<Rightarrow> string \<Rightarrow> nat" where
  "parse_radix b t = foldl (\<lambda>acc c. acc * b + char_digit c) 0 t"

lemma char_digit_char: "d < 16 \<Longrightarrow> char_digit (digit_char d) = d"
  by (auto simp: char_digit_def digit_char_def Let_def)

lemma parse_fmt_radix:
  assumes "2 \<le> b" and "b \<le> 16"
  shows "parse_radix b (fmt_radix b n) = n"
  using assms
proof (induction b n rule: fmt_radix.induct)
  case (1 b n)
  show ?case
  proof (cases "n < b")
    case True
    with 1 show ?thesis
      by (subst fmt_radix.simps) (simp add: parse_radix_def char_digit_char)
  next
    case False
    with 1 have "parse_radix b (fmt_radix b (n div b)) = n div b" by simp
    moreover have "n mod b < 16" using mod_less_divisor [of b n] "1.prems" by linarith
    ultimately show ?thesis using 1 False
      by (subst fmt_radix.simps) (simp add: parse_radix_def char_digit_char)
  qed
qed

end
