(* ===== verification/Ranges.thy ===== *)
theory Ranges
  imports Prelude
begin

text \<open>
  The interface of a half-open address interval.  The sources implement it twice, as
  \<^verbatim>\<open>Region\<close> in \<^verbatim>\<open>src/memory.rs\<close> and as \<^verbatim>\<open>AddressRange\<close> in
  \<^verbatim>\<open>src/process.rs\<close>; the laws below are what both must keep, and the lemmas are
  proved once for both.
\<close>

locale half_open =
  fixes lo :: "'r \<Rightarrow> usize"
    and hi :: "'r \<Rightarrow> usize"
    and contains :: "'r \<Rightarrow> usize \<Rightarrow> bool"
    and overlaps :: "'r \<Rightarrow> 'r \<Rightarrow> bool"
    and extent :: "'r \<Rightarrow> usize"
  assumes contains_iff: "contains r a \<longleftrightarrow> lo r \<le> a \<and> a < hi r"
    and overlaps_iff: "overlaps r q \<longleftrightarrow> lo r < hi q \<and> lo q < hi r"
    and extent_eq: "lo r \<le> hi r \<Longrightarrow> extent r = hi r - lo r"
begin

lemma overlaps_sym: "overlaps r q = overlaps q r"
  by (auto simp: overlaps_iff)

lemma ordered_disjoint: "hi r \<le> lo q \<Longrightarrow> \<not> overlaps r q"
  by (auto simp: overlaps_iff)

lemma overlaps_common:
  assumes "lo r < hi r" and "lo q < hi q"
  shows "overlaps r q \<longleftrightarrow> (\<exists>a. contains r a \<and> contains q a)"
proof
  assume ov: "overlaps r q"
  have "contains r (max (lo r) (lo q)) \<and> contains q (max (lo r) (lo q))"
    using assms ov by (auto simp: contains_iff overlaps_iff max_def)
  then show "\<exists>a. contains r a \<and> contains q a" by blast
next
  assume "\<exists>a. contains r a \<and> contains q a"
  then show "overlaps r q" by (auto simp: contains_iff overlaps_iff)
qed

lemma disjoint_no_common:
  "\<not> overlaps r q \<Longrightarrow> contains r a \<Longrightarrow> \<not> contains q a"
  by (auto simp: contains_iff overlaps_iff)

lemma contains_offset: "contains r a \<longleftrightarrow> a - lo r < extent r" if "lo r \<le> hi r"
proof -
  have "a - lo r < hi r - lo r \<longleftrightarrow> lo r \<le> a \<and> a < hi r"
  proof (cases "lo r \<le> a")
    case True
    with that show ?thesis by (auto simp: word_less_nat_alt word_le_nat_alt unat_sub)
  next
    case False
    then have "a < lo r" by simp
    then have "hi r - lo r \<le> a - lo r" using that unat_bound64 [of "hi r"]
      by (auto simp: word_le_nat_alt word_less_nat_alt unat_sub unat_sub_if_size word_size
          simp del: unat_bound64)
    with False show ?thesis by auto
  qed
  then show ?thesis using that by (simp add: contains_iff extent_eq)
qed

lemma contains_last:
  "lo r < hi r \<Longrightarrow> k \<noteq> 0 \<Longrightarrow> k \<le> extent r \<Longrightarrow> contains r (hi r - k)"
proof -
  assume "lo r < hi r" and k: "k \<noteq> 0" "k \<le> extent r"
  then have e: "extent r = hi r - lo r" by (simp add: extent_eq)
  have kn: "unat k \<le> unat (hi r) - unat (lo r)" "0 < unat k"
    using k e \<open>lo r < hi r\<close> by (auto simp: word_le_nat_alt unat_sub word_less_nat_alt unat_gt_0)
  then have "unat (hi r - k) = unat (hi r) - unat k"
    by (intro unat_sub) (simp add: word_le_nat_alt)
  then show ?thesis
    using kn \<open>lo r < hi r\<close> by (auto simp: contains_iff word_le_nat_alt word_less_nat_alt)
qed

lemma chain_disjoint:
  assumes "hi p \<le> lo q" and "lo q \<le> hi q" and "hi q \<le> lo r"
  shows "\<not> overlaps p r"
  using assms by (intro ordered_disjoint) auto

end

end
