(* ===== verification/Memory.thy ===== *)
theory Memory
  imports Console Ranges
begin

text \<open>
  \<^verbatim>\<open>src/memory.rs\<close>: the kernel image's regions as the linker placed them, and the
  boot-time check \<^verbatim>\<open>report_and_validate\<close> that prints them and panics unless they
  are well formed, ordered, disjoint, and contain the entry point and the stack pointer.
\<close>

section \<open>Regions\<close>

record Region =
  rg_start :: usize
  rg_end :: usize

definition Region_size :: "Region \<Rightarrow> usize" where
  "Region_size r = saturating_sub (rg_end r) (rg_start r)"

definition Region_is_well_formed :: "Region \<Rightarrow> bool" where
  "Region_is_well_formed r \<longleftrightarrow> rg_start r \<le> rg_end r"

definition Region_contains :: "Region \<Rightarrow> usize \<Rightarrow> bool" where
  "Region_contains r address \<longleftrightarrow> rg_start r \<le> address \<and> address < rg_end r"

definition Region_overlaps :: "Region \<Rightarrow> Region \<Rightarrow> bool" where
  "Region_overlaps left right \<longleftrightarrow> rg_start left < rg_end right \<and> rg_start right < rg_end left"

interpretation region: half_open rg_start rg_end Region_contains Region_overlaps Region_size
  by unfold_locales
    (auto simp: Region_contains_def Region_overlaps_def Region_size_def saturating_sub_def)

section \<open>The layout\<close>

record Layout =
  ly_text :: Region
  ly_rodata :: Region
  ly_data :: Region
  ly_boot_stack :: Region
  ly_bss :: Region

definition layout :: "platform \<Rightarrow> Layout" where
  "layout pf =
     \<lparr>ly_text = \<lparr>rg_start = symbol pf ''stext'', rg_end = symbol pf ''etext''\<rparr>,
      ly_rodata = \<lparr>rg_start = symbol pf ''srodata'', rg_end = symbol pf ''erodata''\<rparr>,
      ly_data = \<lparr>rg_start = symbol pf ''sdata'', rg_end = symbol pf ''edata''\<rparr>,
      ly_boot_stack = \<lparr>rg_start = symbol pf ''sboot_stack'', rg_end = symbol pf ''eboot_stack''\<rparr>,
      ly_bss = \<lparr>rg_start = symbol pf ''sbss'', rg_end = symbol pf ''ebss''\<rparr>\<rparr>"

definition start_address :: "platform \<Rightarrow> usize" where
  "start_address pf = symbol pf ''_start''"

definition bss_probe_value :: "platform \<Rightarrow> u64 K" where
  "bss_probe_value pf = kgets (\<lambda>s. load64 (mem s) (symbol pf ''bss_probe''))"

definition print_region :: "string \<Rightarrow> Region \<Rightarrow> unit K" where
  "print_region name region =
     println (fmt_left11 name @ '' ['' @ fmt_hex (rg_start region) @ '', '' @ fmt_hex (rg_end region)
       @ '') size='' @ fmt_dec (Region_size region))"

text \<open>
  \<^verbatim>\<open>report_and_validate\<close> first prints the map, then checks it; its body is split
  at that point.
\<close>

definition report_layout :: "Layout \<Rightarrow> usize \<Rightarrow> usize \<Rightarrow> u64 \<Rightarrow> unit K" where
  "report_layout ly entry sp probe = kseq
     [print_region ''.text'' (ly_text ly),
      print_region ''.rodata'' (ly_rodata ly),
      print_region ''.data'' (ly_data ly),
      print_region ''.boot_stack'' (ly_boot_stack ly),
      print_region ''.bss'' (ly_bss ly),
      println (''_start      '' @ fmt_hex entry),
      println (''sp          '' @ fmt_hex sp),
      println (''bss_probe   '' @ fmt_hex18 probe)]"

definition validate_layout :: "platform \<Rightarrow> Layout \<Rightarrow> usize \<Rightarrow> usize \<Rightarrow> u64 \<Rightarrow> unit K" where
  "validate_layout pf ly entry sp probe = kseq
     [panic_if (\<not> Region_is_well_formed (ly_text ly)
         \<or> \<not> Region_is_well_formed (ly_rodata ly)
         \<or> \<not> Region_is_well_formed (ly_data ly)
         \<or> \<not> Region_is_well_formed (ly_boot_stack ly)
         \<or> \<not> Region_is_well_formed (ly_bss ly))
       ''memory layout contains an inverted [start,end) range'',
      panic_if (rg_end (ly_text ly) > rg_start (ly_rodata ly)
         \<or> rg_end (ly_rodata ly) > rg_start (ly_data ly)
         \<or> rg_end (ly_data ly) > rg_start (ly_boot_stack ly)
         \<or> rg_end (ly_boot_stack ly) > rg_start (ly_bss ly))
       ''kernel memory regions overlap or are out of order'',
      panic_if (Region_size (ly_boot_stack ly) \<noteq> 65536)
       (''boot stack size mismatch: expected 65536, got ''
         @ fmt_dec (Region_size (ly_boot_stack ly))),
      panic_if (Region_overlaps (ly_boot_stack ly) (ly_bss ly))
       ''boot stack overlaps ordinary BSS'',
      panic_if (\<not> Region_contains (ly_text ly) entry)
       ''_start is outside the .text range'',
      panic_if (sp < rg_start (ly_boot_stack ly) \<or> sp > rg_end (ly_boot_stack ly))
       ''current sp is outside the boot stack range'',
      panic_if (\<not> feature pf ''lesson04-skip-bss-clear'' \<and> probe \<noteq> 0)
       (''ordinary BSS was not zeroed before Rust: probe='' @ fmt_hex probe),
      println ''memory layout ok'']"

definition report_and_validate :: "platform \<Rightarrow> unit K" where
  "report_and_validate pf =
     (let ly = layout pf; entry = start_address pf in
      kbind read_sp (\<lambda>sp.
      kbind (bss_probe_value pf) (\<lambda>probe.
      kseq [report_layout ly entry sp probe, validate_layout pf ly entry sp probe])))"

section \<open>What the check establishes\<close>

text \<open>The conditions under which the check passes, as one predicate.\<close>

definition layout_ok :: "platform \<Rightarrow> Layout \<Rightarrow> usize \<Rightarrow> usize \<Rightarrow> u64 \<Rightarrow> bool" where
  "layout_ok pf ly entry sp probe \<longleftrightarrow>
     rg_start (ly_text ly) \<le> rg_end (ly_text ly)
     \<and> rg_end (ly_text ly) \<le> rg_start (ly_rodata ly)
     \<and> rg_start (ly_rodata ly) \<le> rg_end (ly_rodata ly)
     \<and> rg_end (ly_rodata ly) \<le> rg_start (ly_data ly)
     \<and> rg_start (ly_data ly) \<le> rg_end (ly_data ly)
     \<and> rg_end (ly_data ly) \<le> rg_start (ly_boot_stack ly)
     \<and> rg_start (ly_boot_stack ly) \<le> rg_end (ly_boot_stack ly)
     \<and> rg_end (ly_boot_stack ly) = rg_start (ly_boot_stack ly) + 65536
     \<and> rg_end (ly_boot_stack ly) \<le> rg_start (ly_bss ly)
     \<and> rg_start (ly_bss ly) \<le> rg_end (ly_bss ly)
     \<and> rg_start (ly_text ly) \<le> entry \<and> entry < rg_end (ly_text ly)
     \<and> rg_start (ly_boot_stack ly) \<le> sp \<and> sp \<le> rg_end (ly_boot_stack ly)
     \<and> (feature pf ''lesson04-skip-bss-clear'' \<or> probe = 0)"

lemma Region_size_eq_iff:
  "rg_start r \<le> rg_end r \<Longrightarrow> Region_size r = n \<longleftrightarrow> rg_end r = rg_start r + n"
  by (auto simp: Region_size_def saturating_sub_def)

lemma report_layout_prints: "only_prints (report_layout ly entry sp probe)"
  unfolding report_layout_def print_region_def by (intro only_prints_kseq) simp

lemma validate_layout_wp:
  "wp (validate_layout pf ly entry sp probe) Q H s \<longleftrightarrow>
     layout_ok pf ly entry sp probe \<and> Q () (s\<lparr>uart := uart s @ as_bytes ''memory layout ok'' @ [10]\<rparr>)"
  by (auto simp: validate_layout_def wps layout_ok_def Region_is_well_formed_def Region_contains_def
      Region_size_eq_iff region.ordered_disjoint simp del: append_Cons)

lemma report_and_validate_wp:
  "wp (report_and_validate pf) (\<lambda>_. Q) H s \<longleftrightarrow>
     layout_ok pf (layout pf) (start_address pf) (regs s 2) (load64 (mem s) (symbol pf ''bss_probe''))
     \<and> Q s"
  if frame: "\<And>out. Q (s\<lparr>uart := uart s @ out\<rparr>) = Q s"
proof -
  let ?p = "load64 (mem s) (symbol pf ''bss_probe'')"
  obtain out where "report_layout (layout pf) (start_address pf) (regs s 2) ?p s
      = Ret () (s\<lparr>uart := uart s @ out\<rparr>)"
    using only_printsD [OF report_layout_prints] by blast
  then show ?thesis
    using frame [of "out @ as_bytes ''memory layout ok'' @ [10]"]
    by (simp add: report_and_validate_def Let_def read_sp_def bss_probe_value_def wps
        validate_layout_wp wp_Ret del: append_Cons)
qed

text \<open>
  C22: the boot check returns exactly when the linked layout is well formed, ordered, has
  a 64 KiB boot stack, contains the entry point and the stack pointer, and the BSS probe
  reads zero; in every other case it does not return.
\<close>

theorem report_and_validate_accepts:
  "(\<exists>s'. report_and_validate pf s = Ret () s') \<longleftrightarrow>
     layout_ok pf (layout pf) (start_address pf) (regs s 2)
       (load64 (mem s) (symbol pf ''bss_probe''))"
proof -
  have "(\<exists>s'. report_and_validate pf s = Ret () s') =
        wp (report_and_validate pf) (\<lambda>_ _. True) (\<lambda>_. False) s"
    by (auto simp: wp_def split: outcome.splits)
  then show ?thesis by (simp add: report_and_validate_wp)
qed

end
