(* ===== verification/Lifecycle.thy ===== *)
theory Lifecycle
  imports Prelude
begin

text \<open>
  The interface of a guarded state machine: an object whose state changes only through
  attempted transitions, each accepted or rejected.  \<open>phase\<close> is what makes the machine
  one-shot: an accepted transition strictly advances it.
\<close>

fun accepted_count :: "('p \<Rightarrow> 's \<Rightarrow> ('e + unit) \<times> 'p) \<Rightarrow> 'p \<Rightarrow> 's list \<Rightarrow> nat" where
  "accepted_count attempt p [] = 0"
| "accepted_count attempt p (n # ns) =
     (case attempt p n of
        (Inl _, p') \<Rightarrow> accepted_count attempt p' ns
      | (Inr _, p') \<Rightarrow> Suc (accepted_count attempt p' ns))"

definition attempt_all :: "('p \<Rightarrow> 's \<Rightarrow> ('e + unit) \<times> 'p) \<Rightarrow> 'p \<Rightarrow> 's list \<Rightarrow> 'p" where
  "attempt_all attempt p ns = foldl (\<lambda>p n. snd (attempt p n)) p ns"

locale lifecycle =
  fixes state_of :: "'p \<Rightarrow> 's"
    and attempt :: "'p \<Rightarrow> 's \<Rightarrow> ('e + unit) \<times> 'p"
    and allowed :: "'s \<Rightarrow> 's \<Rightarrow> bool"
    and terminal :: "'s \<Rightarrow> bool"
    and phase :: "'s \<Rightarrow> nat"
  assumes accepted: "allowed (state_of p) n \<Longrightarrow> \<exists>p'. attempt p n = (Inr (), p') \<and> state_of p' = n"
    and rejected: "\<not> allowed (state_of p) n \<Longrightarrow> \<exists>e. attempt p n = (Inl e, p)"
    and terminal_final: "terminal s \<Longrightarrow> \<not> allowed s n"
    and phase_advances: "allowed s n \<Longrightarrow> phase s < phase n"
begin

lemma attempt_cases:
  obtains (ok) p' where "allowed (state_of p) n" "attempt p n = (Inr (), p')" "state_of p' = n"
  | (err) e where "\<not> allowed (state_of p) n" "attempt p n = (Inl e, p)"
  using accepted rejected by (metis (full_types))

lemma ok_iff_allowed: "fst (attempt p n) = Inr () \<longleftrightarrow> allowed (state_of p) n"
  by (cases p n rule: attempt_cases) auto

lemma rejected_unchanged: "fst (attempt p n) \<noteq> Inr () \<Longrightarrow> snd (attempt p n) = p"
  by (cases p n rule: attempt_cases) auto

lemma terminal_attempt: "terminal (state_of p) \<Longrightarrow> snd (attempt p n) = p"
  using terminal_final by (cases p n rule: attempt_cases) auto

lemma terminal_absorbs: "terminal (state_of p) \<Longrightarrow> attempt_all attempt p ns = p"
  unfolding attempt_all_def by (induction ns) (auto simp: terminal_attempt)

lemma terminal_stays:
  "terminal (state_of (attempt_all attempt p ns)) \<Longrightarrow>
   attempt_all attempt p (ns @ ms) = attempt_all attempt p ns"
  using terminal_absorbs [of "attempt_all attempt p ns" ms] by (simp add: attempt_all_def)

lemma accepted_count_phase:
  "accepted_count attempt p ns + phase (state_of p) \<le> phase (state_of (attempt_all attempt p ns))"
proof (induction ns arbitrary: p)
  case Nil
  then show ?case by (simp add: attempt_all_def)
next
  case (Cons n ns)
  show ?case
  proof (cases p n rule: attempt_cases)
    case (ok p')
    have "phase (state_of p) < phase (state_of p')" using ok phase_advances by simp
    with ok Cons.IH [of p'] show ?thesis by (simp add: attempt_all_def)
  next
    case (err e)
    with Cons.IH [of p] show ?thesis by (simp add: attempt_all_def)
  qed
qed

lemma state_reached:
  "state_of (attempt_all attempt p ns) = state_of p \<or> state_of (attempt_all attempt p ns) \<in> set ns"
proof (induction ns arbitrary: p)
  case Nil
  then show ?case by (simp add: attempt_all_def)
next
  case (Cons n ns)
  from Cons.IH [of "snd (attempt p n)"] show ?case
    by (cases p n rule: attempt_cases) (auto simp: attempt_all_def)
qed

end

end
