(* ===== verification/Process.thy ===== *)
theory Process
  imports Console Ranges Lifecycle
begin

text \<open>
  \<^verbatim>\<open>src/process.rs\<close>: programs, address ranges, the process state machine and the
  PID allocator.  A Rust reference to a \<^verbatim>\<open>Program\<close> is modelled by the program it
  refers to; \<^verbatim>\<open>&mut self\<close> methods return the updated value.
\<close>

section \<open>Programs and address ranges\<close>

record Program =
  pr_name :: string
  pr_entry :: usize
  pr_code_start :: usize
  pr_code_end :: usize

definition from_linked :: "string \<Rightarrow> usize \<Rightarrow> usize \<Rightarrow> usize \<Rightarrow> Program K" where
  "from_linked name entry code_start code_end =
     kthen (panic_if (code_start \<ge> code_end)
       (''program '' @ name @ '' has invalid code range: ['' @ fmt_hex code_start @ '', ''
         @ fmt_hex code_end @ '')'')) (
     kthen (panic_if (entry < code_start \<or> entry \<ge> code_end)
       (''program '' @ name @ '' entry is outside code range: entry='' @ fmt_hex entry))
     (kret \<lparr>pr_name = name, pr_entry = entry, pr_code_start = code_start, pr_code_end = code_end\<rparr>))"

definition linked_hello :: "platform \<Rightarrow> Program K" where
  "linked_hello pf =
     from_linked ''hello'' (symbol pf ''model_hello_entry'')
       (symbol pf ''model_hello_start'') (symbol pf ''model_hello_end'')"

definition code_range :: "Program \<Rightarrow> AddressRange" where
  "code_range p = \<lparr>ar_start = pr_code_start p, ar_end = pr_code_end p\<rparr>"

definition AddressRange_new :: "usize \<Rightarrow> usize \<Rightarrow> AddressRange K" where
  "AddressRange_new start end' =
     kthen (panic_if (start \<ge> end')
       (''invalid address range ['' @ fmt_hex start @ '', '' @ fmt_hex end' @ '')''))
     (kret \<lparr>ar_start = start, ar_end = end'\<rparr>)"

definition AddressRange_size :: "platform \<Rightarrow> AddressRange \<Rightarrow> usize K" where
  "AddressRange_size pf r = arith_sub (overflow_checks pf) (ar_end r) (ar_start r)"

definition AddressRange_contains :: "AddressRange \<Rightarrow> usize \<Rightarrow> bool" where
  "AddressRange_contains r address \<longleftrightarrow> ar_start r \<le> address \<and> address < ar_end r"

definition AddressRange_overlaps :: "AddressRange \<Rightarrow> AddressRange \<Rightarrow> bool" where
  "AddressRange_overlaps r other \<longleftrightarrow> ar_start r < ar_end other \<and> ar_start other < ar_end r"

definition AddressRange_extent :: "AddressRange \<Rightarrow> usize" where
  "AddressRange_extent r = ar_end r - ar_start r"

interpretation range: half_open ar_start ar_end AddressRange_contains AddressRange_overlaps
  AddressRange_extent
  by unfold_locales
    (auto simp: AddressRange_contains_def AddressRange_overlaps_def AddressRange_extent_def)

lemma AddressRange_size_run [krun]:
  "ar_start r \<le> ar_end r \<Longrightarrow> AddressRange_size pf r s = Ret (AddressRange_extent r) s"
  by (simp add: AddressRange_size_def AddressRange_extent_def krun)

section \<open>Process states\<close>

record FaultInfo =
  fi_cause :: usize
  fi_sepc :: usize
  fi_stval :: usize

datatype ProcessState = Ready | Running | Exited "32 word" | Faulted FaultInfo

record InvalidTransition =
  it_from :: ProcessState
  it_to :: ProcessState

record UserContext =
  uc_x :: "usize list"
  uc_sepc :: usize
  uc_sstatus :: usize

definition UserContext_new :: "usize \<Rightarrow> usize \<Rightarrow> usize \<Rightarrow> UserContext" where
  "UserContext_new entry user_sp sstatus =
     \<lparr>uc_x = (replicate 32 0)[2 := user_sp], uc_sepc = entry, uc_sstatus = sstatus\<rparr>"

record UserRuntime =
  ur_user_stack :: AddressRange
  ur_trap_stack :: AddressRange
  ur_context :: UserContext

record Process =
  pc_id :: u64
  pc_program :: Program
  pc_state :: ProcessState
  pc_user :: "UserRuntime option"

definition Process_new :: "u64 \<Rightarrow> Program \<Rightarrow> Process" where
  "Process_new pid program =
     \<lparr>pc_id = pid, pc_program = program, pc_state = Ready, pc_user = None\<rparr>"

fun transition_allowed :: "ProcessState \<Rightarrow> ProcessState \<Rightarrow> bool" where
  "transition_allowed Ready Running = True"
| "transition_allowed Running (Exited _) = True"
| "transition_allowed Running (Faulted _) = True"
| "transition_allowed _ _ = False"

definition Process_transition :: "Process \<Rightarrow> ProcessState \<Rightarrow> (InvalidTransition + unit) \<times> Process" where
  "Process_transition p next =
     (let current = pc_state p in
      if \<not> transition_allowed current next
      then (Inl \<lparr>it_from = current, it_to = next\<rparr>, p)
      else (Inr (), p\<lparr>pc_state := next\<rparr>))"

text \<open>\<^verbatim>\<open>if self.transition(next).is_err() { panic!(msg) }\<close>\<close>

definition transition_or_panic :: "Process \<Rightarrow> ProcessState \<Rightarrow> string \<Rightarrow> Process K" where
  "transition_or_panic p next msg =
     (case Process_transition p next of (Inl _, _) \<Rightarrow> kpanic msg | (Inr _, p') \<Rightarrow> kret p')"

definition Process_start :: "Process \<Rightarrow> Process K" where
  "Process_start p = transition_or_panic p Running
     (''process '' @ fmt_dec (pc_id p) @ '' cannot transition to Running'')"

definition finish_exit :: "Process \<Rightarrow> u8 \<Rightarrow> Process K" where
  "finish_exit p code = transition_or_panic p (Exited (ucast code))
     (''process '' @ fmt_dec (pc_id p) @ '' cannot transition Running -> Exited'')"

definition finish_fault :: "Process \<Rightarrow> FaultInfo \<Rightarrow> Process K" where
  "finish_fault p info = transition_or_panic p (Faulted info)
     (''process '' @ fmt_dec (pc_id p) @ '' cannot transition Running -> Faulted'')"

definition attach_user_runtime :: "Process \<Rightarrow> UserRuntime \<Rightarrow> Process K" where
  "attach_user_runtime p runtime =
     kthen (panic_if (pc_user p \<noteq> None)
       (''process '' @ fmt_dec (pc_id p) @ '' already has user runtime resources''))
     (kret (p\<lparr>pc_user := Some runtime\<rparr>))"

definition user_runtime :: "Process \<Rightarrow> UserRuntime K" where
  "user_runtime p =
     kexpect (pc_user p) (''process '' @ fmt_dec (pc_id p) @ '' has no user runtime'')"

section \<open>The PID allocator\<close>

record PidAllocator =
  pa_next :: u64

definition PidAllocator_new :: "u64 \<Rightarrow> PidAllocator" where
  "PidAllocator_new first = \<lparr>pa_next = first\<rparr>"

text \<open>On overflow the \<^verbatim>\<open>?\<close> leaves before \<^verbatim>\<open>self.next\<close> is assigned.\<close>

definition allocate :: "PidAllocator \<Rightarrow> u64 option \<times> PidAllocator" where
  "allocate a =
     (let pid = pa_next a in
      case checked_add (pa_next a) 1 of
        None \<Rightarrow> (None, a)
      | Some n \<Rightarrow> (Some pid, a\<lparr>pa_next := n\<rparr>))"

fun allocate_many :: "nat \<Rightarrow> PidAllocator \<Rightarrow> u64 option list \<times> PidAllocator" where
  "allocate_many 0 a = ([], a)"
| "allocate_many (Suc n) a =
     (case allocate a of (r, a') \<Rightarrow> (case allocate_many n a' of (rs, a'') \<Rightarrow> (r # rs, a'')))"

section \<open>The lesson 06 model run\<close>

definition print_process_state :: "Process \<Rightarrow> unit K" where
  "print_process_state p = (case pc_state p of
     Ready \<Rightarrow> println (''[model] pid='' @ fmt_dec (pc_id p) @ '' Ready'')
   | Running \<Rightarrow> println (''[model] pid='' @ fmt_dec (pc_id p) @ '' Running'')
   | Exited code \<Rightarrow>
       println (''[model] pid='' @ fmt_dec (pc_id p) @ '' Exited('' @ fmt_int code @ '')'')
   | Faulted info \<Rightarrow>
       println (''[model] pid='' @ fmt_dec (pc_id p) @ '' Faulted(cause='' @ fmt_dec (fi_cause info)
         @ '',sepc='' @ fmt_hex (fi_sepc info) @ '',stval='' @ fmt_hex (fi_stval info) @ '')''))"

fun state_name :: "ProcessState \<Rightarrow> string" where
  "state_name Ready = ''Ready''"
| "state_name Running = ''Running''"
| "state_name (Exited _) = ''Exited''"
| "state_name (Faulted _) = ''Faulted''"

definition run_lesson06_model :: "platform \<Rightarrow> u64 K" where
  "run_lesson06_model pf =
     kbind (linked_hello pf) (\<lambda>program.
     kthen (println (''[model] program='' @ pr_name program @ '' entry='' @ fmt_hex (pr_entry program)
       @ '' code=['' @ fmt_hex (pr_code_start program) @ '', '' @ fmt_hex (pr_code_end program) @ '')''))
     (let pids = PidAllocator_new 1; (r1, pids) = allocate pids in
     kbind (kexpect r1 ''PID allocator overflow'') (\<lambda>pid1.
     let first = Process_new pid1 program in
     kthen (print_process_state first) (
     kbind (transition_or_panic first Running ''Ready -> Running was rejected'') (\<lambda>first.
     kthen (print_process_state first) (
     kbind (transition_or_panic first (Exited 0) ''Running -> Exited(0) was rejected'') (\<lambda>first.
     kthen (print_process_state first) (
     let before = pc_state first; (r, first) = Process_transition first Running in
     kbind (case r of Inr _ \<Rightarrow> kpanic ''Exited -> Running unexpectedly succeeded''
                    | Inl error \<Rightarrow> kret error) (\<lambda>error.
     kthen (panic_if (pc_state first \<noteq> before)
       ''invalid process transition changed the original state'') (
     kbind (case pc_state first of Exited code \<Rightarrow> kret code
            | _ \<Rightarrow> kpanic ''pid=1 did not remain Exited after invalid transition'') (\<lambda>exit_code.
     kthen (println (''[model] pid='' @ fmt_dec (pc_id first) @ '' reject '' @ state_name (it_from error)
       @ '' -> '' @ state_name (it_to error) @ '' kept=Exited('' @ fmt_int exit_code @ '')''))
     (let (r2, pids) = allocate pids in
     kbind (kexpect r2 ''PID allocator overflow'') (\<lambda>pid2.
     let second = Process_new pid2 program in
     kthen (print_process_state second) (
     kthen (println (''[model] shared_program='' @ fmt_bool (pc_program first = pc_program second))) (
     kbind (transition_or_panic second Running ''second Ready -> Running was rejected'') (\<lambda>second.
     kthen (print_process_state second) (
     kbind (transition_or_panic second (Exited 0) ''second Running -> Exited(0) was rejected'') (\<lambda>second.
     kthen (print_process_state second) (
     kthen (panic_if (pc_id first = pc_id second) ''two process instances received the same PID'') (
     kthen (println ''[model] process model ok'')
     (kret (pa_next pids))))))))))))))))))))))"

section \<open>Correctness of the process state machine\<close>

text \<open>The state machine as a relation, one rule per edge.\<close>

inductive process_edge :: "ProcessState \<Rightarrow> ProcessState \<Rightarrow> bool" where
  edge_start: "process_edge Ready Running"
| edge_exit: "process_edge Running (Exited code)"
| edge_fault: "process_edge Running (Faulted info)"

inductive_simps process_edge_simps [simp]:
  "process_edge Ready s" "process_edge Running s" "process_edge (Exited c) s" "process_edge (Faulted f) s"

definition process_terminal :: "ProcessState \<Rightarrow> bool" where
  "process_terminal s \<longleftrightarrow> (case s of Exited _ \<Rightarrow> True | Faulted _ \<Rightarrow> True | _ \<Rightarrow> False)"

fun process_phase :: "ProcessState \<Rightarrow> nat" where
  "process_phase Ready = 0"
| "process_phase Running = 1"
| "process_phase _ = 2"

lemma transition_allowed_edge: "transition_allowed a b = process_edge a b"
  by (cases a; cases b) auto

lemma Process_transition_ok:
  "transition_allowed (pc_state p) n \<Longrightarrow> Process_transition p n = (Inr (), p\<lparr>pc_state := n\<rparr>)"
  by (simp add: Process_transition_def)

lemma Process_transition_err:
  "\<not> transition_allowed (pc_state p) n \<Longrightarrow>
   Process_transition p n = (Inl \<lparr>it_from = pc_state p, it_to = n\<rparr>, p)"
  by (simp add: Process_transition_def Let_def)

interpretation proc: lifecycle pc_state Process_transition process_edge process_terminal process_phase
proof unfold_locales
  fix p n
  show "process_edge (pc_state p) n \<Longrightarrow>
      \<exists>p'. Process_transition p n = (Inr (), p') \<and> pc_state p' = n"
    by (simp add: Process_transition_ok transition_allowed_edge)
  show "\<not> process_edge (pc_state p) n \<Longrightarrow> \<exists>e. Process_transition p n = (Inl e, p)"
    by (simp add: Process_transition_err transition_allowed_edge)
next
  fix s n
  show "process_terminal s \<Longrightarrow> \<not> process_edge s n"
    by (cases s) (auto simp: process_terminal_def)
  show "process_edge s n \<Longrightarrow> process_phase s < process_phase n"
    by (auto elim: process_edge.cases)
qed

lemma process_phase_le: "process_phase s \<le> 2"
  by (cases s) auto

text \<open>
  C33: a process runs at most once.  Whatever sequence of transitions is attempted on a new
  process, at most two are accepted, and once it has exited or faulted no further attempt
  changes it: its exit code or fault record is kept.
\<close>

theorem process_one_shot:
  "accepted_count Process_transition (Process_new i program) ns \<le> 2 \<and>
   (\<forall>ms. process_terminal (pc_state (attempt_all Process_transition (Process_new i program) ns)) \<longrightarrow>
      attempt_all Process_transition (Process_new i program) (ns @ ms)
        = attempt_all Process_transition (Process_new i program) ns)"
proof -
  have "accepted_count Process_transition (Process_new i program) ns \<le>
      process_phase (pc_state (attempt_all Process_transition (Process_new i program) ns))"
    using proc.accepted_count_phase by (rule add_leD1)
  then show ?thesis using process_phase_le proc.terminal_stays order_trans by blast
qed

theorem process_one_shot_witness:
  "\<forall>p. attempt_all Process_transition (Process_new 1 p) ([Running, Exited 7] @ [Running, Exited 8])
     = attempt_all Process_transition (Process_new 1 p) [Running, Exited 7]"
proof
  fix p
  have "process_terminal (pc_state (attempt_all Process_transition (Process_new 1 p) [Running, Exited 7]))"
    by (simp add: attempt_all_def Process_transition_def Process_new_def process_terminal_def)
  then show "attempt_all Process_transition (Process_new 1 p) ([Running, Exited 7] @ [Running, Exited 8])
     = attempt_all Process_transition (Process_new 1 p) [Running, Exited 7]"
    using process_one_shot [of 1 p "[Running, Exited 7]"] by blast
qed

text \<open>The state-changing methods, on every branch.\<close>

lemma transition_or_panic_run [krun]:
  "transition_or_panic p n msg s =
     (if process_edge (pc_state p) n then Ret (p\<lparr>pc_state := n\<rparr>) s else Panicked msg s)"
  by (auto simp: transition_or_panic_def Process_transition_def Let_def transition_allowed_edge krun)

lemma transition_or_panic_wp [wps]:
  "wp (transition_or_panic p n msg) Q H s = (process_edge (pc_state p) n \<and> Q (p\<lparr>pc_state := n\<rparr>) s)"
  "wlp (transition_or_panic p n msg) Q H s = (process_edge (pc_state p) n \<and> Q (p\<lparr>pc_state := n\<rparr>) s)"
  by (simp_all add: wp_def wlp_def krun)

lemma from_linked_run [krun]:
  "start < end' \<Longrightarrow> start \<le> entry \<Longrightarrow> entry < end' \<Longrightarrow>
   from_linked name entry start end' s =
     Ret \<lparr>pr_name = name, pr_entry = entry, pr_code_start = start, pr_code_end = end'\<rparr> s"
  by (simp add: from_linked_def krun linorder_not_le linorder_not_less)

lemma from_linked_wp [wps]:
  "wp (from_linked name entry start end') Q H s \<longleftrightarrow>
     start \<le> entry \<and> entry < end' \<and>
     Q \<lparr>pr_name = name, pr_entry = entry, pr_code_start = start, pr_code_end = end'\<rparr> s"
  by (auto simp: from_linked_def wps)

lemma AddressRange_new_wp [wps]:
  "wp (AddressRange_new a b) Q H s \<longleftrightarrow> a < b \<and> Q \<lparr>ar_start = a, ar_end = b\<rparr> s"
  "wlp (AddressRange_new a b) Q H s \<longleftrightarrow> a < b \<and> Q \<lparr>ar_start = a, ar_end = b\<rparr> s"
  by (auto simp: AddressRange_new_def wps)

lemma AddressRange_new_run [krun]:
  "a < b \<Longrightarrow> AddressRange_new a b s = Ret \<lparr>ar_start = a, ar_end = b\<rparr> s"
  by (simp add: AddressRange_new_def krun)

text \<open>
  C34: starting a process and finishing it succeed exactly from the states the protocol
  names, change the state only, and every other call panics and leaves the machine as
  it was.
\<close>

theorem process_protocol:
  "(Process_start p s =
     (if pc_state p = Ready then Ret (p\<lparr>pc_state := Running\<rparr>) s
      else Panicked (''process '' @ fmt_dec (pc_id p) @ '' cannot transition to Running'') s))
   \<and> (finish_exit p code s =
     (if pc_state p = Running then Ret (p\<lparr>pc_state := Exited (ucast code)\<rparr>) s
      else Panicked (''process '' @ fmt_dec (pc_id p) @ '' cannot transition Running -> Exited'') s))
   \<and> (finish_fault p info s =
     (if pc_state p = Running then Ret (p\<lparr>pc_state := Faulted info\<rparr>) s
      else Panicked (''process '' @ fmt_dec (pc_id p) @ '' cannot transition Running -> Faulted'') s))"
  by (cases "pc_state p") (simp_all add: Process_start_def finish_exit_def finish_fault_def krun)

section \<open>The PID allocator never repeats an identifier\<close>

lemma allocate_eq:
  "allocate a =
     (if unat (pa_next a) + 1 < 2 ^ 64
      then (Some (pa_next a), a\<lparr>pa_next := pa_next a + 1\<rparr>) else (None, a))"
  by (simp add: allocate_def Let_def checked_add_def)

lemma upt_Suc_shift: "[0..<Suc n] = 0 # map Suc [0..<n]"
  by (simp add: upt_conv_Cons map_Suc_upt del: upt_Suc)

lemma allocate_many_exhausted:
  "\<not> unat (pa_next a) + 1 < 2 ^ 64 \<Longrightarrow> allocate_many n a = (map (\<lambda>_. None) [0..<n], a)"
  by (induction n) (simp_all only: allocate_many.simps allocate_eq upt_Suc_shift, simp_all)

text \<open>
  C35: the allocator started at \<^verbatim>\<open>first\<close> hands out \<^verbatim>\<open>first\<close>, \<^verbatim>\<open>first + 1\<close>,
  and so on, each at most once, until the next identifier would be \<^verbatim>\<open>u64::MAX\<close>; from
  then on every request fails and none wraps around.
\<close>

theorem allocate_many_pids:
  "fst (allocate_many n (PidAllocator_new first)) =
     map (\<lambda>i. if unat first + i + 1 < 2 ^ 64 then Some (first + of_nat i) else None) [0..<n]"
proof -
  have "fst (allocate_many n a) =
      map (\<lambda>i. if unat (pa_next a) + i + 1 < 2 ^ 64 then Some (pa_next a + of_nat i) else None) [0..<n]"
    for a
  proof (induction n arbitrary: a)
    case 0
    then show ?case by simp
  next
    case (Suc n)
    show ?case
    proof (cases "unat (pa_next a) + 1 < 2 ^ 64")
      case True
      then have "unat (pa_next a + 1) = unat (pa_next a) + 1" by (simp add: unat_word_ariths)
      with True Suc [of "a\<lparr>pa_next := pa_next a + 1\<rparr>"] show ?thesis
        by (simp add: upt_Suc_shift allocate_eq case_prod_beta algebra_simps del: upt_Suc)
    next
      case False
      then show ?thesis by (subst allocate_many_exhausted) auto
    qed
  qed
  then show ?thesis by (simp add: PidAllocator_new_def)
qed

section \<open>The lesson 06 run\<close>

text \<open>The lines the lesson 06 acceptance test looks for, in order.\<close>

definition lesson06_lines :: "platform \<Rightarrow> string list" where
  "lesson06_lines pf =
     [''[model] program=hello entry='' @ fmt_hex (symbol pf ''model_hello_entry'')
        @ '' code=['' @ fmt_hex (symbol pf ''model_hello_start'') @ '', ''
        @ fmt_hex (symbol pf ''model_hello_end'') @ '')'',
      ''[model] pid=1 Ready'',
      ''[model] pid=1 Running'',
      ''[model] pid=1 Exited(0)'',
      ''[model] pid=1 reject Exited -> Running kept=Exited(0)'',
      ''[model] pid=2 Ready'',
      ''[model] shared_program=true'',
      ''[model] pid=2 Running'',
      ''[model] pid=2 Exited(0)'',
      ''[model] process model ok'']"

definition output_lines :: "string list \<Rightarrow> u8 list" where
  "output_lines ls = concat (map (\<lambda>l. as_bytes l @ [10]) ls)"

lemma fmt_small [simp]: "fmt_dec (1::64 word) = ''1''" "fmt_dec (2::64 word) = ''2''"
  "fmt_int (0::32 word) = ''0''"
  by code_simp+

lemma lesson06_run:
  assumes "symbol pf ''model_hello_start'' \<le> symbol pf ''model_hello_entry''"
    and "symbol pf ''model_hello_entry'' < symbol pf ''model_hello_end''"
  shows "run_lesson06_model pf s
    = Ret 3 (s\<lparr>uart := uart s @ output_lines (lesson06_lines pf)\<rparr>)"
proof -
  have "wp (run_lesson06_model pf)
     (\<lambda>a s'. a = 3 \<and> s' = s\<lparr>uart := uart s @ output_lines (lesson06_lines pf)\<rparr>) (\<lambda>_. False) s"
    using assms
    by (simp add: run_lesson06_model_def linked_hello_def wps PidAllocator_new_def allocate_eq
        Process_new_def print_process_state_def Process_transition_def Let_def
        output_lines_def lesson06_lines_def fmt_bool_def)
  then show ?thesis by (auto elim: wp_return_cases)
qed

text \<open>
  C36: the lesson 06 model run, on every platform whose linked hello program has its entry
  inside its code: it prints exactly those lines, in which PID 1 exits, a restart of it is
  rejected with its exit code kept, and PID 2 runs the same program; it returns 3, the PID
  the first real user process gets.
\<close>

theorem lesson06_model_run:
  assumes "symbol pf ''model_hello_start'' \<le> symbol pf ''model_hello_entry''"
    and "symbol pf ''model_hello_entry'' < symbol pf ''model_hello_end''"
  shows "run_lesson06_model pf s
    = Ret 3 (s\<lparr>uart := uart s @ output_lines (lesson06_lines pf)\<rparr>)"
  using assms by (rule lesson06_run)

end
