(* ===== verification/Image.thy ===== *)
theory Image
  imports Machine
begin

text \<open>
  A concrete kernel image and machine at which the hypotheses of the theorems are
  discharged: symbol addresses laid out as \<^verbatim>\<open>linker.ld\<close> orders the sections, a clock
  that advances, a firmware that always succeeds, and a machine whose stack pointer is the
  top of the boot stack.  Nothing here models code; the theorems hold for every platform.
\<close>

definition image_symbols :: "(string \<times> usize) list" where
  "image_symbols =
    [(''stext'', 0x80200000), (''_start'', 0x80200000),
     (''trap_entry'', 0x80200100), (''user_trap_entry'', 0x80200200),
     (''trap_trigger_label'', 0x80200400),
     (''user_start'', 0x80201000), (''user_entry'', 0x80201000), (''user_ecall'', 0x80201008),
     (''user_end'', 0x80201010),
     (''user08_start'', 0x80201100), (''user08_entry'', 0x80201100),
     (''user08_ecall_unknown'', 0x80201140), (''user08_ecall_invalid'', 0x80201154),
     (''user08_ecall_o'', 0x802011a0), (''user08_ecall_k'', 0x802011b0),
     (''user08_ecall_newline'', 0x802011c0), (''user08_end'', 0x80201230),
     (''user09_start'', 0x80201300), (''user09_entry'', 0x80201300),
     (''user09_ecall_invalid_exit'', 0x80201308), (''user09_ecall_exit7'', 0x8020131c),
     (''user09_end'', 0x802013e0),
     (''user09_stress_start'', 0x80201400), (''user09_stress_entry'', 0x80201400),
     (''user09_stress_ecall'', 0x80201408), (''user09_stress_end'', 0x80201410),
     (''user10_fault_start'', 0x80201500), (''user10_fault_end'', 0x80201508),
     (''user10_normal_start'', 0x80201600), (''user10_normal_end'', 0x80201800),
     (''user_api_start'', 0x80201900), (''user_api_end'', 0x80201918),
     (''sched_code_start'', 0x80202000), (''sched_entry'', 0x80202000),
     (''sched_fault'', 0x80202200), (''sched_code_end'', 0x80202208),
     (''model_hello_start'', 0x80203000), (''model_hello_entry'', 0x80203000),
     (''model_hello_end'', 0x80203008),
     (''etext'', 0x80210000), (''srodata'', 0x80210000), (''erodata'', 0x80218000),
     (''sdata'', 0x80218000), (''edata'', 0x80219000),
     (''sboot_stack'', 0x80220000), (''boot_stack_top'', 0x80230000), (''eboot_stack'', 0x80230000),
     (''sbss'', 0x80230000),
     (''user_stack_start'', 0x80230000), (''user_stack_end'', 0x80234000),
     (''user_trap_stack_start'', 0x80234000), (''user_trap_stack_end'', 0x80238000),
     (''kernel_gp_saved'', 0x80238000), (''kernel_tp_saved'', 0x80238008),
     (''kernel_context'', 0x80238010), (''bss_probe'', 0x80238100),
     (''STACKS'', 0x80240000), (''TIMER_DONE'', 0x80260000), (''ebss'', 0x80270000)]"

definition image_symbol :: "string \<Rightarrow> usize" where
  "image_symbol n = (case map_of image_symbols n of None \<Rightarrow> 0 | Some a \<Rightarrow> a)"

definition image_platform ::
  "string list \<Rightarrow> (nat \<Rightarrow> usize) \<Rightarrow> (nat \<Rightarrow> TrapFrame \<Rightarrow> memory \<Rightarrow> (TrapFrame \<times> memory) option) \<Rightarrow> platform"
  where
  "image_platform features clk usr =
     \<lparr>symbol = image_symbol, feature = (\<lambda>f. f \<in> set features), overflow_checks = True,
      clock = clk, firmware = (\<lambda>_ _ _ _. (0, 1)), stvec_keeps = (\<lambda>v. v), user_code = usr\<rparr>"

definition zero_frame :: TrapFrame where
  "zero_frame = \<lparr>tf_x = replicate 32 0, tf_sstatus = 0, tf_sepc = 0, tf_scause = 0, tf_stval = 0\<rparr>"

definition image_machine :: machine where
  "image_machine =
     \<lparr>regs = (\<lambda>r. if r = 2 then 0x8022ff00 else 0), csrs = (\<lambda>_. 0), mem = (\<lambda>_. 0), uart = [],
      sbi_log = [], time_reads = 0, user_entries = 0, last_exit_code = - 1,
      expected_trap_frame = 0,
      active = \<lparr>act_code = \<lparr>ar_start = 0, ar_end = 0\<rparr>, act_outcome = None\<rparr>,
      exchange = \<lparr>ex_expected = 0, ex_frame = zero_frame, ex_reason = Reason_Syscall, ex_time = 0\<rparr>\<rparr>"

lemma image_platform_simps [simp]:
  "symbol (image_platform fs clk usr) = image_symbol"
  "feature (image_platform fs clk usr) f = (f \<in> set fs)"
  "overflow_checks (image_platform fs clk usr) = True"
  "clock (image_platform fs clk usr) = clk"
  "firmware (image_platform fs clk usr) n a b c = (0, 1)"
  "stvec_keeps (image_platform fs clk usr) v = v"
  "user_code (image_platform fs clk usr) = usr"
  by (simp_all add: image_platform_def)

lemmas image_eval = image_symbol_def image_symbols_def

end
