(* ===== verification/Timer.thy ===== *)
theory Timer
  imports Console
begin

unbundle bit_operations_syntax

text \<open>
  \<^verbatim>\<open>src/sbi.rs\<close> and \<^verbatim>\<open>src/timer.rs\<close>: SBI calls and the supervisor timer.  The
  firmware is a parameter: its answer to the n-th call is \<open>firmware pf n\<close>, and each call is
  logged.  Its two result registers are the pair (error, value).
\<close>

section \<open>SBI\<close>

definition sbi_call :: "platform \<Rightarrow> usize \<Rightarrow> usize \<Rightarrow> usize \<Rightarrow> (isize + usize) K" where
  "sbi_call pf eid fid arg = (\<lambda>s.
     let (error, value) = firmware pf (length (sbi_log s)) eid fid arg in
     Ret (if error = 0 then Inr value else Inl error)
       (s\<lparr>sbi_log := sbi_log s @ [(eid, fid, arg)]\<rparr>))"

definition expect_ok :: "('e + 'a) \<Rightarrow> string \<Rightarrow> 'a K" where
  "expect_ok r msg = (case r of Inl e \<Rightarrow> kpanic msg | Inr a \<Rightarrow> kret a)"

definition init_time :: "platform \<Rightarrow> unit K" where
  "init_time pf =
     kbind (sbi_call pf 0x10 3 0x54494d45) (\<lambda>r.
     kbind (expect_ok r ''SBI BASE probe failed'') (\<lambda>v.
     kassert (v \<noteq> 0) ''TIME extension unavailable''))"

definition set_timer :: "platform \<Rightarrow> usize \<Rightarrow> unit K" where
  "set_timer pf deadline =
     kbind (sbi_call pf 0x54494d45 0 deadline) (\<lambda>r.
     kbind (expect_ok r ''SBI TIME failed'') (\<lambda>_. kret ()))"

section \<open>The timer\<close>

definition T :: usize where
  "T = 10000"

definition now :: "platform \<Rightarrow> usize K" where
  "now pf = (\<lambda>s. Ret (clock pf (time_reads s)) (s\<lparr>time_reads := Suc (time_reads s)\<rparr>))"

definition after :: "platform \<Rightarrow> usize \<Rightarrow> usize K" where
  "after pf interval =
     kthen (kassert (interval > 0) ''assertion failed: interval > 0'') (
     kbind (now pf) (\<lambda>t. kexpect (checked_add t interval) ''timer deadline overflow''))"

definition arm :: "platform \<Rightarrow> usize \<Rightarrow> unit K" where
  "arm pf deadline = kthen (set_timer pf deadline) (csr_set_bits pf Sie 32)"

definition stop :: "platform \<Rightarrow> unit K" where
  "stop pf = kthen (csr_clear_bits pf Sie 32) (set_timer pf (- 1))"

section \<open>Running and verifying timer calls\<close>

text \<open>The SBI specification: a supported call with valid arguments returns error 0.\<close>

definition firmware_ok :: "platform \<Rightarrow> bool" where
  "firmware_ok pf \<longleftrightarrow>
     (\<forall>n arg. fst (firmware pf n 0x54494d45 0 arg) = 0)
     \<and> (\<forall>n. fst (firmware pf n 0x10 3 0x54494d45) = 0 \<and> snd (firmware pf n 0x10 3 0x54494d45) \<noteq> 0)"

lemma set_timer_run [krun]:
  "firmware_ok pf \<Longrightarrow>
   set_timer pf d s = Ret () (s\<lparr>sbi_log := sbi_log s @ [(0x54494d45, 0, d)]\<rparr>)"
  by (auto simp: set_timer_def sbi_call_def expect_ok_def krun firmware_ok_def split: prod.split)
    (metis fst_conv)+

lemma init_time_run [krun]:
  "firmware_ok pf \<Longrightarrow>
   init_time pf s = Ret () (s\<lparr>sbi_log := sbi_log s @ [(0x10, 3, 0x54494d45)]\<rparr>)"
  by (auto simp: init_time_def sbi_call_def expect_ok_def krun firmware_ok_def split: prod.split)
    (metis fst_conv snd_conv)+

lemma now_run [krun]:
  "now pf s = Ret (clock pf (time_reads s)) (s\<lparr>time_reads := Suc (time_reads s)\<rparr>)"
  by (simp add: now_def)

lemma arm_run [krun]:
  "firmware_ok pf \<Longrightarrow>
   arm pf d s = Ret () (csr_write pf Sie (csrs s Sie OR 32)
     (s\<lparr>sbi_log := sbi_log s @ [(0x54494d45, 0, d)]\<rparr>))"
  by (simp add: arm_def krun csr_set_bits_def)

lemma stop_run [krun]:
  "firmware_ok pf \<Longrightarrow>
   stop pf s = Ret () ((csr_write pf Sie (csrs s Sie AND NOT 32) s)
     \<lparr>sbi_log := sbi_log s @ [(0x54494d45, 0, - 1)]\<rparr>)"
  by (simp add: stop_def krun csr_clear_bits_def csr_write_def)

lemma timer_wp [wps]:
  "wp (now pf) Q H s = Q (clock pf (time_reads s)) (s\<lparr>time_reads := Suc (time_reads s)\<rparr>)"
  "wlp (now pf) Q H s = Q (clock pf (time_reads s)) (s\<lparr>time_reads := Suc (time_reads s)\<rparr>)"
  by (simp_all add: wp_def wlp_def krun)

lemma after_wp [wps]:
  "wp (after pf i) Q H s \<longleftrightarrow>
     i > 0 \<and> unat (clock pf (time_reads s)) + unat i < 2 ^ 64
     \<and> Q (clock pf (time_reads s) + i) (s\<lparr>time_reads := Suc (time_reads s)\<rparr>)"
  "wlp (after pf i) Q H s \<longleftrightarrow>
     i > 0 \<and> unat (clock pf (time_reads s)) + unat i < 2 ^ 64
     \<and> Q (clock pf (time_reads s) + i) (s\<lparr>time_reads := Suc (time_reads s)\<rparr>)"
  by (auto simp: after_def wps checked_add_Some)

lemma timer_off_bit: "(x AND - 33) AND 32 = (0 :: usize)"
  by (simp add: and.assoc)

text \<open>
  Stopping the timer disarms it: with a conforming firmware the timer-enable bit of
  \<^verbatim>\<open>sie\<close> is clear afterwards and the last deadline programmed is the largest one, so
  none can expire; arming sets the bit and programs exactly the deadline asked for.
\<close>

theorem timer_stop_disarms:
  assumes "firmware_ok pf"
  shows "(\<exists>s'. stop pf s = Ret () s' \<and> csrs s' Sie AND 32 = 0 \<and> last (sbi_log s') = (0x54494d45, 0, - 1))
    \<and> (\<exists>s'. arm pf d s = Ret () s' \<and> csrs s' Sie AND 32 = 32 \<and> last (sbi_log s') = (0x54494d45, 0, d))"
proof -
  have "(x OR 32) AND 32 = (32 :: usize)" for x
    by (rule bit_word_eqI) (auto simp: bit_simps)
  then show ?thesis using assms by (simp add: krun csr_write_def timer_off_bit)
qed

end
