(* ===== verification/Syscall.thy ===== *)
theory Syscall
  imports Console
begin

text \<open>
  \<^verbatim>\<open>src/syscall.rs\<close>: the dispatcher.  \<^verbatim>\<open>a7\<close> is the number, \<^verbatim>\<open>a0\<close> the
  argument; the outcome is either a result for \<^verbatim>\<open>a0\<close> or the exit of the process.
\<close>

definition SYSCALL_PUTCHAR :: usize where "SYSCALL_PUTCHAR = 1"

definition SYSCALL_EXIT :: usize where "SYSCALL_EXIT = 2"

definition ERR_UNKNOWN_SYSCALL :: isize where "ERR_UNKNOWN_SYSCALL = - 1"

definition ERR_INVALID_ARGUMENT :: isize where "ERR_INVALID_ARGUMENT = - 2"

lemmas syscall_consts = SYSCALL_PUTCHAR_def SYSCALL_EXIT_def ERR_UNKNOWN_SYSCALL_def ERR_INVALID_ARGUMENT_def

datatype SyscallOutcome = Sys_Return isize | Sys_Exit u8

definition dispatch :: "usize \<Rightarrow> usize \<Rightarrow> SyscallOutcome K" where
  "dispatch number arg0 =
     (if number = SYSCALL_PUTCHAR then
        (if arg0 > 0x7f then kret (Sys_Return ERR_INVALID_ARGUMENT)
         else kthen (put_byte (ucast arg0)) (kret (Sys_Return 0)))
      else if number = SYSCALL_EXIT then
        (if arg0 > 255 then kret (Sys_Return ERR_INVALID_ARGUMENT)
         else kret (Sys_Exit (ucast arg0)))
      else kret (Sys_Return ERR_UNKNOWN_SYSCALL))"

text \<open>The outcome and the output of a call, as two functions of its registers.\<close>

definition dispatch_outcome :: "usize \<Rightarrow> usize \<Rightarrow> SyscallOutcome" where
  "dispatch_outcome number arg0 =
     (if number = 1 then (if arg0 > 0x7f then Sys_Return (- 2) else Sys_Return 0)
      else if number = 2 then (if arg0 > 255 then Sys_Return (- 2) else Sys_Exit (ucast arg0))
      else Sys_Return (- 1))"

definition dispatch_output :: "usize \<Rightarrow> usize \<Rightarrow> u8 list" where
  "dispatch_output number arg0 = (if number = 1 \<and> arg0 \<le> 0x7f then [ucast arg0] else [])"

lemma dispatch_run [krun]:
  "dispatch number arg0 s =
     Ret (dispatch_outcome number arg0) (s\<lparr>uart := uart s @ dispatch_output number arg0\<rparr>)"
  by (auto simp: dispatch_def dispatch_outcome_def dispatch_output_def syscall_consts krun)

lemma dispatch_wp [wps]:
  "wp (dispatch n a) Q H s =
     Q (dispatch_outcome n a) (s\<lparr>uart := uart s @ dispatch_output n a\<rparr>)"
  "wlp (dispatch n a) Q H s =
     Q (dispatch_outcome n a) (s\<lparr>uart := uart s @ dispatch_output n a\<rparr>)"
  by (simp_all add: wp_def wlp_def krun)

text \<open>
  C26: the dispatcher is total and never panics.  A valid character is written to the
  console, as the byte with the argument's value, and answered with 0; a valid exit code
  ends the process and is kept in full; every other call has no effect and is answered with
  the error code of its kind.
\<close>

theorem dispatch_correct:
  "\<exists>out s'. dispatch number arg0 s = Ret out s' \<and>
     (if number = SYSCALL_PUTCHAR \<and> unat arg0 < 128
      then out = Sys_Return 0 \<and> s' = s\<lparr>uart := uart s @ [ucast arg0]\<rparr>
           \<and> unat (ucast arg0 :: u8) = unat arg0
      else s' = s \<and>
        (if number = SYSCALL_EXIT \<and> unat arg0 < 256
         then \<exists>code. out = Sys_Exit code \<and> unat code = unat arg0
         else out = Sys_Return (if number = SYSCALL_PUTCHAR \<or> number = SYSCALL_EXIT
                                then ERR_INVALID_ARGUMENT else ERR_UNKNOWN_SYSCALL)))"
proof -
  have code: "unat (ucast arg0 :: u8) = unat arg0" if "unat arg0 < 256"
    using that by (simp add: take_bit_eq_mod unsigned_ucast_eq)
  show ?thesis
    by (auto simp: dispatch_run dispatch_outcome_def dispatch_output_def syscall_consts
        word_less_nat_alt word_le_nat_alt not_less code)
qed

end
