(* ===== verification/Riscv.thy ===== *)
theory Riscv
  imports Machine
begin

text \<open>
  The RV64 instructions of the kernel's assembly (\<^verbatim>\<open>src/trap.S\<close>,
  \<^verbatim>\<open>src/user.S\<close>) and their effect on the machine.  Straight-line blocks are lists of
  instructions; calls, branches and \<^verbatim>\<open>sret\<close> are composed by the definitions that run the
  blocks.  Registers are numbered \<^verbatim>\<open>x0\<close> to \<^verbatim>\<open>x31\<close>; \<^verbatim>\<open>x0\<close> reads as zero.
\<close>

abbreviation (input) "r_ra \<equiv> (1 :: nat)"
abbreviation (input) "r_sp \<equiv> (2 :: nat)"
abbreviation (input) "r_gp \<equiv> (3 :: nat)"
abbreviation (input) "r_tp \<equiv> (4 :: nat)"
abbreviation (input) "r_t0 \<equiv> (5 :: nat)"
abbreviation (input) "r_t1 \<equiv> (6 :: nat)"
abbreviation (input) "r_t2 \<equiv> (7 :: nat)"
abbreviation (input) "r_s0 \<equiv> (8 :: nat)"
abbreviation (input) "r_s1 \<equiv> (9 :: nat)"
abbreviation (input) "r_a0 \<equiv> (10 :: nat)"
abbreviation (input) "r_a1 \<equiv> (11 :: nat)"
abbreviation (input) "r_a2 \<equiv> (12 :: nat)"
abbreviation (input) "r_a3 \<equiv> (13 :: nat)"
abbreviation (input) "r_a4 \<equiv> (14 :: nat)"
abbreviation (input) "r_a5 \<equiv> (15 :: nat)"
abbreviation (input) "r_a6 \<equiv> (16 :: nat)"
abbreviation (input) "r_a7 \<equiv> (17 :: nat)"
abbreviation (input) "r_s2 \<equiv> (18 :: nat)"
abbreviation (input) "r_s3 \<equiv> (19 :: nat)"
abbreviation (input) "r_s4 \<equiv> (20 :: nat)"
abbreviation (input) "r_s5 \<equiv> (21 :: nat)"
abbreviation (input) "r_s6 \<equiv> (22 :: nat)"
abbreviation (input) "r_s7 \<equiv> (23 :: nat)"
abbreviation (input) "r_s8 \<equiv> (24 :: nat)"
abbreviation (input) "r_s9 \<equiv> (25 :: nat)"
abbreviation (input) "r_s10 \<equiv> (26 :: nat)"
abbreviation (input) "r_s11 \<equiv> (27 :: nat)"
abbreviation (input) "r_t3 \<equiv> (28 :: nat)"
abbreviation (input) "r_t4 \<equiv> (29 :: nat)"
abbreviation (input) "r_t5 \<equiv> (30 :: nat)"
abbreviation (input) "r_t6 \<equiv> (31 :: nat)"

datatype instr =
    SD nat usize nat      \<comment> \<open>\<^verbatim>\<open>sd rs, off(rb)\<close>\<close>
  | LD nat usize nat      \<comment> \<open>\<^verbatim>\<open>ld rd, off(rb)\<close>\<close>
  | ADDI nat nat usize    \<comment> \<open>\<^verbatim>\<open>addi rd, rs, imm\<close>\<close>
  | MV nat nat            \<comment> \<open>\<^verbatim>\<open>mv rd, rs\<close>\<close>
  | LI nat usize          \<comment> \<open>\<^verbatim>\<open>li rd, imm\<close>\<close>
  | LA nat string         \<comment> \<open>\<^verbatim>\<open>la rd, symbol\<close>\<close>
  | CSRR nat csr          \<comment> \<open>\<^verbatim>\<open>csrr rd, csr\<close>\<close>
  | CSRW csr nat          \<comment> \<open>\<^verbatim>\<open>csrw csr, rs\<close>\<close>
  | CSRRW nat csr nat     \<comment> \<open>\<^verbatim>\<open>csrrw rd, csr, rs\<close>\<close>

definition rget :: "machine \<Rightarrow> nat \<Rightarrow> usize" where
  "rget s r = (if r = 0 then 0 else regs s r)"

definition rset :: "nat \<Rightarrow> usize \<Rightarrow> machine \<Rightarrow> machine" where
  "rset r v s = (if r = 0 then s else s\<lparr>regs := (regs s)(r := v)\<rparr>)"

fun exec1 :: "platform \<Rightarrow> instr \<Rightarrow> machine \<Rightarrow> machine" where
  "exec1 pf (SD rs off rb) s = s\<lparr>mem := store64 (mem s) (rget s rb + off) (rget s rs)\<rparr>"
| "exec1 pf (LD rd off rb) s = rset rd (load64 (mem s) (rget s rb + off)) s"
| "exec1 pf (ADDI rd rs imm) s = rset rd (rget s rs + imm) s"
| "exec1 pf (MV rd rs) s = rset rd (rget s rs) s"
| "exec1 pf (LI rd imm) s = rset rd imm s"
| "exec1 pf (LA rd name) s = rset rd (symbol pf name) s"
| "exec1 pf (CSRR rd c) s = rset rd (csrs s c) s"
| "exec1 pf (CSRW c rs) s = csr_write pf c (rget s rs) s"
| "exec1 pf (CSRRW rd c rs) s = rset rd (csrs s c) (csr_write pf c (rget s rs) s)"

fun exec :: "platform \<Rightarrow> instr list \<Rightarrow> machine \<Rightarrow> machine" where
  "exec pf [] s = s"
| "exec pf (i # is) s = exec pf is (exec1 pf i s)"

lemma exec_append: "exec pf (is1 @ is2) s = exec pf is2 (exec pf is1 s)"
  by (induction is1 arbitrary: s) auto

text \<open>The integer registers and trap CSRs as the hardware holds them.\<close>

definition context_of :: "machine \<Rightarrow> TrapFrame" where
  "context_of s =
     \<lparr>tf_x = map (rget s) [0..<32], tf_sstatus = csrs s Sstatus, tf_sepc = csrs s Sepc,
      tf_scause = csrs s Scause, tf_stval = csrs s Stval\<rparr>"

lemma context_of_uart [simp]: "context_of (s\<lparr>uart := out\<rparr>) = context_of s"
  by (simp add: context_of_def rget_def [abs_def])

text \<open>
  \<^verbatim>\<open>sret\<close> into user mode, and the next trap out of it: the user code runs from the
  current context until it traps, with the registers, CSRs and memory it then leaves.  If
  it never traps, the hart never comes back to the kernel.
\<close>

definition sret_until_trap :: "platform \<Rightarrow> unit K" where
  "sret_until_trap pf = (\<lambda>s.
     case user_code pf (user_entries s) (context_of s) (mem s) of
       None \<Rightarrow> Halted s
     | Some (f, m) \<Rightarrow> Ret () (s\<lparr>
         regs := (\<lambda>r. if r < 32 then tf_x f ! r else regs s r),
         csrs := (csrs s)(Sstatus := tf_sstatus f, Sepc := tf_sepc f,
                          Scause := tf_scause f, Stval := tf_stval f),
         mem := m, user_entries := Suc (user_entries s)\<rparr>))"

end
