(* ===== verification/Trap_Asm.thy ===== *)
theory Trap_Asm
  imports Riscv
begin

text \<open>
  The blocks of \<^verbatim>\<open>src/trap.S\<close> and \<^verbatim>\<open>src/user.S\<close>, instruction by instruction.
  Offsets are the constants \<^verbatim>\<open>src/trap.rs\<close> passes to \<^verbatim>\<open>global_asm!\<close>.
\<close>

text \<open>\<^verbatim>\<open>user_trap_entry\<close>, up to the call of the Rust handler.\<close>

definition user_trap_entry_code :: "instr list" where
  "user_trap_entry_code =
    [CSRRW r_sp Sscratch r_sp,
     ADDI r_sp r_sp (- 288),
     SD r_t0 40 r_sp, SD r_gp 24 r_sp, SD r_tp 32 r_sp,
     CSRR r_t0 Sscratch,
     SD r_t0 16 r_sp,
     LA r_t0 ''trap_entry'',
     CSRW Stvec r_t0,
     LA r_t0 ''kernel_gp_saved'',
     LD r_gp 0 r_t0,
     LA r_t0 ''kernel_tp_saved'',
     LD r_tp 0 r_t0,
     SD 0 0 r_sp, SD r_ra 8 r_sp, SD r_t1 48 r_sp, SD r_t2 56 r_sp, SD r_s0 64 r_sp, SD r_s1 72 r_sp,
     SD r_a0 80 r_sp, SD r_a1 88 r_sp, SD r_a2 96 r_sp, SD r_a3 104 r_sp, SD r_a4 112 r_sp, SD r_a5 120 r_sp,
     SD r_a6 128 r_sp, SD r_a7 136 r_sp,
     SD r_s2 144 r_sp, SD r_s3 152 r_sp, SD r_s4 160 r_sp, SD r_s5 168 r_sp, SD r_s6 176 r_sp, SD r_s7 184 r_sp,
     SD r_s8 192 r_sp, SD r_s9 200 r_sp, SD r_s10 208 r_sp, SD r_s11 216 r_sp,
     SD r_t3 224 r_sp, SD r_t4 232 r_sp, SD r_t5 240 r_sp, SD r_t6 248 r_sp,
     CSRR r_t0 Sstatus, SD r_t0 256 r_sp,
     CSRR r_t0 Sepc, SD r_t0 264 r_sp,
     CSRR r_t0 Scause, SD r_t0 272 r_sp,
     CSRR r_t0 Stval, SD r_t0 280 r_sp,
     MV r_a0 r_sp]"

text \<open>\<^verbatim>\<open>restore_user_frame\<close>, up to \<^verbatim>\<open>sret\<close>.\<close>

definition restore_user_frame_code :: "instr list" where
  "restore_user_frame_code =
    [LD r_t0 264 r_sp, CSRW Sepc r_t0,
     LD r_t0 256 r_sp, CSRW Sstatus r_t0,
     LD r_t0 16 r_sp, CSRW Sscratch r_t0,
     LD r_ra 8 r_sp, LD r_gp 24 r_sp, LD r_tp 32 r_sp, LD r_t1 48 r_sp, LD r_t2 56 r_sp, LD r_s0 64 r_sp, LD r_s1 72 r_sp,
     LD r_a0 80 r_sp, LD r_a1 88 r_sp, LD r_a2 96 r_sp, LD r_a3 104 r_sp, LD r_a4 112 r_sp, LD r_a5 120 r_sp,
     LD r_a6 128 r_sp, LD r_a7 136 r_sp,
     LD r_s2 144 r_sp, LD r_s3 152 r_sp, LD r_s4 160 r_sp, LD r_s5 168 r_sp, LD r_s6 176 r_sp, LD r_s7 184 r_sp,
     LD r_s8 192 r_sp, LD r_s9 200 r_sp, LD r_s10 208 r_sp, LD r_s11 216 r_sp,
     LD r_t3 224 r_sp, LD r_t4 232 r_sp, LD r_t5 240 r_sp, LD r_t6 248 r_sp,
     LA r_t0 ''user_trap_entry'', CSRW Stvec r_t0,
     LD r_t0 40 r_sp,
     ADDI r_sp r_sp 288,
     CSRRW r_sp Sscratch r_sp]"

text \<open>\<^verbatim>\<open>terminate_process\<close>, up to \<^verbatim>\<open>ret\<close>.\<close>

definition terminate_process_code :: "instr list" where
  "terminate_process_code =
    [CSRW Sscratch 0,
     LA r_t0 ''kernel_context'',
     LD r_ra 0 r_t0, LD r_gp 16 r_t0, LD r_tp 24 r_t0,
     LD r_s0 32 r_t0, LD r_s1 40 r_t0, LD r_s2 48 r_t0, LD r_s3 56 r_t0, LD r_s4 64 r_t0, LD r_s5 72 r_t0,
     LD r_s6 80 r_t0, LD r_s7 88 r_t0, LD r_s8 96 r_t0, LD r_s9 104 r_t0, LD r_s10 112 r_t0, LD r_s11 120 r_t0,
     LD r_t1 8 r_t0,
     MV r_sp r_t1]"

text \<open>The save sequence \<^verbatim>\<open>run_user\<close> and \<^verbatim>\<open>run_task\<close> begin with.\<close>

definition save_kernel_context_code :: "instr list" where
  "save_kernel_context_code =
    [LA r_t0 ''kernel_context'',
     SD r_ra 0 r_t0, SD r_sp 8 r_t0, SD r_gp 16 r_t0, SD r_tp 24 r_t0,
     SD r_s0 32 r_t0, SD r_s1 40 r_t0, SD r_s2 48 r_t0, SD r_s3 56 r_t0, SD r_s4 64 r_t0, SD r_s5 72 r_t0,
     SD r_s6 80 r_t0, SD r_s7 88 r_t0, SD r_s8 96 r_t0, SD r_s9 104 r_t0, SD r_s10 112 r_t0, SD r_s11 120 r_t0]"

definition save_kernel_env_code :: "instr list" where
  "save_kernel_env_code =
    [LA r_t0 ''kernel_gp_saved'', SD r_gp 0 r_t0,
     LA r_t0 ''kernel_tp_saved'', SD r_tp 0 r_t0]"

text \<open>The trusted \<^verbatim>\<open>sret\<close> state \<^verbatim>\<open>enter_user_mode\<close> and \<^verbatim>\<open>run_user\<close> build.\<close>

definition build_user_state_code :: "instr list" where
  "build_user_state_code =
    [LA r_t0 ''user_trap_entry'', CSRW Stvec r_t0,
     CSRW Sscratch r_a3, CSRW Sepc r_a1, CSRW Sstatus r_a2,
     MV r_t0 r_a0,
     MV r_ra 0, MV r_gp 0, MV r_tp 0, MV r_t1 0, MV r_t2 0, MV r_s0 0, MV r_s1 0,
     MV r_a0 0, MV r_a1 0, MV r_a2 0, MV r_a3 0, MV r_a4 0, MV r_a5 0, MV r_a6 0, MV r_a7 0,
     MV r_s2 0, MV r_s3 0, MV r_s4 0, MV r_s5 0, MV r_s6 0, MV r_s7 0, MV r_s8 0, MV r_s9 0, MV r_s10 0, MV r_s11 0,
     MV r_t3 0, MV r_t4 0, MV r_t5 0, MV r_t6 0,
     MV r_sp r_t0,
     MV r_t0 0]"

definition enter_user_mode_code :: "instr list" where
  "enter_user_mode_code = save_kernel_env_code @ build_user_state_code"

definition run_user_code :: "instr list" where
  "run_user_code = save_kernel_context_code @ save_kernel_env_code @ build_user_state_code"

definition run_task_code :: "instr list" where
  "run_task_code = save_kernel_context_code @ save_kernel_env_code @ [MV r_sp r_a0]"

text \<open>\<^verbatim>\<open>trap_entry\<close>, the kernel's own fault path, up to the call of its Rust handler.\<close>

definition trap_entry_code :: "instr list" where
  "trap_entry_code =
    [ADDI r_sp r_sp (- 288),
     SD r_t0 40 r_sp,
     ADDI r_t0 r_sp 288,
     SD r_t0 16 r_sp,
     SD 0 0 r_sp, SD r_ra 8 r_sp, SD r_gp 24 r_sp, SD r_tp 32 r_sp, SD r_t1 48 r_sp, SD r_t2 56 r_sp,
     SD r_s0 64 r_sp, SD r_s1 72 r_sp,
     SD r_a0 80 r_sp, SD r_a1 88 r_sp, SD r_a2 96 r_sp, SD r_a3 104 r_sp, SD r_a4 112 r_sp, SD r_a5 120 r_sp,
     SD r_a6 128 r_sp, SD r_a7 136 r_sp,
     SD r_s2 144 r_sp, SD r_s3 152 r_sp, SD r_s4 160 r_sp, SD r_s5 168 r_sp, SD r_s6 176 r_sp, SD r_s7 184 r_sp,
     SD r_s8 192 r_sp, SD r_s9 200 r_sp, SD r_s10 208 r_sp, SD r_s11 216 r_sp,
     SD r_t3 224 r_sp, SD r_t4 232 r_sp, SD r_t5 240 r_sp, SD r_t6 248 r_sp,
     CSRR r_t0 Sstatus, SD r_t0 256 r_sp,
     CSRR r_t0 Sepc, SD r_t0 264 r_sp,
     CSRR r_t0 Scause, SD r_t0 272 r_sp,
     CSRR r_t0 Stval, SD r_t0 280 r_sp,
     MV r_a0 r_sp]"

section \<open>Running user code under a trap handler\<close>

text \<open>
  From an \<^verbatim>\<open>sret\<close> to the return of \<^verbatim>\<open>run_user\<close>: user code traps, the entry block
  saves its context, the Rust handler \<open>h\<close> is called with the frame's address in \<^verbatim>\<open>a0\<close>,
  and its result selects \<^verbatim>\<open>terminate_process\<close> (1) or \<^verbatim>\<open>restore_user_frame\<close>.  The
  bound counts traps.
\<close>

fun user_loop :: "nat \<Rightarrow> platform \<Rightarrow> (usize \<Rightarrow> usize K) \<Rightarrow> usize K" where
  "user_loop 0 pf h = kstarve"
| "user_loop (Suc n) pf h =
     kthen (sret_until_trap pf) (
     kthen (kmodify (exec pf user_trap_entry_code)) (
     kbind (kgets (\<lambda>s. regs s r_a0)) (\<lambda>frame.
     kbind (h frame) (\<lambda>action.
     if action = 1 then kthen (kmodify (exec pf terminate_process_code)) (kret action)
     else kthen (kmodify (exec pf restore_user_frame_code)) (user_loop n pf h)))))"

definition pass_arguments :: "usize list \<Rightarrow> machine \<Rightarrow> machine" where
  "pass_arguments args s =
     s\<lparr>regs := (\<lambda>r. if 10 \<le> r \<and> r < 10 + length args then args ! (r - 10) else regs s r)\<rparr>"

definition run_user ::
  "nat \<Rightarrow> platform \<Rightarrow> (usize \<Rightarrow> usize K) \<Rightarrow> usize \<Rightarrow> usize \<Rightarrow> usize \<Rightarrow> usize \<Rightarrow> usize K" where
  "run_user fuel pf h user_sp entry sstatus trap_stack_top =
     kthen (kmodify (pass_arguments [user_sp, entry, sstatus, trap_stack_top])) (
     kthen (kmodify (exec pf run_user_code))
     (user_loop fuel pf h))"

text \<open>
  \<^verbatim>\<open>enter_user_mode\<close> saves no kernel context: its handlers never terminate the process,
  they resume it or stop the hart.
\<close>

definition enter_user_mode ::
  "nat \<Rightarrow> platform \<Rightarrow> (usize \<Rightarrow> usize K) \<Rightarrow> usize \<Rightarrow> usize \<Rightarrow> usize \<Rightarrow> usize \<Rightarrow> usize K" where
  "enter_user_mode fuel pf h user_sp entry sstatus trap_stack_top =
     kthen (kmodify (pass_arguments [user_sp, entry, sstatus, trap_stack_top])) (
     kthen (kmodify (exec pf enter_user_mode_code))
     (user_loop fuel pf h))"

definition run_task :: "nat \<Rightarrow> platform \<Rightarrow> (usize \<Rightarrow> usize K) \<Rightarrow> usize \<Rightarrow> usize K" where
  "run_task fuel pf h frame =
     kthen (kmodify (pass_arguments [frame])) (
     kthen (kmodify (exec pf run_task_code)) (
     kthen (kmodify (exec pf restore_user_frame_code))
     (user_loop fuel pf h)))"

section \<open>What the blocks do\<close>

lemmas exec_simps = rset_def rget_def csr_write_def

text \<open>Addresses aligned like a doubleword and outside a block of \<open>n\<close> doublewords at \<open>p\<close>.\<close>

definition outside :: "usize \<Rightarrow> nat \<Rightarrow> usize \<Rightarrow> bool" where
  "outside p n a \<longleftrightarrow> aligned8 a \<and> (\<forall>i < n. a \<noteq> p + 8 * of_nat i)"

definition slots36 :: "usize list" where
  "slots36 = [0, 8, 16, 24, 32, 40, 48, 56, 64, 72, 80, 88, 96, 104, 112, 120, 128, 136, 144, 152,
     160, 168, 176, 184, 192, 200, 208, 216, 224, 232, 240, 248, 256, 264, 272, 280]"

definition slots16 :: "usize list" where
  "slots16 = [0, 8, 16, 24, 32, 40, 48, 56, 64, 72, 80, 88, 96, 104, 112, 120]"

lemma load_words_36: "load_words m p 36 = map (\<lambda>off. load64 m (p + off)) slots36"
  by (simp add: slots36_def numeral_eq_Suc add.assoc)

lemma load_words_16: "load_words m p 16 = map (\<lambda>off. load64 m (p + off)) slots16"
  by (simp add: slots16_def numeral_eq_Suc add.assoc)

lemma registers_32: "[0..<32] = [0, 1, 2, 3, 4, 5, 6, 7, 8, 9, 10, 11, 12, 13, 14, 15, 16, 17, 18,
    19, 20, 21, 22, 23, 24, 25, 26, 27, 28, 29, 30, 31]"
  by (simp add: upt_rec)

lemma slots36_upt: "slots36 = map (\<lambda>i. 8 * of_nat i) [0..<36]"
  by (simp add: slots36_def upt_rec)

lemma slots16_upt: "slots16 = map (\<lambda>i. 8 * of_nat i) [0..<16]"
  by (simp add: slots16_def upt_rec)

lemma outside_36: "outside p 36 a \<longleftrightarrow> aligned8 a \<and> list_all (\<lambda>off. a \<noteq> p + off) slots36"
  by (auto simp: outside_def slots36_upt list_all_iff simp del: upt_Suc)

lemma outside_16: "outside p 16 a \<longleftrightarrow> aligned8 a \<and> list_all (\<lambda>off. a \<noteq> p + off) slots16"
  by (auto simp: outside_def slots16_upt list_all_iff simp del: upt_Suc)

lemma user_trap_entry_frame:
  assumes "aligned8 p" and "csrs s Sscratch = p + 288"
  shows "load_frame (mem (exec pf user_trap_entry_code s)) p = context_of s"
  using assms
  by (simp add: user_trap_entry_code_def exec_simps load_frame_def load_words_36 slots36_def
      words_frame_def context_of_def registers_32 load64_store64 aligned8_add_iff)

lemma user_trap_entry_memory:
  assumes "aligned8 p" and "csrs s Sscratch = p + 288" and "outside p 36 a"
  shows "load64 (mem (exec pf user_trap_entry_code s)) a = load64 (mem s) a"
  using assms
  by (simp add: user_trap_entry_code_def exec_simps outside_36 slots36_def load64_store64 aligned8_add_iff)

lemma user_trap_entry_state:
  assumes "aligned8 p" and "csrs s Sscratch = p + 288"
    and "outside p 36 (symbol pf ''kernel_gp_saved'')" and "outside p 36 (symbol pf ''kernel_tp_saved'')"
  shows "exec pf user_trap_entry_code s = s\<lparr>
     regs := (regs s)(r_sp := p, r_a0 := p, r_t0 := csrs s Stval,
       r_gp := load64 (mem s) (symbol pf ''kernel_gp_saved''),
       r_tp := load64 (mem s) (symbol pf ''kernel_tp_saved'')),
     csrs := (csrs s)(Sscratch := regs s r_sp, Stvec := stvec_keeps pf (symbol pf ''trap_entry'')),
     mem := mem (exec pf user_trap_entry_code s)\<rparr>"
  using assms
  by (simp add: user_trap_entry_code_def exec_simps outside_36 slots36_def load64_store64
      aligned8_add_iff fun_upd_twist)

lemma restore_user_frame_context:
  assumes "csrs s Scause = cause" and "csrs s Stval = tval"
  shows "context_of (exec pf restore_user_frame_code s)
    = (load_frame (mem s) (regs s r_sp))\<lparr>tf_x := (tf_x (load_frame (mem s) (regs s r_sp)))[0 := 0],
        tf_scause := cause, tf_stval := tval\<rparr>"
  using assms
  by (simp add: restore_user_frame_code_def exec_simps load_frame_def load_words_36 slots36_def
      words_frame_def context_of_def registers_32)

lemma restore_user_frame_state:
  "exec pf restore_user_frame_code s = s\<lparr>
     regs := regs (exec pf restore_user_frame_code s),
     csrs := (csrs s)(Sepc := load64 (mem s) (regs s r_sp + 264),
       Sstatus := load64 (mem s) (regs s r_sp + 256),
       Sscratch := regs s r_sp + 288,
       Stvec := stvec_keeps pf (symbol pf ''user_trap_entry''))\<rparr>"
  by (simp add: restore_user_frame_code_def exec_simps fun_upd_twist)

text \<open>The kernel registers a C-ABI callee must preserve, in the order of \<^verbatim>\<open>KernelContext\<close>.\<close>

definition kernel_regs :: "nat list" where
  "kernel_regs = [r_ra, r_sp, r_gp, r_tp, r_s0, r_s1, r_s2, r_s3, r_s4, r_s5, r_s6, r_s7, r_s8,
     r_s9, r_s10, r_s11]"

definition callee_saved :: "machine \<Rightarrow> usize list" where
  "callee_saved s = map (regs s) kernel_regs"

definition saved_context :: "platform \<Rightarrow> memory \<Rightarrow> usize list" where
  "saved_context pf m = load_words m (symbol pf ''kernel_context'') 16"

lemma terminate_process_regs:
  "callee_saved (exec pf terminate_process_code s) = saved_context pf (mem s)"
  by (simp add: terminate_process_code_def exec_simps callee_saved_def saved_context_def
      kernel_regs_def load_words_16 slots16_def)

lemma terminate_process_state:
  "exec pf terminate_process_code s = s\<lparr>
     regs := regs (exec pf terminate_process_code s), csrs := (csrs s)(Sscratch := 0)\<rparr>"
  by (simp add: terminate_process_code_def exec_simps)

text \<open>The two trusted save areas do not overlap.\<close>

definition kernel_areas_ok :: "platform \<Rightarrow> bool" where
  "kernel_areas_ok pf \<longleftrightarrow>
     aligned8 (symbol pf ''kernel_context'')
     \<and> outside (symbol pf ''kernel_context'') 16 (symbol pf ''kernel_gp_saved'')
     \<and> outside (symbol pf ''kernel_context'') 16 (symbol pf ''kernel_tp_saved'')
     \<and> symbol pf ''kernel_gp_saved'' \<noteq> symbol pf ''kernel_tp_saved''"

lemma outside_slot:
  "outside p 16 a \<Longrightarrow> off \<in> set slots16 \<Longrightarrow> p + off \<noteq> a \<and> a \<noteq> p + off \<and> aligned8 a"
  by (auto simp: outside_16 list_all_iff)

lemma run_user_saves_context:
  assumes "kernel_areas_ok pf"
  shows "saved_context pf (mem (exec pf run_user_code s)) = callee_saved s"
proof -
  let ?k = "symbol pf ''kernel_context''"
  have ne: "list_all (\<lambda>off. ?k + off \<noteq> symbol pf ''kernel_gp_saved''
      \<and> ?k + off \<noteq> symbol pf ''kernel_tp_saved'') slots16"
    and al: "aligned8 ?k" "aligned8 (symbol pf ''kernel_gp_saved'')" "aligned8 (symbol pf ''kernel_tp_saved'')"
    using assms by (auto simp: kernel_areas_ok_def outside_16 list_all_iff)
  show ?thesis
    using ne al
    by (simp add: run_user_code_def save_kernel_context_code_def save_kernel_env_code_def
        build_user_state_code_def exec_simps saved_context_def callee_saved_def kernel_regs_def
        load_words_16 slots16_def load64_store64 aligned8_add_iff)
qed

lemma run_task_saves_context:
  assumes "kernel_areas_ok pf"
  shows "saved_context pf (mem (exec pf run_task_code s)) = callee_saved s"
proof -
  let ?k = "symbol pf ''kernel_context''"
  have ne: "list_all (\<lambda>off. ?k + off \<noteq> symbol pf ''kernel_gp_saved''
      \<and> ?k + off \<noteq> symbol pf ''kernel_tp_saved'') slots16"
    and al: "aligned8 ?k" "aligned8 (symbol pf ''kernel_gp_saved'')" "aligned8 (symbol pf ''kernel_tp_saved'')"
    using assms by (auto simp: kernel_areas_ok_def outside_16 list_all_iff)
  show ?thesis
    using ne al
    by (simp add: run_task_code_def save_kernel_context_code_def save_kernel_env_code_def
        exec_simps saved_context_def callee_saved_def kernel_regs_def
        load_words_16 slots16_def load64_store64 aligned8_add_iff)
qed

lemma run_task_state:
  "regs (exec pf run_task_code s) r_sp = regs s r_a0" "csrs (exec pf run_task_code s) = csrs s"
  by (simp_all add: run_task_code_def save_kernel_context_code_def save_kernel_env_code_def exec_simps)

text \<open>The user state \<^verbatim>\<open>run_user\<close> and \<^verbatim>\<open>enter_user_mode\<close> start from.\<close>

lemma build_user_state_context:
  "context_of (exec pf build_user_state_code s) =
     \<lparr>tf_x = (replicate 32 0)[2 := regs s r_a0], tf_sstatus = regs s r_a2, tf_sepc = regs s r_a1,
      tf_scause = csrs s Scause, tf_stval = csrs s Stval\<rparr>"
  by (simp add: build_user_state_code_def exec_simps context_of_def registers_32 numeral_eq_Suc)

lemma save_code_regs:
  "regs (exec pf (save_kernel_context_code @ save_kernel_env_code) s)
     = (regs s)(r_t0 := symbol pf ''kernel_tp_saved'')"
  "csrs (exec pf (save_kernel_context_code @ save_kernel_env_code) s) = csrs s"
  by (simp_all add: save_kernel_context_code_def save_kernel_env_code_def exec_simps)

lemma run_user_context:
  "context_of (exec pf run_user_code s) =
     \<lparr>tf_x = (replicate 32 0)[2 := regs s r_a0], tf_sstatus = regs s r_a2, tf_sepc = regs s r_a1,
      tf_scause = csrs s Scause, tf_stval = csrs s Stval\<rparr>"
  by (simp add: run_user_code_def exec_append build_user_state_context save_code_regs [unfolded exec_append])

lemma run_user_csrs:
  "csrs (exec pf run_user_code s) = (csrs s)(Stvec := stvec_keeps pf (symbol pf ''user_trap_entry''),
     Sscratch := regs s r_a3, Sepc := regs s r_a1, Sstatus := regs s r_a2)"
proof -
  have "csrs (exec pf build_user_state_code t) =
      (csrs t)(Stvec := stvec_keeps pf (symbol pf ''user_trap_entry''),
     Sscratch := regs t r_a3, Sepc := regs t r_a1, Sstatus := regs t r_a2)" for t
    by (simp add: build_user_state_code_def exec_simps)
  then show ?thesis
    by (simp add: run_user_code_def exec_append save_code_regs [unfolded exec_append])
qed

end
