(* ===== verification/User_Handler.thy ===== *)
theory User_Handler
  imports Trap_Asm
begin

text \<open>
  The interface between the assembly trap path and the Rust user-trap handlers: what a
  handler must keep for \<open>run_user\<close> and \<open>run_task\<close> to return to their Rust caller as
  ordinary C functions do.
\<close>

text \<open>A frame slot that shares no doubleword with the trusted kernel save areas.\<close>

definition frame_slot_ok :: "platform \<Rightarrow> usize \<Rightarrow> bool" where
  "frame_slot_ok pf p \<longleftrightarrow>
     aligned8 p
     \<and> list_all (\<lambda>off. outside p 36 (symbol pf ''kernel_context'' + off)) slots16
     \<and> outside p 36 (symbol pf ''kernel_gp_saved'')
     \<and> outside p 36 (symbol pf ''kernel_tp_saved'')"

text \<open>
  User programs leave the saved kernel context alone.  Nothing in the hardware set-up of
  these lessons enforces it (there is no paging yet), so it is a hypothesis on the programs.
\<close>

definition user_keeps_context :: "platform \<Rightarrow> bool" where
  "user_keeps_context pf \<longleftrightarrow>
     (\<forall>n f m f' m'. user_code pf n f m = Some (f', m') \<longrightarrow> saved_context pf m' = saved_context pf m)"

lemma saved_context_eqI:
  "(\<And>off. off \<in> set slots16 \<Longrightarrow>
     load64 m' (symbol pf ''kernel_context'' + off) = load64 m (symbol pf ''kernel_context'' + off)) \<Longrightarrow>
   saved_context pf m' = saved_context pf m"
  by (simp add: saved_context_def load_words_16)

lemma load64_store_frame_other:
  assumes "aligned8 p" and "length (tf_x f) = 32" and "outside p 36 a"
  shows "load64 (store_frame m p f) a = load64 m a"
proof -
  have "length (frame_words f) = 36" using assms(2) by (simp add: frame_words_def)
  with assms show ?thesis
    unfolding store_frame_def outside_def by (intro load64_store_words_other) simp_all
qed

lemma saved_context_store_frame:
  "frame_slot_ok pf p \<Longrightarrow> length (tf_x f) = 32 \<Longrightarrow>
   saved_context pf (store_frame m p f) = saved_context pf m"
  by (rule saved_context_eqI)
    (auto simp: frame_slot_ok_def list_all_iff intro!: load64_store_frame_other)

lemma saved_context_trap_entry:
  "frame_slot_ok pf p \<Longrightarrow> csrs s Sscratch = p + 288 \<Longrightarrow>
   saved_context pf (mem (exec pf user_trap_entry_code s)) = saved_context pf (mem s)"
  by (rule saved_context_eqI)
    (auto simp: frame_slot_ok_def list_all_iff intro!: user_trap_entry_memory)

lemma trap_entry_csrs_regs:
  "frame_slot_ok pf p \<Longrightarrow> csrs s Sscratch = p + 288 \<Longrightarrow>
   regs (exec pf user_trap_entry_code s) r_a0 = p \<and> regs (exec pf user_trap_entry_code s) r_sp = p"
  by (subst (1 2) user_trap_entry_state) (auto simp: frame_slot_ok_def)

section \<open>Handlers\<close>

locale user_handler =
  fixes pf :: platform
    and handler :: "usize \<Rightarrow> usize K"
  assumes keeps_registers: "handler addr s = Ret act s' \<Longrightarrow> regs s' = regs s"
    and writes_frame_only: "handler addr s = Ret act s' \<Longrightarrow>
      \<exists>f. length (tf_x f) = 32 \<and> mem s' = store_frame (mem s) addr f"
begin

lemma keeps_saved_context:
  "frame_slot_ok pf p \<Longrightarrow> handler p s = Ret act s' \<Longrightarrow>
   saved_context pf (mem s') = saved_context pf (mem s)"
  using writes_frame_only saved_context_store_frame by metis

text \<open>
  However often the user traps and is resumed, when the loop returns the callee-saved
  registers hold what \<open>kernel_context\<close> held at its start.
\<close>

lemma user_loop_restores:
  assumes "user_loop n pf handler s = Ret act s'" and "csrs s Sscratch = p + 288"
    and "frame_slot_ok pf p" and "user_keeps_context pf"
  shows "act = 1 \<and> callee_saved s' = saved_context pf (mem s) \<and> csrs s' Sscratch = 0"
  using assms
proof (induction n arbitrary: s)
  case 0
  then show ?case by (simp add: krun)
next
  case (Suc n)
  obtain f m where uc: "user_code pf (user_entries s) (context_of s) (mem s) = Some (f, m)"
    using Suc.prems(1) by (auto simp: krun sret_until_trap_def split: option.splits)
  define su where "su = s\<lparr>
         regs := (\<lambda>r. if r < 32 then tf_x f ! r else regs s r),
         csrs := (csrs s)(Sstatus := tf_sstatus f, Sepc := tf_sepc f,
                          Scause := tf_scause f, Stval := tf_stval f),
         mem := m, user_entries := Suc (user_entries s)\<rparr>"
  define st where "st = exec pf user_trap_entry_code su"
  have sc: "csrs su Sscratch = p + 288" using Suc.prems(2) by (simp add: su_def)
  have addr: "regs st r_a0 = p" "regs st r_sp = p"
    using trap_entry_csrs_regs [OF Suc.prems(3) sc] by (simp_all add: st_def)
  have ctx: "saved_context pf (mem st) = saved_context pf (mem s)"
    using saved_context_trap_entry [OF Suc.prems(3) sc] Suc.prems(4) uc
    by (simp add: st_def su_def user_keeps_context_def)
  obtain a t where h: "handler p st = Ret a t"
    using Suc.prems(1) uc addr
    by (auto simp: krun sret_until_trap_def su_def [symmetric] st_def [symmetric] split: outcome.splits)
  have t: "saved_context pf (mem t) = saved_context pf (mem s)" "regs t r_sp = p"
    using keeps_saved_context [OF Suc.prems(3) h] keeps_registers [OF h] ctx addr by simp_all
  show ?case
  proof (cases "a = 1")
    case True
    then have "act = 1" "s' = exec pf terminate_process_code t"
      using Suc.prems(1) uc addr h
      by (auto simp: krun sret_until_trap_def su_def [symmetric] st_def [symmetric])
    then show ?thesis
      using t by (simp add: terminate_process_regs) (subst terminate_process_state, simp)
  next
    case False
    then have loop: "user_loop n pf handler (exec pf restore_user_frame_code t) = Ret act s'"
      using Suc.prems(1) uc addr h
      by (auto simp: krun sret_until_trap_def su_def [symmetric] st_def [symmetric])
    have "csrs (exec pf restore_user_frame_code t) Sscratch = p + 288"
      "mem (exec pf restore_user_frame_code t) = mem t"
      using t by (subst restore_user_frame_state, simp)+
    with Suc.IH [OF loop] Suc.prems(3,4) t show ?thesis by simp
  qed
qed

text \<open>\<open>run_user\<close> returns like an ordinary call: every callee-saved register is intact.\<close>

lemma run_user_abi:
  assumes "run_user n pf handler usp entry sst (p + 288) s = Ret act s'"
    and "kernel_areas_ok pf" and "frame_slot_ok pf p" and "user_keeps_context pf"
  shows "act = 1 \<and> callee_saved s' = callee_saved s"
proof -
  let ?s = "exec pf run_user_code (pass_arguments [usp, entry, sst, p + 288] s)"
  have "user_loop n pf handler ?s = Ret act s'"
    using assms(1) by (simp add: run_user_def krun)
  moreover have "csrs ?s Sscratch = p + 288"
    by (simp add: run_user_csrs pass_arguments_def)
  ultimately have "act = 1 \<and> callee_saved s' = saved_context pf (mem ?s)"
    using user_loop_restores assms(3,4) by blast
  moreover have "callee_saved (pass_arguments [usp, entry, sst, p + 288] s) = callee_saved s"
    by (simp add: callee_saved_def kernel_regs_def pass_arguments_def)
  ultimately show ?thesis by (simp add: run_user_saves_context [OF assms(2)])
qed

lemma run_task_abi:
  assumes "run_task n pf handler p s = Ret act s'"
    and "kernel_areas_ok pf" and "frame_slot_ok pf p" and "user_keeps_context pf"
  shows "act = 1 \<and> callee_saved s' = callee_saved s"
proof -
  let ?t = "exec pf run_task_code (pass_arguments [p] s)"
  let ?s = "exec pf restore_user_frame_code ?t"
  have "user_loop n pf handler ?s = Ret act s'"
    using assms(1) by (simp add: run_task_def krun)
  moreover have "regs ?t r_sp = p" by (simp add: run_task_state pass_arguments_def)
  then have "csrs ?s Sscratch = p + 288" "mem ?s = mem ?t"
    by (subst restore_user_frame_state, simp)+
  ultimately have "act = 1 \<and> callee_saved s' = saved_context pf (mem ?t)"
    using user_loop_restores assms(3,4) by metis
  moreover have "callee_saved (pass_arguments [p] s) = callee_saved s"
    by (simp add: callee_saved_def kernel_regs_def pass_arguments_def)
  ultimately show ?thesis by (simp add: run_task_saves_context [OF assms(2)])
qed

end

end
