(* ===== verification/Trap.thy ===== *)
theory Trap
  imports Console Trap_Asm Process
begin

unbundle bit_operations_syntax

text \<open>
  \<^verbatim>\<open>src/trap.rs\<close>: the layout constants shared with the assembly, the installation of
  the kernel trap vector, and the report the kernel's own faults end in.
\<close>

section \<open>Layout constants\<close>

definition SLOT_SIZE :: nat where "SLOT_SIZE = 8"

definition TRAP_FRAME_SIZE :: nat where "TRAP_FRAME_SIZE = 36 * SLOT_SIZE"

text \<open>\<^verbatim>\<open>X0\<close> to \<^verbatim>\<open>X31\<close>.\<close>

definition X_slot :: "nat \<Rightarrow> nat" where "X_slot r = r * SLOT_SIZE"

definition SSTATUS :: nat where "SSTATUS = 32 * SLOT_SIZE"
definition SEPC :: nat where "SEPC = 33 * SLOT_SIZE"
definition SCAUSE :: nat where "SCAUSE = 34 * SLOT_SIZE"
definition STVAL :: nat where "STVAL = 35 * SLOT_SIZE"

text \<open>
  \<^verbatim>\<open>repr(C)\<close> structs whose members are all multiples of eight bytes: a member's offset is
  the sum of the sizes before it.
\<close>

fun offset_of :: "(string \<times> nat) list \<Rightarrow> string \<Rightarrow> nat" where
  "offset_of [] g = 0"
| "offset_of ((f, n) # fs) g = (if f = g then 0 else n + offset_of fs g)"

definition size_of :: "(string \<times> nat) list \<Rightarrow> nat" where
  "size_of fs = sum_list (map snd fs)"

definition TrapFrame_fields :: "(string \<times> nat) list" where
  "TrapFrame_fields =
     [(''x'', 32 * 8), (''sstatus'', 8), (''sepc'', 8), (''scause'', 8), (''stval'', 8)]"

record KernelContext =
  kc_ra :: usize
  kc_sp :: usize
  kc_gp :: usize
  kc_tp :: usize
  kc_s :: "usize list"

definition KernelContext_fields :: "(string \<times> nat) list" where
  "KernelContext_fields = [(''ra'', 8), (''sp'', 8), (''gp'', 8), (''tp'', 8), (''s'', 12 * 8)]"

definition KERNEL_CONTEXT_SIZE :: nat where "KERNEL_CONTEXT_SIZE = size_of KernelContext_fields"
definition KCTX_RA :: nat where "KCTX_RA = offset_of KernelContext_fields ''ra''"
definition KCTX_SP :: nat where "KCTX_SP = offset_of KernelContext_fields ''sp''"
definition KCTX_GP :: nat where "KCTX_GP = offset_of KernelContext_fields ''gp''"
definition KCTX_TP :: nat where "KCTX_TP = offset_of KernelContext_fields ''tp''"

text \<open>\<^verbatim>\<open>KCTX_S0\<close> to \<^verbatim>\<open>KCTX_S11\<close>.\<close>

definition KCTX_S :: "nat \<Rightarrow> nat" where
  "KCTX_S i = offset_of KernelContext_fields ''s'' + i * SLOT_SIZE"

text \<open>The compile-time assertions \<^verbatim>\<open>const _: [(); A] = [(); B]\<close>.\<close>

definition layout_assertions :: bool where
  "layout_assertions \<longleftrightarrow>
     TRAP_FRAME_SIZE = size_of TrapFrame_fields
     \<and> 0 = offset_of TrapFrame_fields ''x''
     \<and> 32 * SLOT_SIZE = 32 * 8
     \<and> SSTATUS = offset_of TrapFrame_fields ''sstatus''
     \<and> SEPC = offset_of TrapFrame_fields ''sepc''
     \<and> SCAUSE = offset_of TrapFrame_fields ''scause''
     \<and> STVAL = offset_of TrapFrame_fields ''stval''
     \<and> 128 = KERNEL_CONTEXT_SIZE
     \<and> 0 = KCTX_RA \<and> 8 = KCTX_SP \<and> 16 = KCTX_GP \<and> 24 = KCTX_TP
     \<and> 32 = KCTX_S 0 \<and> 120 = KCTX_S 11"

definition kctx_offsets :: "nat list" where
  "kctx_offsets = [KCTX_RA, KCTX_SP, KCTX_GP, KCTX_TP] @ map KCTX_S [0..<12]"

lemmas layout_consts = SLOT_SIZE_def TRAP_FRAME_SIZE_def X_slot_def SSTATUS_def SEPC_def SCAUSE_def
  STVAL_def size_of_def TrapFrame_fields_def KernelContext_fields_def KERNEL_CONTEXT_SIZE_def
  KCTX_RA_def KCTX_SP_def KCTX_GP_def KCTX_TP_def KCTX_S_def kctx_offsets_def


section \<open>The kernel trap vector\<close>

definition trap_entry_address :: "platform \<Rightarrow> usize" where
  "trap_entry_address pf = symbol pf ''trap_entry''"

definition trigger_address :: "platform \<Rightarrow> usize" where
  "trigger_address pf = symbol pf ''trap_trigger_label''"

definition trap_init :: "platform \<Rightarrow> unit K" where
  "trap_init pf =
     (let entry = trap_entry_address pf in
      kthen (panic_if (entry AND 3 \<noteq> 0) (''trap_entry is not 4-byte aligned: '' @ fmt_hex entry)) (
      kthen (csrw pf Sie 0) (
      kthen (csr_clear_bits pf Sstatus 2) (
      kthen (csrw pf Stvec entry) (
      kbind (csrr Stvec) (\<lambda>actual.
      kthen (panic_if (actual \<noteq> entry)
        (''stvec readback mismatch: expected='' @ fmt_hex entry @ '' actual='' @ fmt_hex actual))
      (println ''trap ready'')))))))"

text \<open>
  C37: installing the trap vector succeeds exactly when the entry is 4-byte aligned and the
  hardware keeps it; afterwards the vector holds the entry, all supervisor interrupts are
  disabled at their source and globally, and nothing but CSRs and console changed.
\<close>

theorem trap_init_installs:
  "(if symbol pf ''trap_entry'' AND 3 = 0 \<and> stvec_keeps pf (symbol pf ''trap_entry'') = symbol pf ''trap_entry''
    then \<exists>c. trap_init pf s = Ret () (s\<lparr>csrs := c, uart := uart s @ as_bytes ''trap ready'' @ [10]\<rparr>)
           \<and> c Stvec = symbol pf ''trap_entry'' \<and> c Sie = 0 \<and> c Sstatus AND 2 = 0
    else \<exists>e s'. trap_init pf s = Panicked e s')"
proof -
  have off: "(x AND - 3) AND 2 = (0 :: usize)" for x
    by (simp add: and.assoc)
  show ?thesis
    by (auto simp: trap_init_def Let_def trap_entry_address_def csrw_def csrr_def csr_clear_bits_def
        csr_write_def krun off simp del: append_Cons)
qed

section \<open>Kernel faults\<close>

definition interrupt_bit :: usize where
  "interrupt_bit = push_bit 63 1"

definition rust_trap_handler :: "platform \<Rightarrow> usize \<Rightarrow> unit K" where
  "rust_trap_handler pf addr =
     kbind (kgets (\<lambda>s. load_frame (mem s) addr)) (\<lambda>frame.
     let is_interrupt = (tf_scause frame AND interrupt_bit \<noteq> 0);
         cause_code = tf_scause frame AND NOT interrupt_bit;
         expected_trigger = trigger_address pf in
     kthen (kseq
       [println ''[trap]'',
        println (''scause='' @ fmt_hex (tf_scause frame)),
        println (''sepc='' @ fmt_hex (tf_sepc frame)),
        println (''stval='' @ fmt_hex (tf_stval frame)),
        println (''sstatus='' @ fmt_hex (tf_sstatus frame)),
        println (''original_sp='' @ fmt_hex (tf_x frame ! 2)),
        println (''interrupt='' @ fmt_bool is_interrupt),
        println (''cause_code='' @ fmt_dec cause_code),
        println (''trigger='' @ fmt_hex expected_trigger),
        println (''trigger_match='' @ fmt_bool (tf_sepc frame = expected_trigger))])
     khalt)"

text \<open>
  A trap taken in S-mode with the kernel vector installed: the hardware records the cause,
  sets \<^verbatim>\<open>SPP\<close>, moves \<^verbatim>\<open>SIE\<close> to \<^verbatim>\<open>SPIE\<close> and clears it, and jumps to
  \<^verbatim>\<open>trap_entry\<close>.
\<close>

definition trap_sstatus :: "usize \<Rightarrow> usize" where
  "trap_sstatus v =
     (v AND NOT (2 OR 32 OR 256)) OR 256 OR (if v AND 2 \<noteq> 0 then 32 else 0)"

definition kernel_trap :: "platform \<Rightarrow> usize \<Rightarrow> usize \<Rightarrow> usize \<Rightarrow> unit K" where
  "kernel_trap pf cause epc tval =
     kthen (kmodify (\<lambda>s. s\<lparr>csrs := (csrs s)(Scause := cause, Sepc := epc, Stval := tval,
       Sstatus := trap_sstatus (csrs s Sstatus))\<rparr>)) (
     kthen (kmodify (exec pf trap_entry_code)) (
     kbind (kgets (\<lambda>s. regs s r_a0)) (rust_trap_handler pf)))"

text \<open>\<^verbatim>\<open>trigger_illegal_instruction\<close>: the word 0 at \<^verbatim>\<open>trap_trigger_label\<close>.\<close>

definition trigger_illegal_instruction :: "platform \<Rightarrow> unit K" where
  "trigger_illegal_instruction pf = kernel_trap pf 2 (trigger_address pf) 0"

definition trigger_lesson05 :: "platform \<Rightarrow> unit K" where
  "trigger_lesson05 pf =
     kthen (println (''trigger at '' @ fmt_hex (trigger_address pf))) (
     kthen (trigger_illegal_instruction pf)
     (kpanic ''lesson 05 illegal-instruction trigger unexpectedly returned''))"

lemma trap_entry_frame:
  assumes "aligned8 (regs s 2)"
  shows "load_frame (mem (exec pf trap_entry_code s)) (regs s 2 - 288) = context_of s"
proof -
  define p where "p = regs s 2 - 288"
  have p: "regs s 2 = p + 288" by (simp add: p_def)
  have "aligned8 p" using assms aligned8_diff [of "regs s 2" 288] by (simp add: p_def)
  then show ?thesis
    using p unfolding p_def [symmetric]
    by (simp add: trap_entry_code_def exec_simps load_frame_def load_words_36 slots36_def
      words_frame_def context_of_def registers_32 load64_store64 aligned8_add_iff)
qed

lemma trap_entry_state:
  "regs (exec pf trap_entry_code s) 10 = regs s 2 - 288" "uart (exec pf trap_entry_code s) = uart s"
  by (simp_all add: trap_entry_code_def exec_simps)

definition trap_report :: "platform \<Rightarrow> TrapFrame \<Rightarrow> string list" where
  "trap_report pf f =
     [''[trap]'',
      ''scause='' @ fmt_hex (tf_scause f),
      ''sepc='' @ fmt_hex (tf_sepc f),
      ''stval='' @ fmt_hex (tf_stval f),
      ''sstatus='' @ fmt_hex (tf_sstatus f),
      ''original_sp='' @ fmt_hex (tf_x f ! 2),
      ''interrupt='' @ fmt_bool (tf_scause f AND interrupt_bit \<noteq> 0),
      ''cause_code='' @ fmt_dec (tf_scause f AND NOT interrupt_bit),
      ''trigger='' @ fmt_hex (trigger_address pf),
      ''trigger_match='' @ fmt_bool (tf_sepc f = trigger_address pf)]"

lemma kseq_println:
  "kseq (map println ls) s = Ret () (s\<lparr>uart := uart s @ output_lines ls\<rparr>)"
  by (induction ls arbitrary: s) (simp_all add: krun output_lines_def)

lemma rust_trap_handler_run [krun]:
  "rust_trap_handler pf p s
     = Halted (s\<lparr>uart := uart s @ output_lines (trap_report pf (load_frame (mem s) p))\<rparr>)"
proof -
  have "rust_trap_handler pf p s = kthen (kseq (map println (trap_report pf (load_frame (mem s) p)))) khalt s"
    by (simp only: rust_trap_handler_def trap_report_def Let_def kbind_run kgets_run outcome.case list.map)
  then show ?thesis by (simp add: krun kseq_println)
qed

lemma kernel_trap_run:
  assumes "aligned8 (regs s 2)"
  shows "\<exists>s'. kernel_trap pf cause epc tval s = Halted s'
    \<and> uart s' = uart s @ output_lines (trap_report pf
       ((context_of s)\<lparr>tf_scause := cause, tf_sepc := epc, tf_stval := tval,
          tf_sstatus := trap_sstatus (csrs s Sstatus)\<rparr>))"
proof -
  define t where "t = s\<lparr>csrs := (csrs s)(Scause := cause, Sepc := epc, Stval := tval,
      Sstatus := trap_sstatus (csrs s Sstatus))\<rparr>"
  have "context_of t = (context_of s)\<lparr>tf_scause := cause, tf_sepc := epc, tf_stval := tval,
      tf_sstatus := trap_sstatus (csrs s Sstatus)\<rparr>"
    by (simp add: context_of_def t_def rget_def)
  moreover have "load_frame (mem (exec pf trap_entry_code t)) (regs s 2 - 288) = context_of t"
    using trap_entry_frame [of t pf] assms by (simp add: t_def)
  ultimately show ?thesis
    by (simp add: kernel_trap_def krun t_def [symmetric] trap_entry_state) (simp add: t_def)
qed

definition lesson05_lines :: "platform \<Rightarrow> machine \<Rightarrow> string list" where
  "lesson05_lines pf s =
     [''trigger at '' @ fmt_hex (trigger_address pf),
      ''[trap]'',
      ''scause=0x2'',
      ''sepc='' @ fmt_hex (trigger_address pf),
      ''stval=0x0'',
      ''sstatus='' @ fmt_hex (trap_sstatus (csrs s Sstatus)),
      ''original_sp='' @ fmt_hex (regs s 2),
      ''interrupt=false'',
      ''cause_code=2'',
      ''trigger='' @ fmt_hex (trigger_address pf),
      ''trigger_match=true'']"

lemma fmt_hex_small: "fmt_hex (2::64 word) = ''0x2''" "fmt_hex (0::64 word) = ''0x0''"
  by code_simp+

text \<open>
  C38: a kernel fault is reported and stops the hart.  With a doubleword-aligned stack
  pointer the deliberate illegal instruction of lesson 05 never returns: the trap path
  saves the interrupted context, the report names the trigger's address as the faulting
  instruction and the interrupted stack pointer as the original one, and the hart halts.
\<close>

theorem lesson05_trap_reported:
  assumes "aligned8 (regs s 2)"
  shows "\<exists>s'. trigger_lesson05 pf s = Halted s'
    \<and> uart s' = uart s @ output_lines (lesson05_lines pf s)"
proof -
  let ?o = "as_bytes (''trigger at '' @ fmt_hex (trigger_address pf)) @ [10]"
  obtain s' where s': "kernel_trap pf 2 (trigger_address pf) 0 (s\<lparr>uart := uart s @ ?o\<rparr>) = Halted s'"
    and out: "uart s' = (uart s @ ?o) @ output_lines (trap_report pf
       ((context_of s)\<lparr>tf_scause := 2, tf_sepc := trigger_address pf, tf_stval := 0,
          tf_sstatus := trap_sstatus (csrs s Sstatus)\<rparr>))"
    using kernel_trap_run [of "s\<lparr>uart := uart s @ ?o\<rparr>" pf 2 "trigger_address pf" 0] assms
    by auto
  have "trigger_lesson05 pf s = Halted s'"
    using s' by (simp add: trigger_lesson05_def trigger_illegal_instruction_def krun del: append_Cons)
  moreover have "tf_x (context_of s) ! 2 = regs s 2"
    by (simp add: context_of_def rget_def registers_32)
  moreover have "(2::usize) AND interrupt_bit = 0" "(2::usize) AND NOT interrupt_bit = 2"
    by (simp_all add: interrupt_bit_def)
  ultimately show ?thesis
    using out by (simp add: trap_report_def lesson05_lines_def output_lines_def fmt_hex_small fmt_bool_def)
qed

end
