(* ===== verification/User.thy ===== *)
theory User
  imports User_Handler Trap Syscall
begin

unbundle bit_operations_syntax

text \<open>
  \<^verbatim>\<open>src/user.rs\<close>: entering user mode, validating and serving user traps, and
  returning to the kernel when the process exits (lessons 07 to 09).

  A Rust handler works on the trap frame in place; its model takes the frame's address
  and contents and returns its result with the new contents, and \<open>on_frame\<close> reads the
  frame from memory and writes it back.  The functions that run a process take the trap
  handler \<open>h\<close> the assembly calls, which is \<^verbatim>\<open>rust_user_trap_handler\<close>.
\<close>

section \<open>Constants and linker symbols\<close>

definition SSTATUS_SIE :: usize where "SSTATUS_SIE = 2"
definition SSTATUS_SPIE :: usize where "SSTATUS_SPIE = 32"
definition SSTATUS_SPP :: usize where "SSTATUS_SPP = 256"
definition STACK_BYTES :: usize where "STACK_BYTES = 16 * 1024"
definition ACTION_RESUME_USER :: usize where "ACTION_RESUME_USER = 0"
definition ACTION_TERMINATE_PROCESS :: usize where "ACTION_TERMINATE_PROCESS = 1"
definition NO_EXIT_CODE :: usize where "NO_EXIT_CODE = - 1"

lemmas user_consts = SSTATUS_SIE_def SSTATUS_SPIE_def SSTATUS_SPP_def STACK_BYTES_def
  ACTION_RESUME_USER_def ACTION_TERMINATE_PROCESS_def NO_EXIT_CODE_def

definition kernel_trap_entry_address :: "platform \<Rightarrow> usize" where
  "kernel_trap_entry_address pf = symbol pf ''trap_entry''"

definition user07_code_addresses :: "platform \<Rightarrow> usize \<times> usize \<times> usize \<times> usize" where
  "user07_code_addresses pf =
     (symbol pf ''user_start'', symbol pf ''user_entry'', symbol pf ''user_ecall'', symbol pf ''user_end'')"

definition user08_code_addresses :: "platform \<Rightarrow> usize \<times> usize \<times> usize" where
  "user08_code_addresses pf =
     (symbol pf ''user08_start'', symbol pf ''user08_entry'', symbol pf ''user08_end'')"

definition user08_known_ecall :: "platform \<Rightarrow> usize \<Rightarrow> bool" where
  "user08_known_ecall pf address \<longleftrightarrow>
     address = symbol pf ''user08_ecall_unknown''
     \<or> address = symbol pf ''user08_ecall_invalid''
     \<or> address = symbol pf ''user08_ecall_o''
     \<or> address = symbol pf ''user08_ecall_k''
     \<or> address = symbol pf ''user08_ecall_newline''"

definition user09_code_addresses :: "platform \<Rightarrow> usize \<times> usize \<times> usize" where
  "user09_code_addresses pf =
     (symbol pf ''user09_start'', symbol pf ''user09_entry'', symbol pf ''user09_end'')"

definition user09_stress_code_addresses :: "platform \<Rightarrow> usize \<times> usize \<times> usize" where
  "user09_stress_code_addresses pf =
     (symbol pf ''user09_stress_start'', symbol pf ''user09_stress_entry'', symbol pf ''user09_stress_end'')"

definition user09_ecall_kind :: "platform \<Rightarrow> usize \<Rightarrow> string option" where
  "user09_ecall_kind pf address =
     (if address = symbol pf ''user09_ecall_invalid_exit'' then Some ''invalid''
      else if address = symbol pf ''user09_ecall_exit7'' then Some ''exit7''
      else if address = symbol pf ''user09_stress_ecall'' then Some ''stress''
      else None)"

definition stack_ranges :: "platform \<Rightarrow> (AddressRange \<times> AddressRange \<times> AddressRange) K" where
  "stack_ranges pf =
     kbind (AddressRange_new (symbol pf ''user_stack_start'') (symbol pf ''user_stack_end'')) (\<lambda>us.
     kbind (AddressRange_new (symbol pf ''user_trap_stack_start'') (symbol pf ''user_trap_stack_end'')) (\<lambda>ts.
     kbind (AddressRange_new (symbol pf ''sboot_stack'') (symbol pf ''eboot_stack'')) (\<lambda>bs.
     kret (us, ts, bs))))"

section \<open>Preparing a process\<close>

definition trusted_user_sstatus :: "usize K" where
  "trusted_user_sstatus =
     kbind (csrr Sstatus) (\<lambda>value. kret (value AND NOT (SSTATUS_SPP OR SSTATUS_SIE OR SSTATUS_SPIE)))"

definition read_sie :: "usize K" where "read_sie = csrr Sie"

definition read_stvec :: "usize K" where "read_stvec = csrr Stvec"

definition validate_runtime_ranges :: "platform \<Rightarrow> AddressRange \<Rightarrow> AddressRange \<Rightarrow> unit K" where
  "validate_runtime_ranges pf user_stack trap_stack =
     kbind (stack_ranges pf) (\<lambda>(_, _, boot_stack).
     kbind (AddressRange_size pf user_stack) (\<lambda>user_size.
     kbind (if user_size \<noteq> STACK_BYTES then kret True
            else kbind (AddressRange_size pf trap_stack) (\<lambda>trap_size. kret (trap_size \<noteq> STACK_BYTES)))
       (\<lambda>bad_size.
     kthen (panic_if bad_size ''user/trap stack size is not 16 KiB'')
     (panic_if (AddressRange_overlaps user_stack trap_stack
         \<or> AddressRange_overlaps user_stack boot_stack
         \<or> AddressRange_overlaps trap_stack boot_stack)
       ''user, trap, and boot stack regions overlap''))))"

definition initial_user_sp :: "platform \<Rightarrow> AddressRange \<Rightarrow> usize K" where
  "initial_user_sp pf user_stack =
     kbind (arith_sub (overflow_checks pf) (ar_end user_stack) 16) (\<lambda>user_sp.
     kthen (panic_if (user_sp AND 0xf \<noteq> 0 \<or> \<not> AddressRange_contains user_stack user_sp)
       ''initial user sp is not a 16-byte aligned address inside user stack'')
     (kret user_sp))"

definition prepare_process ::
  "platform \<Rightarrow> u64 \<Rightarrow> Program \<Rightarrow> AddressRange \<Rightarrow> AddressRange \<Rightarrow> Process K" where
  "prepare_process pf pid program user_stack trap_stack =
     kthen (validate_runtime_ranges pf user_stack trap_stack) (
     kthen (panic_if (ar_end trap_stack AND 0xf \<noteq> 0) ''trap stack top is not 16-byte aligned'') (
     kthen (panic_if (pr_entry program AND 1 \<noteq> 0)
       ''user entry violates current RISC-V instruction alignment'') (
     kbind read_sie (\<lambda>sie.
     kthen (panic_if (sie \<noteq> 0) ''user-mode lessons expect sie=0 before sret'') (
     kbind trusted_user_sstatus (\<lambda>sstatus.
     kthen (panic_if (sstatus AND SSTATUS_SPP \<noteq> 0) ''trusted user sstatus still has SPP=1'') (
     kbind (initial_user_sp pf user_stack) (\<lambda>user_sp.
     let context = UserContext_new (pr_entry program) user_sp sstatus;
         runtime = \<lparr>ur_user_stack = user_stack, ur_trap_stack = trap_stack, ur_context = context\<rparr> in
     kbind (attach_user_runtime (Process_new pid program) runtime) (\<lambda>process.
     kbind (Process_start process) (\<lambda>process.
     kthen (panic_if (pc_state process \<noteq> Running) ''user process did not enter Running state'')
     (kret process)))))))))))"

definition enter_process :: "nat \<Rightarrow> platform \<Rightarrow> (usize \<Rightarrow> usize K) \<Rightarrow> Process \<Rightarrow> unit K" where
  "enter_process fuel pf h process =
     kbind (user_runtime process) (\<lambda>runtime.
     kthen (enter_user_mode fuel pf h (uc_x (ur_context runtime) ! 2) (uc_sepc (ur_context runtime))
       (uc_sstatus (ur_context runtime)) (ar_end (ur_trap_stack runtime)))
     (kpanic ''enter_user_mode unexpectedly returned''))"

definition run_process :: "nat \<Rightarrow> platform \<Rightarrow> (usize \<Rightarrow> usize K) \<Rightarrow> Process \<Rightarrow> usize K" where
  "run_process fuel pf h process =
     kbind (user_runtime process) (\<lambda>runtime.
     run_user fuel pf h (uc_x (ur_context runtime) ! 2) (uc_sepc (ur_context runtime))
       (uc_sstatus (ur_context runtime)) (ar_end (ur_trap_stack runtime)))"

section \<open>Serving a user trap\<close>

definition on_frame :: "(usize \<Rightarrow> TrapFrame \<Rightarrow> (usize \<times> TrapFrame) K) \<Rightarrow> usize \<Rightarrow> usize K" where
  "on_frame handle addr =
     kbind (kgets (\<lambda>s. load_frame (mem s) addr)) (\<lambda>frame.
     kbind (handle addr frame) (\<lambda>(action, frame').
     kthen (kmodify (\<lambda>s. s\<lparr>mem := store_frame (mem s) addr frame'\<rparr>))
     (kret action)))"

definition trap_frame_end :: "usize \<Rightarrow> usize" where
  "trap_frame_end addr =
     (case checked_add addr (of_nat TRAP_FRAME_SIZE) of None \<Rightarrow> - 1 | Some e \<Rightarrow> e)"

definition validate_user_trap ::
  "platform \<Rightarrow> usize \<Rightarrow> TrapFrame \<Rightarrow> usize \<Rightarrow> usize \<Rightarrow> usize K" where
  "validate_user_trap pf addr frame code_start code_end =
     kbind (stack_ranges pf) (\<lambda>(user_stack, trap_stack, _).
     kbind read_stvec (\<lambda>stvec.
     let is_interrupt = (tf_scause frame AND interrupt_bit \<noteq> 0);
         cause_code = tf_scause frame AND NOT interrupt_bit;
         origin_spp = drop_bit 8 (tf_sstatus frame AND SSTATUS_SPP);
         frame_end = trap_frame_end addr;
         frame_in_trap_stack = (ar_start trap_stack \<le> addr \<and> frame_end \<le> ar_end trap_stack);
         user_sp_ok = (AddressRange_contains user_stack (tf_x frame ! 2) \<and> tf_x frame ! 2 AND 0xf = 0);
         sepc_in_user_code = (code_start \<le> tf_sepc frame \<and> tf_sepc frame < code_end);
         kernel_stvec_restored = (stvec = kernel_trap_entry_address pf) in
     kthen (panic_if (origin_spp \<noteq> 0 \<or> is_interrupt \<or> cause_code \<noteq> 8 \<or> \<not> frame_in_trap_stack
         \<or> \<not> user_sp_ok \<or> \<not> sepc_in_user_code \<or> \<not> kernel_stvec_restored)
       (''unexpected user trap: spp='' @ fmt_dec origin_spp @ '' interrupt='' @ fmt_bool is_interrupt
         @ '' cause='' @ fmt_dec cause_code @ '' sepc='' @ fmt_hex (tf_sepc frame)))
     (kret addr)))"

definition apply_return :: "TrapFrame \<Rightarrow> isize \<Rightarrow> usize \<Rightarrow> TrapFrame K" where
  "apply_return frame result code_end =
     (let old_sepc = tf_sepc frame in
      kbind (kexpect (checked_add old_sepc 4) ''syscall sepc overflow'') (\<lambda>next_sepc.
      kthen (panic_if (next_sepc > code_end) ''syscall resume pc escaped user code range'')
      (kret (frame\<lparr>tf_x := (tf_x frame)[10 := result], tf_sepc := next_sepc,
         tf_sstatus := tf_sstatus frame AND NOT (SSTATUS_SPP OR SSTATUS_SIE OR SSTATUS_SPIE)\<rparr>))))"

section \<open>Lesson 07\<close>

definition run_lesson07 :: "nat \<Rightarrow> platform \<Rightarrow> (usize \<Rightarrow> usize K) \<Rightarrow> u64 \<Rightarrow> unit K" where
  "run_lesson07 fuel pf h pid =
     (let (code_start, entry, expected_ecall, code_end) = user07_code_addresses pf in
      kbind (from_linked ''user-ecall'' entry code_start code_end) (\<lambda>program.
      kbind (stack_ranges pf) (\<lambda>(user_stack, trap_stack, _).
      kthen (panic_if (\<not> AddressRange_contains (code_range program) expected_ecall)
        ''lesson 07 ecall label is outside user code range'') (
      kbind (prepare_process pf pid program user_stack trap_stack) (\<lambda>process.
      kbind (user_runtime process) (\<lambda>runtime.
      kthen (println (''[user setup] pid='' @ fmt_dec (pc_id process) @ '' program=''
        @ pr_name (pc_program process))) (
      kthen (println (''[user setup] code=['' @ fmt_hex (ar_start (code_range (pc_program process))) @ '', ''
        @ fmt_hex (ar_end (code_range (pc_program process))) @ '')'')) (
      kbind (AddressRange_size pf (ur_user_stack runtime)) (\<lambda>user_size.
      kthen (println (''[user setup] user_stack=['' @ fmt_hex (ar_start (ur_user_stack runtime)) @ '', ''
        @ fmt_hex (ar_end (ur_user_stack runtime)) @ '') size='' @ fmt_dec user_size)) (
      kbind (AddressRange_size pf (ur_trap_stack runtime)) (\<lambda>trap_size.
      kthen (kseq
        [println (''[user setup] trap_stack=['' @ fmt_hex (ar_start (ur_trap_stack runtime)) @ '', ''
           @ fmt_hex (ar_end (ur_trap_stack runtime)) @ '') size='' @ fmt_dec trap_size),
         println (''[user setup] sepc='' @ fmt_hex (uc_sepc (ur_context runtime))),
         println (''[user setup] user_sp='' @ fmt_hex (uc_x (ur_context runtime) ! 2)),
         println (''[user setup] sscratch='' @ fmt_hex (ar_end (ur_trap_stack runtime))),
         println ''[user setup] spp=0'',
         println ''[user setup] process=Running'',
         println (''[user setup] expected_ecall='' @ fmt_hex expected_ecall),
         println ''[user enter]''])
      (enter_process fuel pf h process))))))))))))"

definition lesson07_evidence ::
  "platform \<Rightarrow> AddressRange \<Rightarrow> AddressRange \<Rightarrow> usize \<Rightarrow> usize \<Rightarrow> TrapFrame \<Rightarrow> bool" where
  "lesson07_evidence pf user_stack trap_stack stvec addr frame \<longleftrightarrow>
     (let (code_start, _, expected_ecall, code_end) = user07_code_addresses pf in
      drop_bit 8 (tf_sstatus frame AND SSTATUS_SPP) = 0
      \<and> \<not> tf_scause frame AND interrupt_bit \<noteq> 0
      \<and> tf_scause frame AND NOT interrupt_bit = 8
      \<and> (code_start \<le> tf_sepc frame \<and> tf_sepc frame < code_end)
      \<and> tf_sepc frame = expected_ecall
      \<and> (AddressRange_contains user_stack (tf_x frame ! 2) \<and> tf_x frame ! 2 AND 0xf = 0)
      \<and> (ar_start trap_stack \<le> addr \<and> trap_frame_end addr \<le> ar_end trap_stack)
      \<and> tf_x frame ! 10 = 85
      \<and> tf_x frame ! 17 = 1
      \<and> stvec = kernel_trap_entry_address pf)"

definition handle_lesson07 :: "platform \<Rightarrow> usize \<Rightarrow> TrapFrame \<Rightarrow> (usize \<times> TrapFrame) K" where
  "handle_lesson07 pf addr frame =
     (let (code_start, _, expected_ecall, code_end) = user07_code_addresses pf in
      kbind (stack_ranges pf) (\<lambda>(user_stack, trap_stack, _).
      kbind read_stvec (\<lambda>stvec.
      kthen (kseq
        [println ''[user trap]'',
         println (''origin_spp='' @ fmt_dec (drop_bit 8 (tf_sstatus frame AND SSTATUS_SPP))),
         println (''scause='' @ fmt_hex (tf_scause frame)),
         println (''cause_code='' @ fmt_dec (tf_scause frame AND NOT interrupt_bit)),
         println (''sepc='' @ fmt_hex (tf_sepc frame)),
         println (''expected_ecall='' @ fmt_hex expected_ecall),
         println (''stval='' @ fmt_hex (tf_stval frame)),
         println (''saved_user_sp='' @ fmt_hex (tf_x frame ! 2)),
         println (''user_stack=['' @ fmt_hex (ar_start user_stack) @ '', '' @ fmt_hex (ar_end user_stack) @ '')''),
         println (''trap_frame='' @ fmt_hex addr),
         println (''trap_stack=['' @ fmt_hex (ar_start trap_stack) @ '', '' @ fmt_hex (ar_end trap_stack) @ '')''),
         println (''a0='' @ fmt_dec (tf_x frame ! 10)),
         println (''a7='' @ fmt_dec (tf_x frame ! 17)),
         println (''frame_in_trap_stack=''
           @ fmt_bool (ar_start trap_stack \<le> addr \<and> trap_frame_end addr \<le> ar_end trap_stack)),
         println (''saved_user_sp_ok=''
           @ fmt_bool (AddressRange_contains user_stack (tf_x frame ! 2) \<and> tf_x frame ! 2 AND 0xf = 0)),
         println (''sepc_in_user_code='' @ fmt_bool (code_start \<le> tf_sepc frame \<and> tf_sepc frame < code_end)),
         println (''ecall_match='' @ fmt_bool (tf_sepc frame = expected_ecall)),
         println (''kernel_stvec_restored='' @ fmt_bool (stvec = kernel_trap_entry_address pf)),
         println (''user_mode_evidence=''
           @ fmt_bool (lesson07_evidence pf user_stack trap_stack stvec addr frame))])
      khalt)))"

section \<open>Lesson 08\<close>

definition run_lesson08 :: "nat \<Rightarrow> platform \<Rightarrow> (usize \<Rightarrow> usize K) \<Rightarrow> u64 \<Rightarrow> unit K" where
  "run_lesson08 fuel pf h pid =
     (let (code_start, entry, code_end) = user08_code_addresses pf in
      kbind (from_linked ''user-syscalls'' entry code_start code_end) (\<lambda>program.
      kbind (stack_ranges pf) (\<lambda>(user_stack, trap_stack, _).
      kbind (prepare_process pf pid program user_stack trap_stack) (\<lambda>process.
      kbind (user_runtime process) (\<lambda>runtime.
      kthen (kseq
        [println (''[syscall setup] pid='' @ fmt_dec (pc_id process) @ '' program=''
           @ pr_name (pc_program process)),
         println ''[syscall setup] abi=a7:number,a0:arg0/result'',
         println ''[syscall setup] spp=0'',
         println (''[syscall setup] sepc='' @ fmt_hex (uc_sepc (ur_context runtime))),
         println ''[syscall enter]''])
      (enter_process fuel pf h process))))))"

definition handle_lesson08 :: "platform \<Rightarrow> usize \<Rightarrow> TrapFrame \<Rightarrow> TrapFrame K" where
  "handle_lesson08 pf addr frame =
     (let (code_start, _, code_end) = user08_code_addresses pf in
      kbind (validate_user_trap pf addr frame code_start code_end) (\<lambda>_.
      kthen (panic_if (\<not> user08_known_ecall pf (tf_sepc frame))
        (''lesson 08 trapped at an unexpected user PC '' @ fmt_hex (tf_sepc frame)))
      (let number = tf_x frame ! 17; arg0 = tf_x frame ! 10; old_sepc = tf_sepc frame in
      kbind (dispatch number arg0) (\<lambda>outcome.
      case outcome of
        Sys_Return result \<Rightarrow>
          kbind (apply_return frame result code_end) (\<lambda>frame'.
          kthen (kwhen (sint result < 0)
            (println (''[syscall] number='' @ fmt_dec number @ '' arg0='' @ fmt_dec arg0 @ '' result=''
              @ fmt_int result @ '' sepc='' @ fmt_hex old_sepc @ '' next='' @ fmt_hex (tf_sepc frame'))))
          (kret frame'))
      | Sys_Exit _ \<Rightarrow> kpanic ''lesson 08 unexpectedly received exit syscall''))))"

section \<open>Lesson 09\<close>

definition reset_exit_mailbox :: "unit K" where
  "reset_exit_mailbox = kmodify (\<lambda>s. s\<lparr>last_exit_code := NO_EXIT_CODE\<rparr>)"

definition take_exit_code :: "u8 K" where
  "take_exit_code =
     kbind (kgets last_exit_code) (\<lambda>value.
     kthen (kmodify (\<lambda>s. s\<lparr>last_exit_code := NO_EXIT_CODE\<rparr>)) (
     kthen (panic_if (value > 255) ''run_user returned Terminate without a valid exit code'')
     (kret (ucast value))))"

definition record_trap_frame :: "usize \<Rightarrow> unit K" where
  "record_trap_frame address =
     kbind (kgets expected_trap_frame) (\<lambda>expected.
     if expected = 0 then kmodify (\<lambda>s. s\<lparr>expected_trap_frame := address\<rparr>)
     else panic_if (expected \<noteq> address)
       (''trap frame drifted: first='' @ fmt_hex expected @ '' current='' @ fmt_hex address))"

definition clear_runtime_stacks :: "platform \<Rightarrow> AddressRange \<Rightarrow> AddressRange \<Rightarrow> unit K" where
  "clear_runtime_stacks pf user_stack trap_stack =
     kbind read_sp (\<lambda>sp.
     kthen (panic_if (AddressRange_contains user_stack sp \<or> AddressRange_contains trap_stack sp)
       ''attempted to clear a stack while still executing on it'') (
     kbind (AddressRange_size pf user_stack) (\<lambda>user_size.
     kthen (kmodify (\<lambda>s. s\<lparr>mem := write_zeros (mem s) (ar_start user_stack) user_size\<rparr>)) (
     kbind (AddressRange_size pf trap_stack) (\<lambda>trap_size.
     kmodify (\<lambda>s. s\<lparr>mem := write_zeros (mem s) (ar_start trap_stack) trap_size\<rparr>))))))"

text \<open>One pass of the stress loop, and the loop over its indices.\<close>

definition stress_run ::
  "nat \<Rightarrow> platform \<Rightarrow> (usize \<Rightarrow> usize K) \<Rightarrow> Program \<Rightarrow> AddressRange \<Rightarrow> AddressRange \<Rightarrow> u64 \<Rightarrow> usize
   \<Rightarrow> nat \<Rightarrow> bool \<times> bool \<times> u64 \<Rightarrow> (bool \<times> bool \<times> u64) K" where
  "stress_run fuel pf h program user_stack trap_stack first_pid baseline index acc =
     (case acc of (kernel_sp_stable, no_running, _) \<Rightarrow>
     kbind (kexpect (checked_add first_pid (of_nat index)) ''PID overflow during stress test'') (\<lambda>pid.
     kbind (prepare_process pf pid program user_stack trap_stack) (\<lambda>child.
     kthen reset_exit_mailbox (
     kbind read_sp (\<lambda>before.
     kbind (run_process fuel pf h child) (\<lambda>action.
     kbind read_sp (\<lambda>after.
     kthen (panic_if (action \<noteq> ACTION_TERMINATE_PROCESS)
       (''stress run '' @ fmt_nat index @ '' did not return Terminate'')) (
     kbind take_exit_code (\<lambda>code.
     kthen (panic_if (code \<noteq> 0) (''stress run '' @ fmt_nat index @ '' exited with '' @ fmt_dec code)) (
     kbind (finish_exit child code) (\<lambda>child.
     kthen (clear_runtime_stacks pf user_stack trap_stack)
     (kret (kernel_sp_stable \<and> before = after \<and> after = baseline,
            no_running \<and> pc_state child = Exited 0, pid)))))))))))))"

fun stress_loop ::
  "nat \<Rightarrow> platform \<Rightarrow> (usize \<Rightarrow> usize K) \<Rightarrow> Program \<Rightarrow> AddressRange \<Rightarrow> AddressRange \<Rightarrow> u64 \<Rightarrow> usize
   \<Rightarrow> nat list \<Rightarrow> bool \<times> bool \<times> u64 \<Rightarrow> (bool \<times> bool \<times> u64) K" where
  "stress_loop fuel pf h program us ts first_pid baseline [] acc = kret acc"
| "stress_loop fuel pf h program us ts first_pid baseline (i # is) acc =
     kbind (stress_run fuel pf h program us ts first_pid baseline i acc)
       (stress_loop fuel pf h program us ts first_pid baseline is)"

definition run_lesson09 :: "nat \<Rightarrow> platform \<Rightarrow> (usize \<Rightarrow> usize K) \<Rightarrow> u64 \<Rightarrow> unit K" where
  "run_lesson09 fuel pf h first_pid =
     kthen (kmodify (\<lambda>s. s\<lparr>expected_trap_frame := 0\<rparr>)) (
     kbind (stack_ranges pf) (\<lambda>(user_stack, trap_stack, _).
     let (code_start, entry, code_end) = user09_code_addresses pf in
     kbind (from_linked ''exit-demo'' entry code_start code_end) (\<lambda>program.
     kbind (prepare_process pf first_pid program user_stack trap_stack) (\<lambda>process.
     kthen reset_exit_mailbox (
     kbind read_sp (\<lambda>manager_sp_before.
     kbind (run_process fuel pf h process) (\<lambda>action.
     kbind read_sp (\<lambda>manager_sp_after.
     kthen (panic_if (action \<noteq> ACTION_TERMINATE_PROCESS)
       (''run_user returned unexpected action '' @ fmt_dec action)) (
     kbind take_exit_code (\<lambda>exit_code.
     kthen (panic_if (exit_code \<noteq> 7) (''exit-demo returned '' @ fmt_dec exit_code @ '', expected 7'')) (
     kbind (finish_exit process exit_code) (\<lambda>process.
     kthen (println (''kernel resumed: exit='' @ fmt_dec exit_code)) (
     kthen (if pc_state process = Exited 7 then println ''process state=Exited(7)''
            else kpanic ''exit-demo process did not commit Exited(7)'') (
     kthen (println (''kernel_sp_returned='' @ fmt_bool (manager_sp_before = manager_sp_after))) (
     kthen (clear_runtime_stacks pf user_stack trap_stack) (
     let (stress_start, stress_entry, stress_end) = user09_stress_code_addresses pf in
     kbind (from_linked ''exit-stress'' stress_entry stress_start stress_end) (\<lambda>stress_program.
     kbind (kexpect (checked_add first_pid 1) ''PID overflow'') (\<lambda>stress_first_pid.
     kbind read_sp (\<lambda>manager_sp_baseline.
     kbind (stress_loop fuel pf h stress_program user_stack trap_stack stress_first_pid
         manager_sp_baseline [0..<100] (manager_sp_before = manager_sp_after, True, stress_first_pid))
       (\<lambda>(kernel_sp_stable, no_running, last_pid).
     kthen (kseq
       [println ''[exit stress] completed=100'',
        println (''[exit stress] first_pid='' @ fmt_dec stress_first_pid @ '' last_pid='' @ fmt_dec last_pid),
        println (''[exit stress] kernel_sp_stable='' @ fmt_bool kernel_sp_stable),
        println ''[exit stress] trap_frame_stable=true'',
        println (''[exit stress] no_running='' @ fmt_bool no_running),
        panic_if (\<not> kernel_sp_stable \<or> \<not> no_running) ''lesson 09 stress invariants failed''])
     khalt))))))))))))))))))))"

definition handle_lesson09 :: "platform \<Rightarrow> usize \<Rightarrow> TrapFrame \<Rightarrow> (usize \<times> TrapFrame) K" where
  "handle_lesson09 pf addr frame =
     (let (main_start, _, main_end) = user09_code_addresses pf;
          (stress_start, _, stress_end) = user09_stress_code_addresses pf;
          in_main = (main_start \<le> tf_sepc frame \<and> tf_sepc frame < main_end);
          in_stress = (stress_start \<le> tf_sepc frame \<and> tf_sepc frame < stress_end) in
      kbind (if in_main then kret (main_start, main_end)
             else if in_stress then kret (stress_start, stress_end)
             else kpanic (''lesson 09 sepc outside supported user programs: '' @ fmt_hex (tf_sepc frame)))
        (\<lambda>(code_start, code_end).
      kbind (validate_user_trap pf addr frame code_start code_end) (\<lambda>frame_address.
      kthen (record_trap_frame frame_address) (
      kbind (kexpect (user09_ecall_kind pf (tf_sepc frame))
        (''lesson 09 trapped at unknown ecall PC '' @ fmt_hex (tf_sepc frame))) (\<lambda>kind.
      let number = tf_x frame ! 17; arg0 = tf_x frame ! 10; old_sepc = tf_sepc frame in
      kbind (dispatch number arg0) (\<lambda>outcome.
      case outcome of
        Sys_Return result \<Rightarrow>
          kbind (apply_return frame result code_end) (\<lambda>frame'.
          kthen (kwhen (kind = ''invalid'')
            (println (''[exit] invalid code='' @ fmt_dec arg0 @ '' result='' @ fmt_int result
              @ '' sepc='' @ fmt_hex old_sepc @ '' next='' @ fmt_hex (tf_sepc frame'))))
          (kret (ACTION_RESUME_USER, frame')))
      | Sys_Exit code \<Rightarrow>
          kthen (kmodify (\<lambda>s. s\<lparr>last_exit_code := ucast code\<rparr>)) (
          kthen (kwhen (kind = ''exit7'')
            (println (''[exit] code='' @ fmt_dec code @ '' terminate sepc='' @ fmt_hex old_sepc)))
          (kret (ACTION_TERMINATE_PROCESS, frame)))))))))"

end
