(* ===== verification/User10.thy ===== *)
theory User10
  imports User
begin

unbundle bit_operations_syntax

text \<open>
  \<^verbatim>\<open>src/user10.rs\<close> (lesson 10): a user fault ends the process that caused it and
  nothing else.  The mailbox \<^verbatim>\<open>ACTIVE\<close> is the machine's field \<open>active\<close>.
\<close>

definition user_api_range :: "platform \<Rightarrow> AddressRange K" where
  "user_api_range pf = AddressRange_new (symbol pf ''user_api_start'') (symbol pf ''user_api_end'')"

definition lesson10_handle :: "platform \<Rightarrow> usize \<Rightarrow> TrapFrame \<Rightarrow> (usize \<times> TrapFrame) K" where
  "lesson10_handle pf address frame =
     kbind (stack_ranges pf) (\<lambda>(_, trap_stack, _).
     kbind (arith_sub (overflow_checks pf) (ar_end trap_stack) (of_nat TRAP_FRAME_SIZE)) (\<lambda>slot.
     kthen (kassert (address = slot)
       ''assertion failed: address == trap_stack.end - TRAP_FRAME_SIZE'') (
     kthen (record_trap_frame address) (
     kthen (kassert (tf_sstatus frame AND SSTATUS_SPP = 0) ''kernel source on user vector'') (
     kthen (kassert (drop_bit 63 (tf_scause frame) = 0) ''unexpected interrupt in lesson 10'') (
     kbind read_stvec (\<lambda>stvec.
     kthen (kassert (stvec = kernel_trap_entry_address pf)
       ''assertion failed: read_stvec() == kernel_trap_entry_address()'') (
     kbind (kgets active) (\<lambda>act.
     kbind (user_api_range pf) (\<lambda>api.
     kthen (kassert (AddressRange_contains (act_code act) (tf_sepc frame)
         \<or> AddressRange_contains api (tf_sepc frame))
       ''assertion failed: active.code.contains(frame.sepc) || api.contains(frame.sepc)'') (
     kthen (kwhen (feature pf ''lesson10-kernel-fault'') (trigger_illegal_instruction pf)) (
     if tf_scause frame = 8 then
       kbind (dispatch (tf_x frame ! 17) (tf_x frame ! 10)) (\<lambda>outcome.
       case outcome of
         Sys_Return result \<Rightarrow>
           kthen (kwhen (sint result < 0)
             (println (''[user error] syscall='' @ fmt_dec (tf_x frame ! 17) @ '' arg=''
               @ fmt_dec (tf_x frame ! 10) @ '' result='' @ fmt_int result))) (
           let end' = (if AddressRange_contains api (tf_sepc frame) then ar_end api
                       else ar_end (act_code act)) in
           kbind (apply_return frame result end') (\<lambda>frame'.
           kret (ACTION_RESUME_USER, frame')))
       | Sys_Exit code \<Rightarrow>
           kthen (kmodify (\<lambda>s. s\<lparr>active := (active s)\<lparr>act_outcome := Some (Run_Exited code)\<rparr>\<rparr>))
           (kret (ACTION_TERMINATE_PROCESS, frame)))
     else if tf_scause frame = 2 then
       kthen (kmodify (\<lambda>s. s\<lparr>active := (active s)\<lparr>act_outcome :=
           Some (Run_Faulted (tf_scause frame) (tf_sepc frame) (tf_stval frame))\<rparr>\<rparr>))
       (kret (ACTION_TERMINATE_PROCESS, frame))
     else kpanic (''unsupported user exception: cause='' @ fmt_dec (tf_scause frame) @ '' sepc=''
       @ fmt_hex (tf_sepc frame))))))))))))))"

definition take_outcome :: "RunOutcome K" where
  "take_outcome =
     kbind (kgets (\<lambda>s. act_outcome (active s))) (\<lambda>o'.
     kthen (kmodify (\<lambda>s. s\<lparr>active := (active s)\<lparr>act_outcome := None\<rparr>\<rparr>))
     (kexpect o' ''missing user completion''))"

definition run_one ::
  "nat \<Rightarrow> platform \<Rightarrow> (usize \<Rightarrow> usize K) \<Rightarrow> u64 \<Rightarrow> string \<Rightarrow> usize \<Rightarrow> usize \<Rightarrow> RunOutcome K" where
  "run_one fuel pf h pid name start end' =
     kbind (from_linked name start start end') (\<lambda>program.
     kbind (stack_ranges pf) (\<lambda>(user_stack, trap_stack, _).
     kthen (clear_runtime_stacks pf user_stack trap_stack) (
     kbind (prepare_process pf pid program user_stack trap_stack) (\<lambda>process.
     kthen (kmodify (\<lambda>s. s\<lparr>active := \<lparr>act_code = code_range program, act_outcome = None\<rparr>\<rparr>)) (
     kbind read_sp (\<lambda>before.
     kbind (run_process fuel pf h process) (\<lambda>action.
     kthen (kassert (action = ACTION_TERMINATE_PROCESS)
       ''assertion failed: run_process == ACTION_TERMINATE_PROCESS'') (
     kbind read_sp (\<lambda>now_sp.
     kthen (kassert (before = now_sp) ''manager stack drift'') (
     kbind take_outcome (\<lambda>outcome.
     kbind (case outcome of
         Run_Exited code \<Rightarrow> finish_exit process code
       | Run_Faulted cause sepc stval \<Rightarrow>
           kbind (finish_fault process \<lparr>fi_cause = cause, fi_sepc = sepc, fi_stval = stval\<rparr>) (\<lambda>process.
           kthen (println (''[user fault] pid='' @ fmt_dec pid @ '' program='' @ name @ '' cause=''
             @ fmt_dec cause @ '' sepc='' @ fmt_hex sepc @ '' stval='' @ fmt_hex stval))
           (kret process))) (\<lambda>process.
     kthen (kassert (pc_state process \<noteq> Ready \<and> pc_state process \<noteq> Running)
       ''assertion failed: process finished'') (
     kthen (clear_runtime_stacks pf user_stack trap_stack)
     (kret outcome))))))))))))))"

text \<open>The hundred runs of the stress program.\<close>

fun lesson10_stress :: "nat \<Rightarrow> platform \<Rightarrow> (usize \<Rightarrow> usize K) \<Rightarrow> u64 \<Rightarrow> usize \<Rightarrow> usize \<Rightarrow> nat list \<Rightarrow> unit K" where
  "lesson10_stress fuel pf h first_pid start end' [] = kret ()"
| "lesson10_stress fuel pf h first_pid start end' (i # is) =
     kbind (arith_add (overflow_checks pf) first_pid 3) (\<lambda>p.
     kbind (arith_add (overflow_checks pf) p (of_nat i)) (\<lambda>pid.
     kbind (run_one fuel pf h pid ''stress'' start end') (\<lambda>outcome.
     kthen (kassert (outcome = Run_Exited 0) ''assertion failed: stress run'')
     (lesson10_stress fuel pf h first_pid start end' is))))"

definition run_lesson10 :: "nat \<Rightarrow> platform \<Rightarrow> (usize \<Rightarrow> usize K) \<Rightarrow> u64 \<Rightarrow> unit K" where
  "run_lesson10 fuel pf h first_pid =
     kthen (kmodify (\<lambda>s. s\<lparr>expected_trap_frame := 0\<rparr>)) (
     let (start, _, end') = user09_code_addresses pf in
     kbind (run_one fuel pf h first_pid ''exit7'' start end') (\<lambda>outcome.
     kthen (kassert (outcome = Run_Exited 7) ''assertion failed: exit7 run'') (
     kthen (println ''[user batch] Exited(7)'') (
     let start = symbol pf ''user10_fault_start''; end' = symbol pf ''user10_fault_end'' in
     kbind (arith_add (overflow_checks pf) first_pid 1) (\<lambda>pid.
     kbind (run_one fuel pf h pid ''illegal'' start end') (\<lambda>outcome.
     kthen (kassert (case outcome of Run_Faulted cause sepc _ \<Rightarrow> cause = 2 \<and> sepc = start | _ \<Rightarrow> False)
       ''assertion failed: illegal run'') (
     kbind (arith_add (overflow_checks pf) first_pid 2) (\<lambda>pid.
     kbind (run_one fuel pf h pid ''after-fault'' (symbol pf ''user10_normal_start'')
         (symbol pf ''user10_normal_end'')) (\<lambda>outcome.
     kthen (kassert (outcome = Run_Exited 0) ''assertion failed: after-fault run'') (
     let (start, _, end') = user09_stress_code_addresses pf in
     kthen (lesson10_stress fuel pf h first_pid start end' [0..<100]) (
     kthen (println ''[user batch] completed=100 stack_stable=true'') (
     kthen (println ''[user batch] stage-complete'')
     khalt))))))))))))"

end
