(* ===== verification/Ready_Queue.thy ===== *)
theory Ready_Queue
  imports Machine
begin

text \<open>
  The tasks and the ready queue of \<^verbatim>\<open>src/scheduler.rs\<close>.  Task identifiers, queue
  positions and levels index arrays of length 4 and 3 and event counters count loop
  iterations, so they are natural numbers; times and budgets keep their 64 bits.  The
  queue is the array \<^verbatim>\<open>ids\<close> with its length, stale entries included, and every slice
  or index of the code is checked as Rust checks it.
\<close>

definition N :: nat where "N = 4"

definition STACK :: nat where "STACK = 16384"

datatype State = Task_Ready | Task_Running | Task_Done

record Task =
  tk_frame :: TrapFrame
  tk_state :: State
  tk_level :: nat
  tk_slice :: usize
  tk_allot :: usize
  tk_timers :: nat
  tk_yields :: nat
  tk_syscalls :: nat
  tk_demotions :: nat
  tk_preemptions :: nat
  tk_first :: "usize option"
  tk_completion :: usize
  tk_ready_since :: usize
  tk_max_wait :: usize

record Ready =
  rq_ids :: "nat list"
  rq_len :: nat

definition Ready_new :: Ready where
  "Ready_new = \<lparr>rq_ids = replicate N 0, rq_len = 0\<rparr>"

text \<open>\<^verbatim>\<open>self.ids[..self.len]\<close>.\<close>

definition queued :: "Ready \<Rightarrow> nat list" where
  "queued q = take (rq_len q) (rq_ids q)"

definition slice_ok :: "Ready \<Rightarrow> unit K" where
  "slice_ok q = panic_if (rq_len q > length (rq_ids q)) ''range end index out of range for slice''"

definition Ready_push :: "Ready \<Rightarrow> nat \<Rightarrow> ((string + unit) \<times> Ready) K" where
  "Ready_push q tid =
     (if tid \<ge> N then kret (Inl ''bad task id'', q)
      else if rq_len q = N then kret (Inl ''queue full'', q)
      else kthen (slice_ok q) (
        if tid \<in> set (queued q) then kret (Inl ''duplicate task'', q)
        else kbind (kindex (rq_ids q) (rq_len q)) (\<lambda>_.
          kret (Inr (), \<lparr>rq_ids = (rq_ids q)[rq_len q := tid], rq_len = rq_len q + 1\<rparr>))))"

text \<open>\<^verbatim>\<open>(0..len).min_by_key(|&p| tasks[ids[p]].level)\<close>: the first position of a least level.\<close>

definition level_at :: "Ready \<Rightarrow> Task list \<Rightarrow> nat \<Rightarrow> nat K" where
  "level_at q tasks p =
     kbind (kindex (rq_ids q) p) (\<lambda>tid. kbind (kindex tasks tid) (\<lambda>t. kret (tk_level t)))"

fun min_scan :: "Ready \<Rightarrow> Task list \<Rightarrow> nat list \<Rightarrow> nat \<Rightarrow> nat \<Rightarrow> nat K" where
  "min_scan q tasks [] best key = kret best"
| "min_scan q tasks (p # ps) best key =
     kbind (level_at q tasks p) (\<lambda>k.
     if k < key then min_scan q tasks ps p k else min_scan q tasks ps best key)"

definition copy_within :: "'a list \<Rightarrow> nat \<Rightarrow> nat \<Rightarrow> nat \<Rightarrow> 'a list" where
  "copy_within xs from til dest =
     take dest xs @ take (til - from) (drop from xs) @ drop (dest + (til - from)) xs"

definition Ready_pop :: "Ready \<Rightarrow> Task list \<Rightarrow> bool \<Rightarrow> (nat option \<times> Ready) K" where
  "Ready_pop q tasks mlfq =
     (if rq_len q = 0 then kret (None, q)
      else
        kbind (if mlfq then kbind (level_at q tasks 0) (min_scan q tasks [1..<rq_len q] 0) else kret 0)
          (\<lambda>pos.
        kbind (kindex (rq_ids q) pos) (\<lambda>tid.
        kthen (slice_ok q)
        (kret (Some tid, \<lparr>rq_ids = copy_within (rq_ids q) (pos + 1) (rq_len q) pos,
                          rq_len = rq_len q - 1\<rparr>)))))"

definition Ready_check :: "Ready \<Rightarrow> Task list \<Rightarrow> nat \<Rightarrow> unit K" where
  "Ready_check q tasks count =
     kthen (kassert (rq_len q \<le> count) ''assertion failed: self.len <= count'') (
     kthen (slice_ok q) (
     kthen (kfor (queued q) (\<lambda>tid. kbind (kindex tasks tid) (\<lambda>t.
       kassert (tk_state t = Task_Ready) ''assertion failed: tasks[id].state == State::Ready''))) (
     kthen (kfor (take count (zip [0..<length tasks] tasks)) (\<lambda>(tid, t).
       kassert (count_list (queued q) tid = (if tk_state t = Task_Ready then 1 else 0))
         ''assertion failed: queue occurrences'')) (
     kthen (panic_if (count > length tasks) ''range end index out of range for slice'')
     (kassert (length (filter (\<lambda>t. tk_state t = Task_Running) (take count tasks)) \<le> 1)
       ''assertion failed: at most one running task'')))))"

section \<open>The queue as an abstract sequence\<close>

text \<open>
  What the scheduler relies on: a bounded duplicate-free queue of task identifiers whose
  push appends, and whose pop takes the first element or, under MLFQ, the first one of
  the least level.  \<open>contents\<close> abstracts a queue to the sequence it holds.
\<close>

locale ready_queue =
  fixes empty :: 'q
    and push :: "'q \<Rightarrow> nat \<Rightarrow> ((string + unit) \<times> 'q) K"
    and pop :: "'q \<Rightarrow> Task list \<Rightarrow> bool \<Rightarrow> (nat option \<times> 'q) K"
    and contents :: "'q \<Rightarrow> nat list"
    and invar :: "'q \<Rightarrow> bool"
  assumes empty_ok: "invar empty" "contents empty = []"
    and invar_bounds: "invar q \<Longrightarrow> distinct (contents q) \<and> set (contents q) \<subseteq> {..<N}"
    and push_appends: "invar q \<Longrightarrow> tid < N \<Longrightarrow> tid \<notin> set (contents q) \<Longrightarrow>
      \<exists>q'. push q tid s = Ret (Inr (), q') s \<and> invar q' \<and> contents q' = contents q @ [tid]"
    and push_rejects: "invar q \<Longrightarrow> N \<le> tid \<or> tid \<in> set (contents q) \<Longrightarrow>
      \<exists>e. push q tid s = Ret (Inl e, q) s"
    and pop_empty: "invar q \<Longrightarrow> contents q = [] \<Longrightarrow> pop q tasks mlfq s = Ret (None, q) s"
    and pop_first: "invar q \<Longrightarrow> contents q = tid # rest \<Longrightarrow>
      \<exists>q'. pop q tasks False s = Ret (Some tid, q') s \<and> invar q' \<and> contents q' = rest"
    and pop_least: "invar q \<Longrightarrow> contents q \<noteq> [] \<Longrightarrow> length tasks = N \<Longrightarrow>
      \<exists>q' before tid behind. pop q tasks True s = Ret (Some tid, q') s \<and> invar q'
        \<and> contents q = before @ tid # behind \<and> contents q' = before @ behind
        \<and> (\<forall>t \<in> set before. tk_level (tasks ! tid) < tk_level (tasks ! t))
        \<and> (\<forall>t \<in> set behind. tk_level (tasks ! tid) \<le> tk_level (tasks ! t))"
begin

lemma contents_bound: "invar q \<Longrightarrow> length (contents q) \<le> N"
  using invar_bounds [of q] distinct_card [of "contents q"] card_mono [of "{..<N}" "set (contents q)"]
  by auto

text \<open>
  Either policy pops one identifier and keeps the order of the others: the first one, or
  under MLFQ the first of the least level.
\<close>

lemma pop_some:
  assumes "invar q" and "contents q \<noteq> []" and "length tasks = N"
  shows "\<exists>tid q' before behind. pop q tasks mlfq s = Ret (Some tid, q') s \<and> invar q'
    \<and> contents q = before @ tid # behind \<and> contents q' = before @ behind
    \<and> (if mlfq then (\<forall>t \<in> set before. tk_level (tasks ! tid) < tk_level (tasks ! t))
          \<and> (\<forall>t \<in> set behind. tk_level (tasks ! tid) \<le> tk_level (tasks ! t))
        else before = [])"
proof (cases mlfq)
  case False
  obtain tid rest where c: "contents q = tid # rest" using assms(2) by (cases "contents q") auto
  obtain q' where "pop q tasks False s = Ret (Some tid, q') s" "invar q'" "contents q' = rest"
    using pop_first [OF assms(1) c] by blast
  then show ?thesis using False c by (intro exI [of _ tid] exI [of _ q'] exI [of _ "[]"] exI [of _ rest]) simp
next
  case True
  then show ?thesis using pop_least [OF assms, of s] unfolding eqTrueI [OF True] if_True by blast
qed

lemma pop_cases:
  assumes "invar q" and "length tasks = N"
  obtains (none) "contents q = []" "pop q tasks mlfq s = Ret (None, q) s"
  | (some) tid q' before behind where "pop q tasks mlfq s = Ret (Some tid, q') s" "invar q'"
      "contents q = before @ tid # behind" "contents q' = before @ behind" "tid < N"
      "if mlfq then (\<forall>t \<in> set before. tk_level (tasks ! tid) < tk_level (tasks ! t))
          \<and> (\<forall>t \<in> set behind. tk_level (tasks ! tid) \<le> tk_level (tasks ! t))
       else before = []"
proof (cases "contents q = []")
  case True
  then show thesis using pop_empty assms none by blast
next
  case False
  obtain tid q' before behind where p: "pop q tasks mlfq s = Ret (Some tid, q') s" "invar q'"
      "contents q = before @ tid # behind" "contents q' = before @ behind"
      "if mlfq then (\<forall>t \<in> set before. tk_level (tasks ! tid) < tk_level (tasks ! t))
          \<and> (\<forall>t \<in> set behind. tk_level (tasks ! tid) \<le> tk_level (tasks ! t))
       else before = []"
    using pop_some [OF assms(1) False assms(2)] by blast
  moreover have "tid < N" using invar_bounds [OF assms(1)] p(3) by auto
  ultimately show thesis using some by blast
qed

end

section \<open>The array implements it\<close>

definition rq_ok :: "Ready \<Rightarrow> bool" where
  "rq_ok q \<longleftrightarrow> length (rq_ids q) = N \<and> rq_len q \<le> N \<and> distinct (queued q)
     \<and> set (queued q) \<subseteq> {..<N}"

lemma length_queued: "rq_ok q \<Longrightarrow> length (queued q) = rq_len q"
  by (simp add: rq_ok_def queued_def)

lemma queued_nth: "rq_ok q \<Longrightarrow> p < rq_len q \<Longrightarrow> rq_ids q ! p = queued q ! p"
  by (simp add: queued_def)

lemma rq_ok_intro:
  "length ids = N \<Longrightarrow> n \<le> N \<Longrightarrow> take n ids = xs \<Longrightarrow> distinct xs \<Longrightarrow> set xs \<subseteq> {..<N} \<Longrightarrow>
   rq_ok \<lparr>rq_ids = ids, rq_len = n\<rparr> \<and> queued \<lparr>rq_ids = ids, rq_len = n\<rparr> = xs"
  by (auto simp: rq_ok_def queued_def)

lemma Ready_push_appends:
  assumes ok: "rq_ok q" and tid: "tid < N" "tid \<notin> set (queued q)"
  shows "\<exists>q'. Ready_push q tid s = Ret (Inr (), q') s \<and> rq_ok q' \<and> queued q' = queued q @ [tid]"
proof -
  have "insert tid (set (queued q)) \<subseteq> {..<N}" using ok tid by (auto simp: rq_ok_def)
  then have "card (insert tid (set (queued q))) \<le> N"
    using card_mono [of "{..<N}" "insert tid (set (queued q))"] by simp
  then have lt: "rq_len q < N"
    using ok tid distinct_card [of "queued q"] by (simp add: length_queued rq_ok_def)
  let ?q' = "\<lparr>rq_ids = (rq_ids q)[rq_len q := tid], rq_len = rq_len q + 1\<rparr>"
  have "take (rq_len q + 1) ((rq_ids q)[rq_len q := tid]) = queued q @ [tid]"
    using lt ok by (simp add: rq_ok_def queued_def list_update_take_drop)
  then have "rq_ok ?q' \<and> queued ?q' = queued q @ [tid]"
    using ok tid lt by (intro rq_ok_intro) (auto simp: rq_ok_def)
  moreover have "Ready_push q tid s = Ret (Inr (), ?q') s"
    using ok tid lt by (simp add: Ready_push_def slice_ok_def krun rq_ok_def)
  ultimately show ?thesis by blast
qed

lemma Ready_push_rejects:
  assumes ok: "rq_ok q" and bad: "N \<le> tid \<or> tid \<in> set (queued q)"
  shows "\<exists>e. Ready_push q tid s = Ret (Inl e, q) s"
  using assms by (auto simp: Ready_push_def slice_ok_def krun rq_ok_def)

text \<open>Removing one position with \<^verbatim>\<open>copy_within\<close> keeps the order of the others.\<close>

lemma copy_within_removes:
  assumes "p < n" and "n \<le> length xs"
  shows "take (n - 1) (copy_within xs (p + 1) n p) = take p xs @ drop (p + 1) (take n xs)"
    and "length (copy_within xs (p + 1) n p) = length xs"
proof -
  obtain d where "n = Suc (p + d)" using assms(1) less_imp_Suc_add by blast
  then show "take (n - 1) (copy_within xs (p + 1) n p) = take p xs @ drop (p + 1) (take n xs)"
    and "length (copy_within xs (p + 1) n p) = length xs"
    using assms(2) by (auto simp: copy_within_def drop_take)
qed

lemma Ready_pop_at:
  assumes ok: "rq_ok q" and p: "p < rq_len q"
  defines "q' \<equiv> \<lparr>rq_ids = copy_within (rq_ids q) (p + 1) (rq_len q) p, rq_len = rq_len q - 1\<rparr>"
  shows "rq_ok q' \<and> queued q' = take p (queued q) @ drop (p + 1) (queued q)"
proof -
  let ?rest = "take p (queued q) @ drop (p + 1) (queued q)"
  have n: "rq_len q \<le> N" "length (rq_ids q) = N" using ok by (simp_all add: rq_ok_def)
  have split: "queued q = take p (queued q) @ queued q ! p # drop (p + 1) (queued q)"
    using id_take_nth_drop [of p "queued q"] p ok by (simp add: length_queued)
  have "take (rq_len q - 1) (copy_within (rq_ids q) (p + 1) (rq_len q) p) = ?rest"
    using copy_within_removes(1) [of p "rq_len q" "rq_ids q"] p n by (simp add: queued_def)
  moreover have "distinct ?rest"
    using ok split by (simp add: rq_ok_def set_take_disj_set_drop_if_distinct)
  moreover have "set ?rest \<subseteq> {..<N}"
    using ok set_take_subset [of p "queued q"] set_drop_subset [of "p + 1" "queued q"]
    by (auto simp: rq_ok_def)
  ultimately show ?thesis
    unfolding q'_def using p n copy_within_removes(2) [of p "rq_len q" "rq_ids q"]
    by (intro rq_ok_intro) auto
qed

lemma level_at_run:
  assumes "rq_ok q" and "length tasks = N" and "p < rq_len q"
  shows "level_at q tasks p s = Ret (tk_level (tasks ! (queued q ! p))) s"
proof -
  have "queued q ! p \<in> set (queued q)" using assms by (simp add: length_queued)
  then have "queued q ! p < N" and "p < length (rq_ids q)" using assms by (auto simp: rq_ok_def)
  then show ?thesis
    using assms(2) queued_nth [OF assms(1,3)] by (simp add: level_at_def krun)
qed

lemma min_scan_least:
  assumes run: "\<And>p. p < n \<Longrightarrow> level_at q tasks p s = Ret (L p) s"
    and "best < k" "k \<le> n" "\<forall>p < k. L best \<le> L p" "\<forall>p < best. L best < L p"
  shows "\<exists>r. min_scan q tasks [k..<n] best (L best) s = Ret r s \<and> r < n
    \<and> (\<forall>p < n. L r \<le> L p) \<and> (\<forall>p < r. L r < L p)"
  using assms(2-)
proof (induction "n - k" arbitrary: k best)
  case 0
  then show ?case by (auto simp: krun)
next
  case (Suc d)
  then have k: "k < n" "[k..<n] = k # [k + 1..<n]" by (simp_all add: upt_conv_Cons)
  show ?case
  proof (cases "L k < L best")
    case True
    have "\<exists>r. min_scan q tasks [k + 1..<n] k (L k) s = Ret r s \<and> r < n
        \<and> (\<forall>p < n. L r \<le> L p) \<and> (\<forall>p < r. L r < L p)"
      using Suc.hyps(2) k(1) True Suc.prems
      by (intro Suc.hyps(1)) (auto simp: less_Suc_eq intro: less_imp_le order.strict_trans2)
    then show ?thesis using True k by (simp add: krun run)
  next
    case False
    have "\<exists>r. min_scan q tasks [k + 1..<n] best (L best) s = Ret r s \<and> r < n
        \<and> (\<forall>p < n. L r \<le> L p) \<and> (\<forall>p < r. L r < L p)"
      using Suc.hyps(2) k(1) False Suc.prems
      by (intro Suc.hyps(1)) (auto simp: less_Suc_eq)
    then show ?thesis using False k by (simp add: krun run)
  qed
qed

lemma Ready_pop_empty: "rq_ok q \<Longrightarrow> queued q = [] \<Longrightarrow> Ready_pop q tasks mlfq s = Ret (None, q) s"
  using length_queued [of q] by (simp add: Ready_pop_def krun)

lemma Ready_pop_first:
  assumes ok: "rq_ok q" and c: "queued q = tid # rest"
  shows "\<exists>q'. Ready_pop q tasks False s = Ret (Some tid, q') s \<and> rq_ok q' \<and> queued q' = rest"
proof -
  have len: "0 < rq_len q" using length_queued [OF ok] c by auto
  then have "rq_ids q ! 0 = tid" using queued_nth [OF ok len] c by simp
  then show ?thesis
    using Ready_pop_at [OF ok len] len ok c
    by (simp add: Ready_pop_def slice_ok_def krun rq_ok_def)
qed

lemma Ready_pop_least:
  assumes ok: "rq_ok q" and ne: "queued q \<noteq> []" and tasks: "length tasks = N"
  shows "\<exists>q' before tid behind. Ready_pop q tasks True s = Ret (Some tid, q') s \<and> rq_ok q'
    \<and> queued q = before @ tid # behind \<and> queued q' = before @ behind
    \<and> (\<forall>t \<in> set before. tk_level (tasks ! tid) < tk_level (tasks ! t))
    \<and> (\<forall>t \<in> set behind. tk_level (tasks ! tid) \<le> tk_level (tasks ! t))"
proof -
  let ?L = "\<lambda>p. tk_level (tasks ! (queued q ! p))"
  have len: "0 < rq_len q" using ne length_queued [OF ok] by (cases "queued q") auto
  obtain p where p: "min_scan q tasks [1..<rq_len q] 0 (?L 0) s = Ret p s" "p < rq_len q"
    "\<forall>r < rq_len q. ?L p \<le> ?L r" "\<forall>r < p. ?L p < ?L r"
    using min_scan_least [of "rq_len q" q tasks s ?L 0 1] level_at_run [OF ok tasks] len by auto
  let ?tid = "queued q ! p"
  let ?q' = "\<lparr>rq_ids = copy_within (rq_ids q) (p + 1) (rq_len q) p, rq_len = rq_len q - 1\<rparr>"
  have "Ready_pop q tasks True s = Ret (Some ?tid, ?q') s"
    using p(1,2) len ok level_at_run [OF ok tasks len, of s] queued_nth [OF ok p(2)]
    by (simp add: Ready_pop_def slice_ok_def krun rq_ok_def)
  moreover have "queued q = take p (queued q) @ ?tid # drop (p + 1) (queued q)"
    using id_take_nth_drop [of p "queued q"] p(2) ok by (simp add: length_queued)
  moreover have "\<forall>t \<in> set (take p (queued q)). tk_level (tasks ! ?tid) < tk_level (tasks ! t)"
    using p(2,4) ok by (auto simp: in_set_conv_nth length_queued)
  moreover have "\<forall>t \<in> set (drop (p + 1) (queued q)). tk_level (tasks ! ?tid) \<le> tk_level (tasks ! t)"
    using p(3) ok by (auto simp: in_set_conv_nth length_queued)
  ultimately show ?thesis using Ready_pop_at [OF ok p(2)] by blast
qed

interpretation rq: ready_queue Ready_new Ready_push Ready_pop queued rq_ok
proof unfold_locales
  show "rq_ok Ready_new" and "queued Ready_new = []"
    by (simp_all add: rq_ok_def Ready_new_def queued_def)
  show "distinct (queued q) \<and> set (queued q) \<subseteq> {..<N}" if "rq_ok q" for q
    using that by (simp add: rq_ok_def)
qed (rule Ready_push_appends Ready_push_rejects Ready_pop_empty Ready_pop_first Ready_pop_least;
    assumption)+

end
