(* ===== verification/Scheduler.thy ===== *)
theory Scheduler
  imports Ready_Queue Image Timer User
begin

unbundle bit_operations_syntax

text \<open>
  \<^verbatim>\<open>src/scheduler.rs\<close> (lessons 12 to 15): the trap handler of scheduled tasks and the
  management loop \<^verbatim>\<open>batch\<close>, one definition per step of its body in the order of the code.
  The record \<open>Sched\<close> holds the loop's local variables.  The static \<^verbatim>\<open>EXCHANGE\<close> is the
  machine's field \<open>exchange\<close>; \<^verbatim>\<open>STACKS\<close> and \<^verbatim>\<open>TIMER_DONE\<close> live in memory.
\<close>

section \<open>Policies and task specifications\<close>

datatype Policy = Policy_Yield | Policy_Timer nat | Policy_Rr | Policy_Mlfq

record Spec =
  sp_mode :: usize
  sp_iterations :: usize
  sp_fault :: bool

definition Spec_new :: "usize \<Rightarrow> usize \<Rightarrow> Spec" where
  "Spec_new mode iterations = \<lparr>sp_mode = mode, sp_iterations = iterations, sp_fault = False\<rparr>"

definition fmt_policy :: "Policy \<Rightarrow> string" where
  "fmt_policy p = (case p of
     Policy_Yield \<Rightarrow> ''Yield'' | Policy_Timer n \<Rightarrow> ''Timer('' @ fmt_nat n @ '')''
   | Policy_Rr \<Rightarrow> ''Rr'' | Policy_Mlfq \<Rightarrow> ''Mlfq'')"

definition fmt_reason :: "Reason \<Rightarrow> string" where
  "fmt_reason r = (case r of
     Reason_Syscall \<Rightarrow> ''Syscall'' | Reason_Yield \<Rightarrow> ''Yield'' | Reason_Timer \<Rightarrow> ''Timer''
   | Reason_Exit c \<Rightarrow> ''Exit('' @ fmt_dec c @ '')'' | Reason_Fault c \<Rightarrow> ''Fault('' @ fmt_dec c @ '')'')"

definition budget :: "Task \<Rightarrow> Task K" where
  "budget t =
     kbind (kindex [T, 2 * T, 4 * T] (tk_level t)) (\<lambda>slice.
     kbind (kindex [2 * T, 4 * T, - 1] (tk_level t)) (\<lambda>allot.
     kret (t\<lparr>tk_slice := slice, tk_allot := allot\<rparr>)))"

text \<open>\<^verbatim>\<open>STACKS\<close> is \<^verbatim>\<open>repr(C)\<close>: \<^verbatim>\<open>N\<close> user stacks, then \<^verbatim>\<open>N\<close> trap stacks.\<close>

definition stack_top :: "platform \<Rightarrow> nat \<Rightarrow> bool \<Rightarrow> usize K" where
  "stack_top pf tid user =
     kthen (kassert (tid < N) ''index out of bounds'')
     (arith_add (overflow_checks pf)
       (symbol pf ''STACKS'' + (if user then 0 else of_nat (N * STACK)) + of_nat (tid * STACK))
       (of_nat STACK))"

definition unprivileged :: "usize \<Rightarrow> usize" where
  "unprivileged v = v AND NOT ((push_bit 8 1 OR push_bit 5 1) OR push_bit 1 1)"

definition status :: "usize K" where
  "status = kbind (csrr Sstatus) (\<lambda>v. kret (unprivileged v))"

section \<open>The trap handler\<close>

definition sched_reason :: "TrapFrame \<Rightarrow> (Reason \<times> TrapFrame) K" where
  "sched_reason frame =
     (if drop_bit 63 (tf_scause frame) \<noteq> 0 then
        kthen (kassert (tf_scause frame AND NOT (push_bit 63 1) = 5) ''unexpected interrupt'')
        (kret (Reason_Timer, frame))
      else if tf_scause frame = 8 then
        if tf_x frame ! 17 = 3 then
          kbind (kexpect (checked_add (tf_sepc frame) 4) ''ecall PC overflow'') (\<lambda>pc.
          kret (Reason_Yield, frame\<lparr>tf_x := (tf_x frame)[10 := 0], tf_sepc := pc\<rparr>))
        else
          kbind (dispatch (tf_x frame ! 17) (tf_x frame ! 10)) (\<lambda>outcome. case outcome of
            Sys_Return value \<Rightarrow>
              kbind (kexpect (checked_add (tf_sepc frame) 4) ''ecall PC overflow'') (\<lambda>pc.
              kret (Reason_Syscall, frame\<lparr>tf_x := (tf_x frame)[10 := value], tf_sepc := pc\<rparr>))
          | Sys_Exit code \<Rightarrow> kret (Reason_Exit (ucast code), frame))
      else
        kthen (kassert (tf_scause frame = 2) ''unexpected user exception'')
        (kret (Reason_Fault (tf_scause frame), frame)))"

definition sched_handle :: "platform \<Rightarrow> usize \<Rightarrow> TrapFrame \<Rightarrow> (usize \<times> TrapFrame) K" where
  "sched_handle pf address frame =
     kbind (now pf) (\<lambda>time.
     kbind (kgets (\<lambda>s. ex_expected (exchange s))) (\<lambda>expected.
     kthen (kassert (address = expected) ''wrong task trap stack'') (
     kthen (kassert (tf_sstatus frame AND (push_bit 8 1) = 0) ''kernel fault on user path'') (
     kthen (kassert (symbol pf ''sched_code_start'' \<le> tf_sepc frame
         \<and> tf_sepc frame < symbol pf ''sched_code_end'') ''task PC escaped code'') (
     kbind (sched_reason frame) (\<lambda>(reason, frame).
     let frame = frame\<lparr>tf_sstatus := unprivileged (tf_sstatus frame)\<rparr> in
     kthen (kmodify (\<lambda>s. s\<lparr>exchange :=
         \<lparr>ex_expected = expected, ex_frame = frame, ex_reason = reason, ex_time = time\<rparr>\<rparr>))
     (kret (1, frame))))))))"

section \<open>The management loop\<close>

record Sched =
  sc_tasks :: "Task list"
  sc_ready :: Ready
  sc_boost :: usize
  sc_current :: "nat option"
  sc_deadline :: usize
  sc_switches :: nat
  sc_trace :: "(nat \<times> Reason) list"
  sc_dropped :: nat
  sc_boosts :: nat

text \<open>\<open>set_task i t sc\<close>: the local variables after \<^verbatim>\<open>tasks[i]\<close> has become \<open>t\<close>.\<close>

definition set_task :: "nat \<Rightarrow> Task \<Rightarrow> Sched \<Rightarrow> Sched" where
  "set_task i t sc = sc\<lparr>sc_tasks := (sc_tasks sc)[i := t]\<rparr>"

definition timed :: "Policy \<Rightarrow> bool" where
  "timed policy \<longleftrightarrow> policy \<noteq> Policy_Yield"

definition blank_task :: Task where
  "blank_task = \<lparr>tk_frame = zero_frame, tk_state = Task_Done, tk_level = 0, tk_slice = T,
     tk_allot = 2 * T, tk_timers = 0, tk_yields = 0, tk_syscalls = 0, tk_demotions = 0,
     tk_preemptions = 0, tk_first = None, tk_completion = 0, tk_ready_since = 0, tk_max_wait = 0\<rparr>"

fun push_all :: "nat list \<Rightarrow> Ready \<Rightarrow> Ready K" where
  "push_all [] q = kret q"
| "push_all (i # is) q = kbind (Ready_push q i) (\<lambda>(r, q).
     kthen (expect_ok r ''called `Result::unwrap()` on an `Err` value'') (push_all is q))"

fun pop_all :: "Task list \<Rightarrow> nat list \<Rightarrow> Ready \<Rightarrow> Ready K" where
  "pop_all tasks [] q = kret q"
| "pop_all tasks (i # is) q = kbind (Ready_pop q tasks False) (\<lambda>(r, q).
     kthen (kassert (r = Some i) ''assertion failed: probe.pop == Some(i)'') (pop_all tasks is q))"

definition probe_queue :: "Task list \<Rightarrow> unit K" where
  "probe_queue tasks =
     kbind (Ready_pop Ready_new tasks False) (\<lambda>(r, q).
     kthen (kassert (r = None) ''assertion failed: probe.pop(&tasks, false).is_none()'') (
     kbind (push_all [0] q) (\<lambda>q.
     kbind (Ready_push q 0) (\<lambda>(r, q).
     kthen (kassert (r = Inl ''duplicate task'') ''assertion failed: duplicate task'') (
     kbind (push_all [1..<N] q) (\<lambda>q.
     kbind (Ready_push q 0) (\<lambda>(r, q).
     kthen (kassert (r = Inl ''queue full'') ''assertion failed: queue full'') (
     kbind (pop_all tasks [0..<N] q) (\<lambda>q.
     kbind (Ready_pop q tasks False) (\<lambda>(r, q).
     kassert (r = None) ''assertion failed: probe.pop(&tasks, false).is_none()''))))))))))"

definition start_task :: "platform \<Rightarrow> usize \<Rightarrow> nat \<Rightarrow> Spec \<Rightarrow> Task \<Rightarrow> Task K" where
  "start_task pf base i spec t =
     kbind status (\<lambda>sstatus.
     kbind (stack_top pf i True) (\<lambda>top.
     kbind (arith_sub (overflow_checks pf) top 16) (\<lambda>user_sp.
     kbind (arith_add (overflow_checks pf) 65 (of_nat i)) (\<lambda>marker.
     kret (t\<lparr>tk_frame := (tk_frame t)\<lparr>
         tf_sstatus := sstatus,
         tf_sepc := (if sp_fault spec then symbol pf ''sched_fault'' else symbol pf ''sched_entry''),
         tf_x := (tf_x (tk_frame t))[2 := user_sp, 8 := marker, 9 := sp_iterations spec,
                   20 := sp_mode spec, 21 := symbol pf ''TIMER_DONE'']\<rparr>,
       tk_state := Task_Ready, tk_ready_since := base\<rparr>)))))"

fun start_tasks :: "platform \<Rightarrow> usize \<Rightarrow> (nat \<times> Spec) list \<Rightarrow> Sched \<Rightarrow> Sched K" where
  "start_tasks pf base [] sc = kret sc"
| "start_tasks pf base ((i, spec) # rest) sc =
     kbind (kindex (sc_tasks sc) i) (\<lambda>t.
     kbind (start_task pf base i spec t) (\<lambda>t.
     kbind (push_all [i] (sc_ready sc)) (\<lambda>q.
     start_tasks pf base rest (set_task i t (sc\<lparr>sc_ready := q\<rparr>)))))"

text \<open>The MLFQ priority boost: every live task back to level 0 with a fresh budget.\<close>

fun boost_all :: "Task list \<Rightarrow> Task list K" where
  "boost_all [] = kret []"
| "boost_all (t # ts) =
     kbind (if tk_state t \<noteq> Task_Done then budget (t\<lparr>tk_level := 0\<rparr>) else kret t) (\<lambda>t'.
     kbind (boost_all ts) (\<lambda>ts'. kret (t' # ts')))"

definition next_boost :: "platform \<Rightarrow> usize \<Rightarrow> usize \<Rightarrow> usize K" where
  "next_boost pf base time =
     kbind (arith_sub (overflow_checks pf) time base) (\<lambda>elapsed.
     kbind (arith_add (overflow_checks pf) (elapsed div (20 * T)) 1) (\<lambda>periods.
     kbind (arith_mul (overflow_checks pf) periods (20 * T)) (\<lambda>offset.
     kexpect (checked_add base offset) ''called `Option::unwrap()` on a `None` value'')))"

definition sched_boost :: "platform \<Rightarrow> Policy \<Rightarrow> nat \<Rightarrow> usize \<Rightarrow> Sched \<Rightarrow> Sched K" where
  "sched_boost pf policy count base sc =
     (if policy \<noteq> Policy_Mlfq then kret sc
      else kbind (now pf) (\<lambda>time.
        if time < sc_boost sc then kret sc
        else
          kthen (panic_if (count > length (sc_tasks sc)) ''range end index out of range for slice'') (
          kbind (boost_all (take count (sc_tasks sc))) (\<lambda>live.
          kbind (now pf) (\<lambda>time.
          kbind (next_boost pf base time) (\<lambda>boost.
          kret (sc\<lparr>sc_tasks := live @ drop count (sc_tasks sc), sc_boosts := sc_boosts sc + 1,
                   sc_boost := boost\<rparr>)))))))"

text \<open>Choosing a task when none is current; \<open>None\<close> is the \<^verbatim>\<open>break\<close>.\<close>

definition sched_dispatch :: "platform \<Rightarrow> Policy \<Rightarrow> Sched \<Rightarrow> (nat option \<times> Sched) K" where
  "sched_dispatch pf policy sc =
     (case sc_current sc of
        Some i \<Rightarrow> kret (Some i, sc)
      | None \<Rightarrow>
          kbind (Ready_pop (sc_ready sc) (sc_tasks sc) (policy = Policy_Mlfq)) (\<lambda>(r, q).
          case r of
            None \<Rightarrow> kret (None, sc\<lparr>sc_ready := q\<rparr>)
          | Some i \<Rightarrow>
              kbind (kindex (sc_tasks sc) i) (\<lambda>t.
              kbind (now pf) (\<lambda>time.
              kbind (after pf T) (\<lambda>deadline.
              kret (Some i, set_task i
                (t\<lparr>tk_state := Task_Running,
                   tk_max_wait := max (tk_max_wait t) (saturating_sub time (tk_ready_since t)),
                   tk_first := (case tk_first t of None \<Rightarrow> Some time | Some f \<Rightarrow> Some f)\<rparr>)
                (sc\<lparr>sc_ready := q, sc_current := Some i, sc_deadline := deadline,
                    sc_switches := sc_switches sc + 1\<rparr>)))))))"

definition sched_arm :: "platform \<Rightarrow> Policy \<Rightarrow> Task \<Rightarrow> Sched \<Rightarrow> Sched K" where
  "sched_arm pf policy t sc =
     (if \<not> timed policy then kret sc
      else
        kbind (if policy = Policy_Mlfq then
                 kbind (now pf) (\<lambda>time.
                 after pf (max (min (min (tk_slice t) (tk_allot t))
                                    (saturating_sub (sc_boost sc) time)) 1))
               else kret (sc_deadline sc)) (\<lambda>deadline.
        kthen (kwhen (\<not> (case policy of Policy_Timer limit \<Rightarrow> tk_timers t \<ge> limit | _ \<Rightarrow> False))
          (arm pf deadline))
        (kret (sc\<lparr>sc_deadline := deadline\<rparr>))))"

text \<open>
  Entering the task and returning with its event: the frame goes to the top of the task's
  trap stack, where \<^verbatim>\<open>run_task\<close> restores it from.  The handler always returns 1, so one
  trap ends the call.
\<close>

definition task_handler :: "platform \<Rightarrow> usize \<Rightarrow> usize K" where
  "task_handler pf = on_frame (sched_handle pf)"

definition sched_enter ::
  "platform \<Rightarrow> Policy \<Rightarrow> usize \<Rightarrow> nat \<Rightarrow> Sched \<Rightarrow> (usize \<times> Exchange \<times> Sched) K" where
  "sched_enter pf policy baseline i sc =
     kbind (stack_top pf i False) (\<lambda>top.
     kbind (arith_sub (overflow_checks pf) top (of_nat TRAP_FRAME_SIZE)) (\<lambda>frame_ptr.
     kbind (kindex (sc_tasks sc) i) (\<lambda>t.
     kthen (kmodify (\<lambda>s. s\<lparr>mem := store_frame (mem s) frame_ptr (tk_frame t),
         exchange := (exchange s)\<lparr>ex_expected := frame_ptr\<rparr>\<rparr>)) (
     kbind (sched_arm pf policy t sc) (\<lambda>sc.
     kbind (now pf) (\<lambda>entered.
     kbind (run_task 1 pf (task_handler pf) frame_ptr) (\<lambda>action.
     kthen (kassert (action = 1) ''assertion failed: run_task(frame_ptr) == 1'') (
     kbind read_sp (\<lambda>sp.
     kthen (kassert (sp = baseline) ''scheduler management stack drift'') (
     kbind (kgets exchange) (\<lambda>event.
     kret (entered, event, sc))))))))))))"

definition sched_account :: "Policy \<Rightarrow> usize \<Rightarrow> Exchange \<Rightarrow> nat \<Rightarrow> Sched \<Rightarrow> Sched K" where
  "sched_account policy entered event i sc =
     kbind (kindex (sc_tasks sc) i) (\<lambda>t.
     let t = t\<lparr>tk_frame := ex_frame event\<rparr> in
     if policy \<noteq> Policy_Mlfq then kret (set_task i t sc)
     else
       kbind (kexpect (checked_sub (ex_time event) entered) ''time went backwards'') (\<lambda>delta.
       let t = t\<lparr>tk_slice := saturating_sub (tk_slice t) delta\<rparr>;
           t = (if tk_level t < 2 then t\<lparr>tk_allot := saturating_sub (tk_allot t) delta\<rparr> else t)
       in kret (set_task i t sc)))"

definition finish_task :: "Exchange \<Rightarrow> nat \<Rightarrow> Task \<Rightarrow> Sched \<Rightarrow> Sched" where
  "finish_task event i t sc =
     set_task i (t\<lparr>tk_state := Task_Done, tk_completion := ex_time event\<rparr>) (sc\<lparr>sc_current := None\<rparr>)"

definition sched_event ::
  "platform \<Rightarrow> Policy \<Rightarrow> Spec list \<Rightarrow> Exchange \<Rightarrow> nat \<Rightarrow> Sched \<Rightarrow> (bool \<times> Sched) K" where
  "sched_event pf policy specs event i sc =
     kbind (kindex (sc_tasks sc) i) (\<lambda>t.
     case ex_reason event of
       Reason_Exit code \<Rightarrow>
         kthen (kassert (code = 0) ''user register/stack/checksum failure'')
         (kret (False, finish_task event i t sc))
     | Reason_Fault cause \<Rightarrow>
         kbind (kindex specs i) (\<lambda>spec.
         kthen (kassert (sp_fault spec \<and> cause = 2) ''unexpected task fault'')
         (kret (False, finish_task event i t sc)))
     | Reason_Yield \<Rightarrow> kret (True, set_task i (t\<lparr>tk_yields := tk_yields t + 1\<rparr>) sc)
     | Reason_Timer \<Rightarrow>
         let t = t\<lparr>tk_timers := tk_timers t + 1\<rparr>; sc = set_task i t sc in
         (case policy of
            Policy_Timer limit \<Rightarrow>
              if tk_timers t = limit then
                kthen (stop pf) (
                kthen (kmodify (\<lambda>s. s\<lparr>mem := store64 (mem s) (symbol pf ''TIMER_DONE'') 1\<rparr>))
                (kret (False, sc)))
              else kbind (after pf T) (\<lambda>deadline. kret (False, sc\<lparr>sc_deadline := deadline\<rparr>))
          | _ \<Rightarrow> kret (True, sc))
     | Reason_Syscall \<Rightarrow> kret (False, set_task i (t\<lparr>tk_syscalls := tk_syscalls t + 1\<rparr>) sc))"

definition sched_adjust ::
  "Policy \<Rightarrow> Exchange \<Rightarrow> nat \<Rightarrow> bool \<Rightarrow> Sched \<Rightarrow> (bool \<times> Sched) K" where
  "sched_adjust policy event i requeue sc =
     kbind (kindex (sc_tasks sc) i) (\<lambda>t.
     if tk_state t \<noteq> Task_Done \<and> policy = Policy_Mlfq then
       kbind (if tk_level t < 2 \<and> tk_allot t = 0 then
                kbind (budget (t\<lparr>tk_level := tk_level t + 1, tk_demotions := tk_demotions t + 1\<rparr>))
                  (\<lambda>t. kret (True, t))
              else if tk_slice t = 0 then
                kbind (kindex [T, 2 * T, 4 * T] (tk_level t)) (\<lambda>slice.
                kret (True, t\<lparr>tk_slice := slice\<rparr>))
              else kret (requeue, t)) (\<lambda>(requeue, t).
       kret (requeue \<or> ex_time event \<ge> sc_boost sc, set_task i t sc))
     else if tk_state t \<noteq> Task_Done \<and> policy = Policy_Rr \<and> ex_time event \<ge> sc_deadline sc then
       kret (True, sc)
     else kret (requeue, sc))"

definition sched_requeue ::
  "platform \<Rightarrow> Exchange \<Rightarrow> nat \<Rightarrow> bool \<Rightarrow> Sched \<Rightarrow> Sched K" where
  "sched_requeue pf event i requeue sc =
     (if \<not> requeue then kret sc
      else
        kbind (kindex (sc_tasks sc) i) (\<lambda>t.
        kbind (now pf) (\<lambda>time.
        kbind (push_all [i] (sc_ready sc)) (\<lambda>q.
        kret (set_task i
          (t\<lparr>tk_preemptions := tk_preemptions t +
               (if ex_reason event \<in> {Reason_Timer, Reason_Syscall} then 1 else 0),
             tk_state := Task_Ready, tk_ready_since := time\<rparr>)
          (sc\<lparr>sc_ready := q, sc_current := None\<rparr>))))))"

definition sched_trace :: "Exchange \<Rightarrow> nat \<Rightarrow> bool \<Rightarrow> Sched \<Rightarrow> Sched" where
  "sched_trace event i requeue sc =
     (if ex_reason event \<noteq> Reason_Syscall \<or> requeue then
        if length (sc_trace sc) < 64 then sc\<lparr>sc_trace := sc_trace sc @ [(i, ex_reason event)]\<rparr>
        else sc\<lparr>sc_dropped := sc_dropped sc + 1\<rparr>
      else sc)"

text \<open>What follows a task's event, and one pass of the loop; \<open>False\<close> is the \<^verbatim>\<open>break\<close>.\<close>

definition sched_serve ::
  "platform \<Rightarrow> Policy \<Rightarrow> Spec list \<Rightarrow> usize \<Rightarrow> Exchange \<Rightarrow> nat \<Rightarrow> Sched \<Rightarrow> Sched K" where
  "sched_serve pf policy specs entered event i sc =
     kbind (sched_account policy entered event i sc) (\<lambda>sc.
     kbind (sched_event pf policy specs event i sc) (\<lambda>(requeue, sc).
     kbind (sched_adjust policy event i requeue sc) (\<lambda>(requeue, sc).
     kbind (sched_requeue pf event i requeue sc) (\<lambda>sc.
     kret (sched_trace event i requeue sc)))))"

definition sched_step ::
  "platform \<Rightarrow> Policy \<Rightarrow> Spec list \<Rightarrow> usize \<Rightarrow> usize \<Rightarrow> Sched \<Rightarrow> (bool \<times> Sched) K" where
  "sched_step pf policy specs base baseline sc =
     kthen (Ready_check (sc_ready sc) (sc_tasks sc) (length specs)) (
     kbind (sched_boost pf policy (length specs) base sc) (\<lambda>sc.
     kbind (sched_dispatch pf policy sc) (\<lambda>(current, sc).
     case current of
       None \<Rightarrow> kret (False, sc)
     | Some i \<Rightarrow>
         kbind (sched_enter pf policy baseline i sc) (\<lambda>(entered, event, sc).
         kbind (sched_serve pf policy specs entered event i sc) (\<lambda>sc.
         kret (True, sc))))))"

fun sched_loop ::
  "nat \<Rightarrow> platform \<Rightarrow> Policy \<Rightarrow> Spec list \<Rightarrow> usize \<Rightarrow> usize \<Rightarrow> Sched \<Rightarrow> Sched K" where
  "sched_loop 0 pf policy specs base baseline sc = kstarve"
| "sched_loop (Suc n) pf policy specs base baseline sc =
     kbind (sched_step pf policy specs base baseline sc) (\<lambda>(again, sc).
     if again then sched_loop n pf policy specs base baseline sc else kret sc)"

section \<open>A batch of tasks\<close>

definition report_task :: "platform \<Rightarrow> Policy \<Rightarrow> Spec list \<Rightarrow> usize \<Rightarrow> nat \<Rightarrow> Task \<Rightarrow> unit K" where
  "report_task pf policy specs base i t =
     kthen (kassert (tk_state t = Task_Done) ''assertion failed: t.state == State::Done'') (
     kbind (kindex specs i) (\<lambda>spec.
     kthen (kassert (sp_mode spec = 4 \<longrightarrow>
         (case policy of Policy_Timer limit \<Rightarrow> tk_timers t = limit | _ \<Rightarrow> True))
       ''assertion failed: t.timers == limit'') (
     kthen (kassert (sp_mode spec = 2 \<and> policy = Policy_Mlfq \<longrightarrow> tk_demotions t > 0)
       ''yield escaped MLFQ accounting'') (
     kbind (kexpect (tk_first t) ''called `Option::unwrap()` on a `None` value'') (\<lambda>first.
     kbind (arith_sub (overflow_checks pf) first base) (\<lambda>response.
     kbind (arith_sub (overflow_checks pf) (tk_completion t) base) (\<lambda>turnaround.
     println (''[task] id='' @ fmt_nat i @ '' timers='' @ fmt_nat (tk_timers t)
       @ '' yields='' @ fmt_nat (tk_yields t) @ '' syscalls='' @ fmt_nat (tk_syscalls t)
       @ '' demotions='' @ fmt_nat (tk_demotions t) @ '' preemptions='' @ fmt_nat (tk_preemptions t)
       @ '' response='' @ fmt_dec response @ '' turnaround='' @ fmt_dec turnaround
       @ '' max_ready_wait='' @ fmt_dec (tk_max_wait t)))))))))"

definition batch_start :: "platform \<Rightarrow> string \<Rightarrow> Policy \<Rightarrow> Spec list \<Rightarrow> (usize \<times> Sched) K" where
  "batch_start pf name policy specs =
     kthen (kassert (specs \<noteq> [] \<and> length specs \<le> N)
       ''assertion failed: !specs.is_empty() && specs.len() <= N'') (
     kthen (kwhen (timed policy) (kthen (init_time pf) (stop pf))) (
     kthen (kmodify (\<lambda>s. s\<lparr>mem := store64 (write_zeros (mem s) (symbol pf ''STACKS'')
         (of_nat (2 * N * STACK))) (symbol pf ''TIMER_DONE'') 0\<rparr>)) (
     let tasks = replicate N blank_task in
     kthen (probe_queue tasks) (
     kbind (now pf) (\<lambda>base.
     kbind (kexpect (checked_add base (20 * T)) ''called `Option::unwrap()` on a `None` value'') (\<lambda>boost.
     kbind (start_tasks pf base (zip [0..<length specs] specs)
         \<lparr>sc_tasks = tasks, sc_ready = Ready_new, sc_boost = boost, sc_current = None,
          sc_deadline = 0, sc_switches = 0, sc_trace = [], sc_dropped = 0, sc_boosts = 0\<rparr>) (\<lambda>sc.
     kthen (println (''[schedule] begin='' @ name @ '' policy='' @ fmt_policy policy @ '' tasks=''
       @ fmt_nat (length specs)))
     (kret (base, sc)))))))))"

definition batch_report :: "platform \<Rightarrow> string \<Rightarrow> Policy \<Rightarrow> Spec list \<Rightarrow> usize \<Rightarrow> Sched \<Rightarrow> unit K" where
  "batch_report pf name policy specs base sc =
     kthen (kwhen (timed policy) (stop pf)) (
     kthen (println '''') (
     kthen (kfor (sc_trace sc) (\<lambda>(i, reason).
       println (''[switch] task='' @ fmt_nat i @ '' reason='' @ fmt_reason reason))) (
     kthen (panic_if (length specs > length (sc_tasks sc)) ''range end index out of range for slice'') (
     kthen (kfor (zip [0..<length specs] (take (length specs) (sc_tasks sc)))
       (\<lambda>(i, t). report_task pf policy specs base i t)) (
     kbind (csrr Sie) (\<lambda>sie.
     kthen (kassert (sie AND 32 = 0) ''assertion failed: sie & 32 == 0'')
     (println (''[schedule] complete='' @ name @ '' switches='' @ fmt_nat (sc_switches sc)
       @ '' boosts='' @ fmt_nat (sc_boosts sc) @ '' dropped='' @ fmt_nat (sc_dropped sc)
       @ '' stack_stable=true timer_off=true''))))))))"

definition batch :: "nat \<Rightarrow> platform \<Rightarrow> string \<Rightarrow> Policy \<Rightarrow> Spec list \<Rightarrow> unit K" where
  "batch fuel pf name policy specs =
     kbind (batch_start pf name policy specs) (\<lambda>(base, sc).
     kbind read_sp (\<lambda>baseline.
     kbind (sched_loop fuel pf policy specs base baseline sc)
       (batch_report pf name policy specs base)))"

section \<open>The four checkpoints\<close>

definition faulting_spec :: Spec where
  "faulting_spec = \<lparr>sp_mode = 1, sp_iterations = 0, sp_fault = True\<rparr>"

definition scheduler_run :: "nat \<Rightarrow> platform \<Rightarrow> unit K" where
  "scheduler_run fuel pf =
     kthen (kassert (length (filter (feature pf)
         [''lesson12-yield'', ''lesson13-timer'', ''lesson14-preemption'', ''lesson15-mlfq'']) = 1)
       ''assertion failed: exactly one scheduling checkpoint'') (
     kthen (
       if feature pf ''lesson12-yield'' then kseq
         [batch fuel pf ''alternating'' Policy_Yield (replicate 2 (Spec_new 0 3)),
          batch fuel pf ''single'' Policy_Yield [Spec_new 2 3],
          batch fuel pf ''stress'' Policy_Yield (replicate 2 (Spec_new 2 500)),
          batch fuel pf ''fault'' Policy_Yield [faulting_spec, Spec_new 2 3]]
       else if feature pf ''lesson13-timer'' then kseq
         [batch fuel pf ''one-shot'' (Policy_Timer 1) [Spec_new 4 0],
          batch fuel pf ''ten-timers'' (Policy_Timer 10) [Spec_new 4 0]]
       else
         let policy = (if feature pf ''lesson15-mlfq'' then Policy_Mlfq else Policy_Rr) in kseq
         [batch fuel pf ''compute'' policy (replicate 2 (Spec_new 1 2000000)),
          batch fuel pf ''single'' policy [Spec_new 1 1000000],
          batch fuel pf ''fault-exit'' policy [faulting_spec, Spec_new 1 1, Spec_new 1 1000000],
          batch fuel pf ''syscall'' policy [Spec_new 3 5000, Spec_new 1 1000000],
          kwhen (policy = Policy_Mlfq) (
            let workload = [Spec_new 2 5000, Spec_new 1 2000000] in
            kthen (batch fuel pf ''compare-rr'' Policy_Rr workload)
            (batch fuel pf ''compare-mlfq'' Policy_Mlfq workload))]) (
     kthen (println ''[schedule] stage-complete'')
     khalt))"

end
