(* ===== verification/Scheduler_Safety.thy ===== *)
theory Scheduler_Safety
  imports Scheduler
begin

unbundle bit_operations_syntax

text \<open>
  The scheduler keeps its own promises: the invariant that ties the ready queue, the task
  states and the current task together holds at the head of every pass of \<^verbatim>\<open>batch\<close>'s loop,
  so none of its consistency checks, index bounds and \<^verbatim>\<open>unwrap\<close>s of queue operations can
  fail, whatever the user programs, the clock and the firmware do.
\<close>

section \<open>The invariant\<close>

definition sched_inv :: "nat \<Rightarrow> Sched \<Rightarrow> bool" where
  "sched_inv count sc \<longleftrightarrow>
     count \<le> N \<and> length (sc_tasks sc) = N \<and> rq_ok (sc_ready sc)
     \<and> set (queued (sc_ready sc)) = {i. i < count \<and> tk_state (sc_tasks sc ! i) = Task_Ready}
     \<and> (\<forall>i < count. tk_state (sc_tasks sc ! i) = Task_Running \<longleftrightarrow> sc_current sc = Some i)
     \<and> (\<forall>i. sc_current sc = Some i \<longrightarrow> i < count)
     \<and> (\<forall>t \<in> set (sc_tasks sc). tk_level t \<le> 2)
     \<and> length (sc_trace sc) \<le> 64"

text \<open>The checks the code makes of its own data, by their messages.\<close>

definition scheduler_checks :: "string list" where
  "scheduler_checks =
     [''assertion failed: self.len <= count'',
      ''assertion failed: tasks[id].state == State::Ready'',
      ''assertion failed: queue occurrences'',
      ''assertion failed: at most one running task'',
      ''range end index out of range for slice'',
      ''index out of bounds'',
      ''called `Result::unwrap()` on an `Err` value'',
      ''assertion failed: probe.pop(&tasks, false).is_none()'',
      ''assertion failed: probe.pop == Some(i)'',
      ''assertion failed: duplicate task'',
      ''assertion failed: queue full'',
      ''assertion failed: t.state == State::Done'']"

definition tolerated :: "string \<Rightarrow> bool" where
  "tolerated e \<longleftrightarrow> e \<notin> set scheduler_checks"

lemma tolerated_panics [simp]:
  "tolerated ''attempt to subtract with overflow''"
  "tolerated ''attempt to add with overflow''"
  "tolerated ''attempt to multiply with overflow''"
  "tolerated ''called `Option::unwrap()` on a `None` value''"
  "tolerated ''timer deadline overflow''"
  "tolerated ''assertion failed: interval > 0''"
  "tolerated ''SBI TIME failed''"
  "tolerated ''SBI BASE probe failed''"
  "tolerated ''TIME extension unavailable''"
  "tolerated ''wrong task trap stack''"
  "tolerated ''kernel fault on user path''"
  "tolerated ''task PC escaped code''"
  "tolerated ''unexpected interrupt''"
  "tolerated ''ecall PC overflow''"
  "tolerated ''unexpected user exception''"
  "tolerated ''assertion failed: run_task(frame_ptr) == 1''"
  "tolerated ''scheduler management stack drift''"
  "tolerated ''time went backwards''"
  "tolerated ''user register/stack/checksum failure''"
  "tolerated ''unexpected task fault''"
  "tolerated ''assertion failed: t.timers == limit''"
  "tolerated ''yield escaped MLFQ accounting''"
  "tolerated ''assertion failed: !specs.is_empty() && specs.len() <= N''"
  "tolerated ''assertion failed: sie & 32 == 0''"
  "tolerated ''assertion failed: exactly one scheduling checkpoint''"
  by (simp_all add: tolerated_def scheduler_checks_def)

section \<open>The environment's operations\<close>

lemma env_kspec [kspecs]:
  "kspec (now pf) R E s = R (clock pf (time_reads s)) (s\<lparr>time_reads := Suc (time_reads s)\<rparr>)"
  "kspec (println txt) U E s = U () (s\<lparr>uart := uart s @ as_bytes txt @ [10]\<rparr>)"
  "kspec (csrr c) R E s = R (csrs s c) s"
  "kspec read_sp R E s = R (regs s 2) s"
  by (simp_all add: kspec_def krun csrr_def read_sp_def)

lemma dispatch_kspec [kspecs]:
  "kspec (dispatch n a) Q E s =
     Q (dispatch_outcome n a) (s\<lparr>uart := uart s @ dispatch_output n a\<rparr>)"
  by (simp add: kspec_def krun)

lemma after_tolerant: "(\<And>d s. Q d s) \<Longrightarrow> kspec (after pf i) Q tolerated s"
  by (simp add: after_def kspecs)

lemma set_timer_tolerant: "(\<And>s. Q () s) \<Longrightarrow> kspec (set_timer pf d) Q tolerated s"
  by (auto simp: set_timer_def sbi_call_def expect_ok_def kspec_def krun split: prod.split)

lemma sbi_tolerant:
  assumes "\<And>s. Q () s"
  shows "kspec (init_time pf) Q tolerated s" "kspec (stop pf) Q tolerated s"
    "kspec (arm pf d) Q tolerated s"
proof -
  show "kspec (init_time pf) Q tolerated s"
    using assms by (auto simp: init_time_def sbi_call_def expect_ok_def kspec_def krun split: prod.split)
  show "kspec (stop pf) Q tolerated s" "kspec (arm pf d) Q tolerated s"
    using assms by (auto simp: stop_def arm_def kspecs csr_clear_bits_def csr_set_bits_def
        intro!: set_timer_tolerant)
qed

lemma sret_tolerant: "(\<And>s. Q () s) \<Longrightarrow> kspec (sret_until_trap pf) Q tolerated s"
  by (auto simp: sret_until_trap_def kspec_def split: option.split)

lemma task_handler_tolerant: "(\<And>s. Q 1 s) \<Longrightarrow> kspec (task_handler pf addr) Q tolerated s"
  by (auto simp: task_handler_def on_frame_def sched_handle_def sched_reason_def kspecs Let_def
      split: SyscallOutcome.splits)

lemma run_task_tolerant:
  assumes "\<And>s. Q 1 s"
  shows "kspec (run_task (Suc 0) pf (task_handler pf) p) Q tolerated s"
proof -
  have "kspec (user_loop (Suc 0) pf (task_handler pf)) Q tolerated s" for s
    by (auto simp: kspecs assms intro!: sret_tolerant task_handler_tolerant)
  then show ?thesis by (simp add: run_task_def kspecs)
qed

section \<open>The loop's own checks\<close>

lemma count_list_distinct: "distinct xs \<Longrightarrow> count_list xs x = (if x \<in> set xs then 1 else 0)"
  by (induction xs) auto

lemma sched_inv_queue:
  assumes "sched_inv count sc"
  shows "rq_ok (sc_ready sc) \<and> length (sc_tasks sc) = N \<and> count \<le> N \<and> rq_len (sc_ready sc) \<le> count"
proof -
  have "set (queued (sc_ready sc)) \<subseteq> {..<count}" using assms by (auto simp: sched_inv_def)
  then have c: "card (set (queued (sc_ready sc))) \<le> count"
    using card_mono [of "{..<count}" "set (queued (sc_ready sc))"] by simp
  have ok: "rq_ok (sc_ready sc)" using assms by (simp add: sched_inv_def)
  then have "rq_len (sc_ready sc) \<le> count"
    using c distinct_card [of "queued (sc_ready sc)"] length_queued by (simp add: rq_ok_def)
  then show ?thesis using assms ok by (simp add: sched_inv_def)
qed

lemma one_running:
  assumes "sched_inv count sc"
  shows "length (filter (\<lambda>t. tk_state t = Task_Running) (take count (sc_tasks sc))) \<le> 1"
proof -
  let ?R = "{i. i < length (take count (sc_tasks sc))
    \<and> tk_state (take count (sc_tasks sc) ! i) = Task_Running}"
  have "?R \<subseteq> set_option (sc_current sc)" using assms by (auto simp: sched_inv_def)
  moreover have "finite (set_option (sc_current sc))" "card (set_option (sc_current sc)) \<le> 1"
    by (cases "sc_current sc"; simp)+
  ultimately show ?thesis
    unfolding length_filter_conv_card by (meson card_mono le_trans)
qed

lemma Ready_check_run:
  assumes "sched_inv count sc"
  shows "Ready_check (sc_ready sc) (sc_tasks sc) count s = Ret () s"
proof -
  let ?q = "sc_ready sc" and ?ts = "sc_tasks sc"
  note q = sched_inv_queue [OF assms]
  have "kfor (queued ?q) (\<lambda>tid. kbind (kindex ?ts tid) (\<lambda>t.
      kassert (tk_state t = Task_Ready) ''assertion failed: tasks[id].state == State::Ready'')) s
    = Ret () s" (is "?a s = _")
  proof -
    have "kfor xs (\<lambda>tid. kbind (kindex ?ts tid) (\<lambda>t.
      kassert (tk_state t = Task_Ready) ''assertion failed: tasks[id].state == State::Ready'')) s
    = Ret () s" if "\<forall>i \<in> set xs. i < length ?ts \<and> tk_state (?ts ! i) = Task_Ready" for xs
      using that by (induction xs) (simp_all add: krun)
    then show ?thesis using assms by (auto simp: sched_inv_def)
  qed
  moreover have "kfor (take count (zip [0..<length ?ts] ?ts)) (\<lambda>(tid, t).
      kassert (count_list (queued ?q) tid = (if tk_state t = Task_Ready then 1 else 0))
        ''assertion failed: queue occurrences'') s = Ret () s"
  proof -
    have "kfor xs (\<lambda>(tid, t).
      kassert (count_list (queued ?q) tid = (if tk_state t = Task_Ready then 1 else 0))
        ''assertion failed: queue occurrences'') s = Ret () s"
      if "\<forall>(tid, t) \<in> set xs. tid \<in> set (queued ?q) \<longleftrightarrow> tk_state t = Task_Ready" for xs
      using that q by (induction xs) (auto simp: krun count_list_distinct rq_ok_def)
    moreover have "\<forall>(tid, t) \<in> set (take count (zip [0..<length ?ts] ?ts)).
        tid \<in> set (queued ?q) \<longleftrightarrow> tk_state t = Task_Ready"
      using assms by (auto simp: sched_inv_def in_set_conv_nth)
    ultimately show ?thesis by blast
  qed
  ultimately show ?thesis
    using one_running [OF assms] q by (simp add: Ready_check_def slice_ok_def krun rq_ok_def)
qed

lemma Ready_check_passes:
  "sched_inv count sc \<Longrightarrow> kspec (Ready_check (sc_ready sc) (sc_tasks sc) count) Q E s = Q () s"
  by (rule kspec_Ret) (rule Ready_check_run)

section \<open>Every step of the loop keeps the invariant\<close>

text \<open>While a task runs: the invariant with the running task named.\<close>

definition runs :: "nat \<Rightarrow> nat \<Rightarrow> Sched \<Rightarrow> bool" where
  "runs count i sc \<longleftrightarrow> sched_inv count sc \<and> sc_current sc = Some i"

lemma runsD:
  "runs count i sc \<Longrightarrow> i < count \<and> i < N \<and> i < length (sc_tasks sc) \<and> i \<notin> set (queued (sc_ready sc))
     \<and> tk_state (sc_tasks sc ! i) = Task_Running \<and> tk_level (sc_tasks sc ! i) \<le> 2"
  by (auto simp: runs_def sched_inv_def)

lemma set_task_simps [simp]:
  "sc_tasks (set_task i t sc) = (sc_tasks sc)[i := t]"
  "sc_ready (set_task i t sc) = sc_ready sc"
  "sc_current (set_task i t sc) = sc_current sc"
  "sc_boost (set_task i t sc) = sc_boost sc"
  "sc_deadline (set_task i t sc) = sc_deadline sc"
  "sc_trace (set_task i t sc) = sc_trace sc"
  by (simp_all add: set_task_def)

lemma set_update_level:
  "\<forall>t \<in> set ts. tk_level t \<le> 2 \<Longrightarrow> tk_level u \<le> 2 \<Longrightarrow> \<forall>t \<in> set (ts[i := u]). tk_level t \<le> 2"
  using set_update_subset_insert [of ts i u] by blast

lemma sched_inv_update:
  assumes "sched_inv count sc" and "tk_state t = tk_state (sc_tasks sc ! i)" and "tk_level t \<le> 2"
  shows "sched_inv count (set_task i t sc)"
  using assms set_update_level [of "sc_tasks sc" t i]
  by (cases "i < length (sc_tasks sc)") (auto simp: sched_inv_def nth_list_update)

lemma sched_inv_fields [simp]:
  "sched_inv count (sc\<lparr>sc_boost := b\<rparr>) = sched_inv count sc"
  "sched_inv count (sc\<lparr>sc_deadline := d\<rparr>) = sched_inv count sc"
  "sched_inv count (sc\<lparr>sc_switches := n\<rparr>) = sched_inv count sc"
  "sched_inv count (sc\<lparr>sc_boosts := n\<rparr>) = sched_inv count sc"
  "sched_inv count (sc\<lparr>sc_dropped := n\<rparr>) = sched_inv count sc"
  by (simp_all add: sched_inv_def)

lemma runs_update:
  "runs count i sc \<Longrightarrow> tk_state t = Task_Running \<Longrightarrow> tk_level t \<le> 2 \<Longrightarrow> runs count i (set_task i t sc)"
  using sched_inv_update [of count sc t i] runsD [of count i sc] by (simp add: runs_def)

lemma runs_deadline [simp]: "runs count i (sc\<lparr>sc_deadline := d\<rparr>) = runs count i sc"
  by (simp add: runs_def)

lemma finish_task_inv:
  assumes "runs count i sc" and "tk_level t \<le> 2"
  shows "sched_inv count (finish_task event i t sc)"
  using assms runsD [OF assms(1)]
    set_update_level [of "sc_tasks sc" "t\<lparr>tk_state := Task_Done, tk_completion := ex_time event\<rparr>" i]
  by (auto simp: finish_task_def runs_def sched_inv_def nth_list_update)

lemma budget_kspec [kspecs]:
  "tk_level t \<le> 2 \<Longrightarrow> kspec (budget t) Q E s =
     Q (t\<lparr>tk_slice := [T, 2 * T, 4 * T] ! tk_level t, tk_allot := [2 * T, 4 * T, - 1] ! tk_level t\<rparr>) s"
  by (simp add: budget_def kspecs)

lemma push_all_one:
  assumes "rq_ok q" and "i < N" and "i \<notin> set (queued q)"
    and "\<And>q'. rq_ok q' \<Longrightarrow> queued q' = queued q @ [i] \<Longrightarrow> Q q' s"
  shows "kspec (push_all [i] q) Q E s"
  using rq.push_appends [OF assms(1-3), of s] assms(4)
  by (auto simp: kspec_def krun expect_ok_def)

lemma requeue_inv:
  assumes "runs count i sc" and "rq_ok q" and "queued q = queued (sc_ready sc) @ [i]"
    and "tk_state t = Task_Ready" and "tk_level t \<le> 2"
  shows "sched_inv count (set_task i t (sc\<lparr>sc_ready := q, sc_current := None\<rparr>))"
  using assms runsD [OF assms(1)] set_update_level [of "sc_tasks sc" t i]
  by (auto simp: runs_def sched_inv_def nth_list_update)

lemma dispatch_inv:
  assumes inv: "sched_inv count sc" and cur: "sc_current sc = None" and ok: "rq_ok q"
    and q: "queued (sc_ready sc) = before @ i # behind" "queued q = before @ behind"
    and t: "tk_state t = Task_Running" "tk_level t \<le> 2"
  shows "runs count i (set_task i t (sc\<lparr>sc_ready := q, sc_current := Some i, sc_deadline := d,
    sc_switches := n\<rparr>))"
proof -
  have "set (queued q) = set (queued (sc_ready sc)) - {i}" and i: "i \<in> set (queued (sc_ready sc))"
    using q inv by (auto simp: sched_inv_def rq_ok_def)
  then show ?thesis
    using inv cur ok t set_update_level [of "sc_tasks sc" t i]
    by (auto simp: runs_def sched_inv_def nth_list_update)
qed

definition boosted :: "Task \<Rightarrow> Task" where
  "boosted t = (if tk_state t = Task_Done then t
     else t\<lparr>tk_level := 0, tk_slice := T, tk_allot := 2 * T\<rparr>)"

lemma boost_all_run [krun]: "boost_all ts s = Ret (map boosted ts) s"
  by (induction ts) (simp_all add: krun budget_def boosted_def)

lemma next_boost_tolerant: "(\<And>b. Q b s) \<Longrightarrow> kspec (next_boost pf base time) Q tolerated s"
  by (simp add: next_boost_def kspecs)

lemma boosted_inv:
  assumes "sched_inv count sc"
  shows "sched_inv count
    (sc\<lparr>sc_tasks := map boosted (take count (sc_tasks sc)) @ drop count (sc_tasks sc)\<rparr>)"
proof -
  let ?ts = "map boosted (take count (sc_tasks sc)) @ drop count (sc_tasks sc)"
  note q = sched_inv_queue [OF assms]
  have "tk_state (?ts ! i) = tk_state (sc_tasks sc ! i)" if "i < count" for i
    using that q by (simp add: nth_append boosted_def)
  moreover have "\<forall>t \<in> set ?ts. tk_level t \<le> 2"
    using assms by (auto simp: sched_inv_def boosted_def dest: in_set_takeD in_set_dropD)
  ultimately show ?thesis using assms q by (auto simp: sched_inv_def)
qed

text \<open>A boost changes levels and budgets only.\<close>

definition refreshed :: "Sched \<Rightarrow> Sched \<Rightarrow> bool" where
  "refreshed sc sc' \<longleftrightarrow> sc_ready sc' = sc_ready sc \<and> sc_current sc' = sc_current sc
     \<and> map tk_state (sc_tasks sc') = map tk_state (sc_tasks sc)"

lemma boosted_state [simp]: "tk_state (boosted t) = tk_state t"
  by (simp add: boosted_def)

lemma split_states: "map tk_state (take n ts) @ map tk_state (drop n ts) = map tk_state ts"
  by (simp flip: map_append)

lemma sched_boost_keeps:
  assumes inv: "sched_inv count sc"
    and Q: "\<And>sc' s. sched_inv count sc' \<Longrightarrow> refreshed sc sc' \<Longrightarrow> Q sc' s"
  shows "kspec (sched_boost pf policy count base sc) Q tolerated s"
proof -
  note q = sched_inv_queue [OF inv]
  have "kspec (boost_all (take count (sc_tasks sc))) Q' E s
      = Q' (map boosted (take count (sc_tasks sc))) s" for Q' :: "Task list \<Rightarrow> machine \<Rightarrow> bool" and E s
    by (rule kspec_Ret) (rule boost_all_run)
  then show ?thesis
    using boosted_inv [OF inv] q
    by (auto simp: sched_boost_def kspecs inv refreshed_def comp_def split_states
        intro!: Q next_boost_tolerant simp del: append_take_drop_id)
qed

text \<open>The task that is current stays so, or one of the queue takes its place.\<close>

definition dispatched_task :: "Policy \<Rightarrow> nat \<Rightarrow> Sched \<Rightarrow> Sched \<Rightarrow> bool" where
  "dispatched_task policy i sc sc' \<longleftrightarrow>
     (if sc_current sc = None
      then \<exists>before behind. queued (sc_ready sc) = before @ i # behind
             \<and> queued (sc_ready sc') = before @ behind \<and> (policy \<noteq> Policy_Mlfq \<longrightarrow> before = [])
             \<and> sc_current sc' = Some i
             \<and> map tk_state (sc_tasks sc') = (map tk_state (sc_tasks sc))[i := Task_Running]
      else sc' = sc \<and> sc_current sc = Some i)"

lemma sched_dispatch_keeps:
  assumes inv: "sched_inv count sc"
    and none: "\<And>s. sc_current sc = None \<Longrightarrow> queued (sc_ready sc) = [] \<Longrightarrow> Q (None, sc) s"
    and some: "\<And>i sc' s. runs count i sc' \<Longrightarrow> dispatched_task policy i sc sc' \<Longrightarrow> Q (Some i, sc') s"
  shows "kspec (sched_dispatch pf policy sc) Q tolerated s"
proof (cases "sc_current sc")
  case (Some i)
  then show ?thesis using some inv by (simp add: sched_dispatch_def kspecs runs_def dispatched_task_def)
next
  case None
  note q = sched_inv_queue [OF inv]
  show ?thesis
  proof (cases rule: rq.pop_cases [of "sc_ready sc" "sc_tasks sc" "policy = Policy_Mlfq" s,
        case_names ok len none some])
    case ok
    then show ?case using q by simp
  next
    case len
    then show ?case using q by simp
  next
    case none
    have "kspec (Ready_pop (sc_ready sc) (sc_tasks sc) (policy = Policy_Mlfq)) R E s
        = R (None, sc_ready sc) s" for R E
      by (rule kspec_Ret) (rule none(2))
    then show ?thesis using assms(2) [of s] none(1) None
      by (simp add: sched_dispatch_def kspecs)
  next
    case (some i q' before behind)
    have lv: "tk_level (sc_tasks sc ! i) \<le> 2" using inv some(5) by (simp add: sched_inv_def)
    have "kspec (Ready_pop (sc_ready sc) (sc_tasks sc) (policy = Policy_Mlfq)) R E s
        = R (Some i, q') s" for R E
      by (rule kspec_Ret) (rule some(1))
    moreover have "dispatched_task policy i sc (set_task i t (sc\<lparr>sc_ready := q', sc_current := Some i,
        sc_deadline := d, sc_switches := n\<rparr>))" if "tk_state t = Task_Running" for t d n
      using None that some(3,4,6) by (auto simp: dispatched_task_def map_update split: if_splits)
    moreover have "i < length (sc_tasks sc)" using q some(5) by simp
    ultimately show ?thesis
      using None lv by (auto simp: sched_dispatch_def kspecs
          intro!: after_tolerant assms(3) dispatch_inv [OF inv None some(2-4)])
  qed
qed

lemma sched_arm_keeps:
  assumes "runs count i sc" and "\<And>d s. Q (sc\<lparr>sc_deadline := d\<rparr>) s"
  shows "kspec (sched_arm pf policy t sc) Q tolerated s"
  using assms(1) assms(2) [of "sc_deadline sc"] assms(2)
  by (auto simp: sched_arm_def kspecs Let_def intro!: after_tolerant sbi_tolerant)

lemma stack_top_tolerant: "i < N \<Longrightarrow> (\<And>top. Q top s) \<Longrightarrow> kspec (stack_top pf i user) Q tolerated s"
  by (simp add: stack_top_def kspecs)

lemma sched_enter_keeps:
  assumes "runs count i sc" and "\<And>entered event d s. Q (entered, event, sc\<lparr>sc_deadline := d\<rparr>) s"
  shows "kspec (sched_enter pf policy baseline i sc) Q tolerated s"
  using assms runsD [OF assms(1)]
  by (auto simp: sched_enter_def kspecs intro!: stack_top_tolerant run_task_tolerant
      sched_arm_keeps [OF assms(1)])

section \<open>Serving an event\<close>

abbreviation goes_on :: "Reason \<Rightarrow> bool" where
  "goes_on reason \<equiv> reason \<in> {Reason_Yield, Reason_Timer, Reason_Syscall}"

text \<open>While the event of task \<open>i\<close> is served, only that task changes and takes over the event's frame.\<close>

definition serving :: "nat \<Rightarrow> Exchange \<Rightarrow> Sched \<Rightarrow> Sched \<Rightarrow> bool" where
  "serving i event sc0 sc \<longleftrightarrow> sc_ready sc = sc_ready sc0
     \<and> length (sc_tasks sc) = length (sc_tasks sc0)
     \<and> (\<forall>j. j \<noteq> i \<longrightarrow> sc_tasks sc ! j = sc_tasks sc0 ! j)
     \<and> tk_frame (sc_tasks sc ! i) = ex_frame event"

lemma serving_update:
  "serving i event sc0 sc \<Longrightarrow> tk_frame t = ex_frame event \<Longrightarrow> serving i event sc0 (set_task i t sc)"
  by (cases "i < length (sc_tasks sc)") (auto simp: serving_def list_update_beyond)

lemma serving_fields [simp]:
  "serving i event sc0 (sc\<lparr>sc_deadline := d\<rparr>) = serving i event sc0 sc"
  "serving i event sc0 (sc\<lparr>sc_current := c\<rparr>) = serving i event sc0 sc"
  by (simp_all add: serving_def)

definition served :: "nat \<Rightarrow> nat \<Rightarrow> Exchange \<Rightarrow> bool \<Rightarrow> Sched \<Rightarrow> Sched \<Rightarrow> bool" where
  "served count i event requeue sc0 sc \<longleftrightarrow> serving i event sc0 sc
     \<and> (if goes_on (ex_reason event) then runs count i sc
        else \<not> requeue \<and> sched_inv count sc \<and> i < count \<and> sc_current sc = None
             \<and> tk_state (sc_tasks sc ! i) = Task_Done)"

lemma sched_account_keeps:
  assumes "runs count i sc"
    and "\<And>sc' s. runs count i sc' \<Longrightarrow> serving i event sc sc' \<Longrightarrow> Q sc' s"
  shows "kspec (sched_account policy entered event i sc) Q tolerated s"
proof -
  have "serving i event sc (set_task i t sc)" if "tk_frame t = ex_frame event" for t
    using that runsD [OF assms(1)] by (simp add: serving_def)
  then show ?thesis
    using runsD [OF assms(1)]
    by (auto simp: sched_account_def kspecs Let_def intro!: assms(2) runs_update [OF assms(1)])
qed

lemma sched_event_keeps:
  assumes r: "runs (length specs) i sc" and sv: "serving i event sc0 sc"
    and Q: "\<And>requeue sc' s. served (length specs) i event requeue sc0 sc' \<Longrightarrow> Q (requeue, sc') s"
  shows "kspec (sched_event pf policy specs event i sc) Q tolerated s"
proof -
  note b = runsD [OF r]
  have frame: "tk_frame (sc_tasks sc ! i) = ex_frame event" using sv by (simp add: serving_def)
  have fin: "served (length specs) i event False sc0 (finish_task event i (sc_tasks sc ! i) sc)"
    if "\<not> goes_on (ex_reason event)"
    using finish_task_inv [OF r] b that sv frame
    by (simp add: served_def finish_task_def serving_update)
  have upd: "served (length specs) i event requeue sc0 (set_task i t sc)"
    if "tk_state t = Task_Running" "tk_level t \<le> 2" "tk_frame t = ex_frame event"
      "goes_on (ex_reason event)" for t requeue
    using runs_update [OF r that(1,2)] serving_update [OF sv that(3)] that(4)
    by (simp only: served_def if_True simp_thms)
  have dl: "served (length specs) i event False sc0 (sc'\<lparr>sc_deadline := d\<rparr>)"
    if "served (length specs) i event False sc0 sc'" for sc' d
    using that by (simp add: served_def)
  show ?thesis
    using b fin upd frame
    by (auto simp: sched_event_def kspecs Let_def intro!: Q dl after_tolerant sbi_tolerant
        split: Reason.split Policy.split)
qed

lemma sched_adjust_keeps:
  assumes r: "served count i event requeue sc0 sc"
    and Q: "\<And>requeue' sc' s. served count i event requeue' sc0 sc' \<Longrightarrow> Q (requeue', sc') s"
  shows "kspec (sched_adjust policy event i requeue sc) Q tolerated s"
proof (cases "goes_on (ex_reason event)")
  case False
  moreover have "i < length (sc_tasks sc)" using r False by (auto simp: served_def sched_inv_def)
  moreover have "tk_state (sc_tasks sc ! i) = Task_Done" using r False by (auto simp: served_def)
  ultimately show ?thesis using r Q by (simp add: sched_adjust_def kspecs)
next
  case True
  then have r': "runs count i sc" and sv: "serving i event sc0 sc" using r by (auto simp: served_def)
  note b = runsD [OF r']
  have frame: "tk_frame (sc_tasks sc ! i) = ex_frame event" using sv by (simp add: serving_def)
  have upd: "served count i event requeue' sc0 (set_task i t sc)"
    if "tk_state t = Task_Running" "tk_level t \<le> 2" "tk_frame t = ex_frame event" for t requeue'
    using runs_update [OF r' that(1,2)] serving_update [OF sv that(3)] True
    by (simp only: served_def if_True simp_thms)
  have "served count i event requeue' sc0 sc" for requeue' using r' sv True by (auto simp: served_def)
  then show ?thesis
    using b upd frame by (auto simp: sched_adjust_def kspecs intro!: Q)
qed

text \<open>
  After the event: the task goes on running, is at the end of the queue, or is done; it is
  done exactly after an exit or a fault.
\<close>

definition after_event :: "nat \<Rightarrow> nat \<Rightarrow> Exchange \<Rightarrow> Sched \<Rightarrow> Sched \<Rightarrow> bool" where
  "after_event count i event sc0 sc \<longleftrightarrow>
     sched_inv count sc \<and> i < count \<and> length (sc_tasks sc) = length (sc_tasks sc0)
     \<and> (\<forall>j. j \<noteq> i \<longrightarrow> sc_tasks sc ! j = sc_tasks sc0 ! j)
     \<and> tk_frame (sc_tasks sc ! i) = ex_frame event
     \<and> (tk_state (sc_tasks sc ! i) = Task_Done \<longleftrightarrow> \<not> goes_on (ex_reason event))
     \<and> sc_current sc = (if tk_state (sc_tasks sc ! i) = Task_Running then Some i else None)
     \<and> queued (sc_ready sc) = queued (sc_ready sc0)
         @ (if tk_state (sc_tasks sc ! i) = Task_Ready then [i] else [])"

lemma sched_requeue_keeps:
  assumes r: "served count i event requeue sc0 sc"
    and Q: "\<And>sc' s. after_event count i event sc0 sc' \<Longrightarrow> Q sc' s"
  shows "kspec (sched_requeue pf event i requeue sc) Q tolerated s"
proof (cases requeue)
  case False
  have "after_event count i event sc0 sc"
  proof (cases "goes_on (ex_reason event)")
    case True
    then have "runs count i sc" "serving i event sc0 sc" using r by (auto simp: served_def)
    then show ?thesis using runsD [of count i sc] True
      by (simp add: serving_def after_event_def) (simp add: runs_def)
  next
    case f: False
    then show ?thesis using r unfolding served_def if_not_P [OF f]
      by (simp add: serving_def after_event_def)
  qed
  then show ?thesis using False Q by (simp add: sched_requeue_def kspecs)
next
  case True
  then have r': "runs count i sc" and sv: "serving i event sc0 sc" and g: "goes_on (ex_reason event)"
    using r by (auto simp: served_def split: if_splits)
  note b = runsD [OF r']
  have "rq_ok (sc_ready sc)" using r' by (simp add: runs_def sched_inv_def)
  moreover have "after_event count i event sc0 (set_task i t (sc\<lparr>sc_ready := q, sc_current := None\<rparr>))"
    if "rq_ok q" "queued q = queued (sc_ready sc) @ [i]" "tk_state t = Task_Ready" "tk_level t \<le> 2"
      "tk_frame t = ex_frame event" for q t
    using requeue_inv [OF r' that(1-4)] that b sv g
    by (auto simp: after_event_def serving_def)
  moreover have "tk_frame (sc_tasks sc ! i) = ex_frame event" using sv by (simp add: serving_def)
  ultimately show ?thesis
    using True b
    by (auto simp: sched_requeue_def kspecs simp del: push_all.simps intro!: push_all_one Q)
qed

lemma trace_simps [simp]:
  "sc_tasks (sched_trace event i requeue sc) = sc_tasks sc"
  "sc_ready (sched_trace event i requeue sc) = sc_ready sc"
  "sc_current (sched_trace event i requeue sc) = sc_current sc"
  "sc_deadline (sched_trace event i requeue sc) = sc_deadline sc"
  by (simp_all add: sched_trace_def)

lemma sched_trace_keeps:
  "after_event count i event sc0 sc \<Longrightarrow> after_event count i event sc0 (sched_trace event i requeue sc)"
proof -
  have "sched_inv count sc \<Longrightarrow> sched_inv count (sched_trace event i requeue sc)"
    by (simp add: sched_trace_def sched_inv_def)
  then show "after_event count i event sc0 sc \<Longrightarrow> after_event count i event sc0 (sched_trace event i requeue sc)"
    by (simp add: after_event_def)
qed

lemma sched_serve_keeps:
  assumes "runs (length specs) i sc"
    and "\<And>sc' s. after_event (length specs) i event sc sc' \<Longrightarrow> Q sc' s"
  shows "kspec (sched_serve pf policy specs entered event i sc) Q tolerated s"
  unfolding sched_serve_def kspecs prod.case
  apply (rule sched_account_keeps [OF assms(1)])
  apply (rule sched_event_keeps, assumption+)
  apply (simp only: kspecs prod.case)
  apply (rule sched_adjust_keeps, assumption)
  apply (simp only: kspecs prod.case)
  apply (rule sched_requeue_keeps, assumption)
  apply (rule assms(2), rule sched_trace_keeps, assumption)
  done

text \<open>One pass: the invariant again, and at the \<^verbatim>\<open>break\<close> every task is done.\<close>

definition all_done :: "nat \<Rightarrow> Sched \<Rightarrow> bool" where
  "all_done count sc \<longleftrightarrow> (\<forall>i < count. tk_state (sc_tasks sc ! i) = Task_Done)"

lemma idle_all_done:
  assumes "sched_inv count sc" and "sc_current sc = None" and "queued (sc_ready sc) = []"
  shows "all_done count sc"
proof -
  have "tk_state (sc_tasks sc ! i) = Task_Done" if "i < count" for i
    using assms that by (cases "tk_state (sc_tasks sc ! i)") (auto simp: sched_inv_def)
  then show ?thesis by (simp add: all_done_def)
qed

text \<open>What one pass does: a boost perhaps, a dispatch perhaps, and one task's event.\<close>

definition one_pass :: "nat \<Rightarrow> Policy \<Rightarrow> Sched \<Rightarrow> Sched \<Rightarrow> bool" where
  "one_pass count policy sc sc' \<longleftrightarrow> (\<exists>sc1 sc2 i event d. refreshed sc sc1
     \<and> dispatched_task policy i sc1 sc2 \<and> runs count i sc2
     \<and> after_event count i event (sc2\<lparr>sc_deadline := d\<rparr>) sc')"

lemma sched_step_keeps:
  assumes inv: "sched_inv (length specs) sc"
    and again: "\<And>sc' s. one_pass (length specs) policy sc sc' \<Longrightarrow> sched_inv (length specs) sc' \<Longrightarrow> Q (True, sc') s"
    and break: "\<And>sc' s. refreshed sc sc' \<Longrightarrow> sched_inv (length specs) sc' \<Longrightarrow> sc_current sc' = None
      \<Longrightarrow> queued (sc_ready sc') = [] \<Longrightarrow> Q (False, sc') s"
  shows "kspec (sched_step pf policy specs base baseline sc) Q tolerated s"
proof -
  have pass: "one_pass (length specs) policy sc sc'" "sched_inv (length specs) sc'"
    if "refreshed sc sc1" "dispatched_task policy i sc1 sc2" "runs (length specs) i sc2"
      "after_event (length specs) i event (sc2\<lparr>sc_deadline := d\<rparr>) sc'" for sc1 sc2 i event d sc'
    using that unfolding one_pass_def by (blast, simp add: after_event_def)
  show ?thesis
    unfolding sched_step_def kspecs Ready_check_passes [OF inv]
    apply (rule sched_boost_keeps [OF inv])
    apply (rule sched_dispatch_keeps, assumption)
     apply (simp add: kspecs break)
    apply (simp only: prod.case option.case kspecs)
    apply (rule sched_enter_keeps, assumption)
    apply (simp only: prod.case kspecs)
    apply (rule sched_serve_keeps, simp)
    apply (simp only: kspecs)
    apply (blast intro: again pass)
    done
qed

lemma sched_loop_keeps:
  assumes "sched_inv (length specs) sc"
    and "\<And>sc' s. sched_inv (length specs) sc' \<Longrightarrow> all_done (length specs) sc' \<Longrightarrow> Q sc' s"
  shows "kspec (sched_loop n pf policy specs base baseline sc) Q tolerated s"
  using assms(1)
proof (induction n arbitrary: sc s)
  case 0
  then show ?case by (simp add: kspecs)
next
  case (Suc n)
  show ?case
    using Suc.IH assms(2)
    by (auto simp: kspecs intro!: sched_step_keeps [OF Suc.prems] assms(2) idle_all_done)
qed

text \<open>
  C17: the scheduler's state is well formed and every pass of its loop keeps it so: the queue
  holds the identifiers of exactly the ready tasks, each once and within the array, the
  running task is the current one, levels and trace stay within their bounds.  A pass that
  ends the loop leaves every task done, and no pass fails one of the scheduler's own checks,
  whatever the user programs, the clock and the firmware do.
\<close>

theorem sched_step_well_formed:
  assumes "sched_inv (length specs) sc"
  shows "case sched_step pf policy specs base baseline sc s of
      Ret (go_on, sc') s' \<Rightarrow> sched_inv (length specs) sc' \<and> (\<not> go_on \<longrightarrow> all_done (length specs) sc')
    | Panicked e s' \<Rightarrow> e \<notin> set scheduler_checks
    | Halted s' \<Rightarrow> True
    | NoFuel \<Rightarrow> True"
proof -
  have "kspec (sched_step pf policy specs base baseline sc)
      (\<lambda>(go_on, sc') _. sched_inv (length specs) sc' \<and> (\<not> go_on \<longrightarrow> all_done (length specs) sc')) tolerated s"
    by (rule sched_step_keeps [OF assms]) (auto intro: idle_all_done)
  then show ?thesis by (auto simp: kspec_def tolerated_def split: outcome.splits)
qed

section \<open>A whole batch\<close>

lemma probe_queue_passes [krun]: "probe_queue tasks s = Ret () s"
  by (simp add: probe_queue_def krun Ready_pop_def Ready_push_def Ready_new_def N_def slice_ok_def
      queued_def expect_ok_def copy_within_def upt_rec numeral_eq_Suc)

text \<open>The local variables after the first \<open>k\<close> tasks have been set up.\<close>

definition started :: "nat \<Rightarrow> Sched \<Rightarrow> bool" where
  "started k sc \<longleftrightarrow>
     length (sc_tasks sc) = N \<and> rq_ok (sc_ready sc) \<and> queued (sc_ready sc) = [0..<k]
     \<and> (\<forall>i < N. tk_state (sc_tasks sc ! i) = (if i < k then Task_Ready else Task_Done))
     \<and> (\<forall>t \<in> set (sc_tasks sc). tk_level t \<le> 2) \<and> sc_current sc = None \<and> sc_trace sc = []"

lemma started_inv: "started k sc \<Longrightarrow> k \<le> N \<Longrightarrow> sched_inv k sc"
  by (auto simp: started_def sched_inv_def)

lemma started_next:
  assumes "started k sc" and "k < N" and "rq_ok q" and "queued q = queued (sc_ready sc) @ [k]"
    and "tk_state t = Task_Ready" and "tk_level t \<le> 2"
  shows "started (Suc k) (set_task k t (sc\<lparr>sc_ready := q\<rparr>))"
  using assms set_update_level [of "sc_tasks sc" t k]
  by (auto simp: started_def nth_list_update)

lemma start_task_keeps:
  assumes "i < N"
    and "\<And>t' s. tk_state t' = Task_Ready \<Longrightarrow> tk_level t' = tk_level t \<Longrightarrow> Q t' s"
  shows "kspec (start_task pf base i spec t) Q tolerated s"
  using assms by (auto simp: start_task_def status_def kspecs intro!: stack_top_tolerant)

lemma start_tasks_keeps:
  assumes "started k sc" and "k + length specs \<le> N"
    and "\<And>sc' s. started (k + length specs) sc' \<Longrightarrow> Q sc' s"
  shows "kspec (start_tasks pf base (zip [k..<k + length specs] specs) sc) Q tolerated s"
  using assms
proof (induction specs arbitrary: k sc s)
  case Nil
  then show ?case by (simp add: kspecs)
next
  case (Cons spec specs)
  have k: "k < N" using Cons.prems(2) by simp
  have st: "length (sc_tasks sc) = N" "rq_ok (sc_ready sc)" "k \<notin> set (queued (sc_ready sc))"
    "tk_level (sc_tasks sc ! k) \<le> 2"
    using Cons.prems(1) k by (simp_all add: started_def)
  have split: "zip [k..<k + length (spec # specs)] (spec # specs)
      = (k, spec) # zip [Suc k..<Suc (k + length specs)] specs"
    by (simp add: upt_conv_Cons del: upt_Suc)
  have rest: "kspec (start_tasks pf base (zip [Suc k..<Suc (k + length specs)] specs) sc') Q tolerated s'"
    if "started (Suc k) sc'" for sc' s'
    using Cons.IH [of "Suc k" sc' s'] that Cons.prems by simp
  show ?case
    unfolding split using st k
    by (auto simp: kspecs simp del: push_all.simps upt_Suc
        intro!: start_task_keeps push_all_one rest started_next [OF Cons.prems(1)])
qed

lemma init_tasks_started:
  "started 0 \<lparr>sc_tasks = replicate N blank_task, sc_ready = Ready_new, sc_boost = b, sc_current = None,
     sc_deadline = 0, sc_switches = 0, sc_trace = [], sc_dropped = 0, sc_boosts = 0\<rparr>"
  using rq.empty_ok by (auto simp: started_def blank_task_def)

lemma batch_start_keeps:
  assumes "\<And>base sc s. started (length specs) sc \<Longrightarrow> sched_inv (length specs) sc \<Longrightarrow> Q (base, sc) s"
  shows "kspec (batch_start pf name policy specs) Q tolerated s"
proof -
  have "kspec (probe_queue ts) R E s = R () s" for ts R E s
    by (rule kspec_Ret) (rule probe_queue_passes)
  moreover have start: "kspec (start_tasks pf base (zip [0..<length specs] specs)
      \<lparr>sc_tasks = replicate N blank_task, sc_ready = Ready_new, sc_boost = b, sc_current = None,
       sc_deadline = 0, sc_switches = 0, sc_trace = [], sc_dropped = 0, sc_boosts = 0\<rparr>) R tolerated s"
    if "length specs \<le> N" "\<And>sc s. started (length specs) sc \<Longrightarrow> sched_inv (length specs) sc \<Longrightarrow> R sc s"
    for base b R s
    using start_tasks_keeps [OF init_tasks_started, of specs R pf base b s] that started_inv by auto
  ultimately show ?thesis
    by (auto simp: batch_start_def kspecs Let_def simp del: append_Cons
        intro!: sbi_tolerant start assms)
qed

lemma report_task_keeps:
  assumes "tk_state t = Task_Done" and "i < length specs"
  shows "kspec (report_task pf policy specs base i t) (\<lambda>_ _. True) tolerated s"
  using assms by (simp add: report_task_def kspecs del: append_Cons)

lemma batch_report_keeps:
  assumes inv: "sched_inv (length specs) sc" and "all_done (length specs) sc" and Q: "\<And>s. Q () s"
  shows "kspec (batch_report pf name policy specs base sc) Q tolerated s"
proof -
  let ?xs = "zip [0..<length specs] (take (length specs) (sc_tasks sc))"
  note q = sched_inv_queue [OF inv]
  have "kspec (case x of (i, t) \<Rightarrow> report_task pf policy specs base i t) (\<lambda>_ _. True) tolerated s"
    if "x \<in> set ?xs" for x s
    using that assms(2) q
    by (auto simp: in_set_conv_nth all_done_def intro!: report_task_keeps)
  then have "kspec (kfor ?xs (\<lambda>(i, t). report_task pf policy specs base i t)) (\<lambda>_ _. True) tolerated s" for s
    by (intro kspec_kfor) auto
  then have reports: "kspec (kfor ?xs (\<lambda>(i, t). report_task pf policy specs base i t)) R tolerated s"
    if "\<And>s. R () s" for R s
    by (rule kspec_mono) (use that in auto)
  have "kspec (kfor (sc_trace sc) (\<lambda>(i, reason).
      println (''[switch] task='' @ fmt_nat i @ '' reason='' @ fmt_reason reason))) (\<lambda>_ _. True) tolerated s" for s
    by (intro kspec_kfor) (auto simp: kspecs simp del: append_Cons)
  then have traces: "kspec (kfor (sc_trace sc) (\<lambda>(i, reason).
      println (''[switch] task='' @ fmt_nat i @ '' reason='' @ fmt_reason reason))) R tolerated s"
    if "\<And>s. R () s" for R s
    by (rule kspec_mono) (use that in auto)
  then show ?thesis
    using q by (auto simp: batch_report_def kspecs Q simp del: append_Cons intro!: sbi_tolerant reports traces)
qed

lemma batch_keeps: "(\<And>s. Q () s) \<Longrightarrow> kspec (batch fuel pf name policy specs) Q tolerated s"
  by (auto simp: batch_def kspecs intro!: batch_start_keeps sched_loop_keeps batch_report_keeps)


end
