(* ===== verification/Scheduler_Laws.thy ===== *)
theory Scheduler_Laws
  imports Scheduler_Safety
begin

unbundle bit_operations_syntax

text \<open>
  What the policies of \<^verbatim>\<open>src/scheduler.rs\<close> promise: boost deadlines, the choice of the next
  task, MLFQ's accounting, and the two timer policies.
\<close>

section \<open>Boost deadlines\<close>

lemma unat_T [simp]: "unat T = 10000" "unat (20 * T) = 200000" "unat (2 * T) = 20000" "unat (4 * T) = 40000"
  by (simp_all add: T_def)

lemma next_multiple:
  fixes e p :: nat
  assumes "0 < p"
  shows "e < (e div p + 1) * p" and "(e div p + 1) * p \<le> e + p"
proof -
  have "(e div p + 1) * p = e div p * p + p" by simp
  moreover have "e div p * p + e mod p = e" by (rule div_mult_mod_eq)
  ultimately show "e < (e div p + 1) * p" and "(e div p + 1) * p \<le> e + p"
    using mod_less_divisor [OF assms, of e] by linarith+
qed

lemma next_boost_run:
  assumes "base \<le> time" and "unat time + unat (20 * T) < 2 ^ 64"
  shows "\<exists>boost. next_boost pf base time s = Ret boost s \<and> time < boost \<and> boost \<le> time + 20 * T
    \<and> base \<le> boost \<and> unat (20 * T) dvd unat (boost - base)"
proof -
  define e where "e = unat time - unat base"
  let ?n = "(e div 200000 + 1) * 200000"
  have le: "unat base \<le> unat time" using assms(1) by (simp add: word_le_nat_alt)
  have te: "unat time = unat base + e" using le by (simp add: e_def)
  have ue: "unat (time - base) = e" using assms(1) by (simp add: e_def unat_sub_le)
  have n: "e < ?n" "?n \<le> e + 200000"
    using next_multiple [of 200000 e] by simp_all
  have sum: "unat base + ?n < 2 ^ 64" using n(2) assms(2) le by (simp add: e_def)
  let ?q = "(time - base) div (20 * T)"
  have uq: "unat ?q = e div 200000" by (simp add: unat_div ue)
  have uq1: "unat (?q + 1) = e div 200000 + 1"
    using sum uq by (subst unat_add_no_overflow) simp_all
  have off: "unat ((?q + 1) * (20 * T)) = ?n"
    using sum uq1 iffD1 [OF unat_mult_lem, of "?q + 1" "20 * T"] by simp
  have b: "unat (base + (?q + 1) * (20 * T)) = unat base + ?n"
    using sum off by (subst unat_add_no_overflow) simp_all
  have t20: "unat (time + 20 * T) = unat time + 200000"
    using assms(2) by (subst unat_add_no_overflow) simp_all
  have run: "next_boost pf base time s = Ret (base + (?q + 1) * (20 * T)) s"
    using assms(1) sum uq uq1 off by (simp add: next_boost_def krun checked_add_def)
  have "unat (base + (?q + 1) * (20 * T) - base) = ?n" using off by simp
  then have "unat (20 * T) dvd unat (base + (?q + 1) * (20 * T) - base)" by simp
  moreover have "time < base + (?q + 1) * (20 * T)"
    "base + (?q + 1) * (20 * T) \<le> time + 20 * T" "base \<le> base + (?q + 1) * (20 * T)"
    unfolding word_less_nat_alt word_le_nat_alt b t20 using n te by linarith+
  ultimately show ?thesis using run by blast
qed

text \<open>
  C31: the next boost lies strictly in the future, at most one period of 20 quanta ahead, and
  on the grid of periods counted from the start of the batch, for every time at which a
  period still fits into 64 bits, with or without overflow checks.
\<close>

theorem next_boost_future:
  assumes "base \<le> time" and "unat time + unat (20 * T) < 2 ^ 64"
  shows "\<exists>boost. next_boost pf base time s = Ret boost s \<and> time < boost \<and> boost \<le> time + 20 * T
    \<and> base \<le> boost \<and> unat (20 * T) dvd unat (boost - base)"
  using assms by (rule next_boost_run)

section \<open>MLFQ's accounting\<close>

text \<open>
  What a task is charged for \<open>d\<close> ticks of CPU time: below the lowest level the allotment of
  its level shrinks, whatever ended the run, and once it is used up the task moves down one
  level; a used-up slice is renewed without touching the allotment.
\<close>

definition quantum :: "nat \<Rightarrow> usize" where "quantum l = [T, 2 * T, 4 * T] ! l"

definition allotment :: "nat \<Rightarrow> usize" where "allotment l = [2 * T, 4 * T, - 1] ! l"

definition mlfq_charge :: "usize \<Rightarrow> Task \<Rightarrow> Task" where
  "mlfq_charge d t =
     (let slice = saturating_sub (tk_slice t) d;
          allot = (if tk_level t < 2 then saturating_sub (tk_allot t) d else tk_allot t) in
      if tk_level t < 2 \<and> allot = 0
      then t\<lparr>tk_level := tk_level t + 1, tk_demotions := tk_demotions t + 1,
             tk_slice := quantum (tk_level t + 1), tk_allot := allotment (tk_level t + 1)\<rparr>
      else t\<lparr>tk_slice := (if slice = 0 then quantum (tk_level t) else slice), tk_allot := allot\<rparr>)"

lemma wp_push_one:
  assumes "rq_ok q" and "i < N" and "i \<notin> set (queued q)"
    and "\<And>q'. rq_ok q' \<Longrightarrow> queued q' = queued q @ [i] \<Longrightarrow> Q q' s"
  shows "wp (push_all [i] q) Q H s"
  using rq.push_appends [OF assms(1-3), of s] assms(4)
  by (auto simp: wp_def krun expect_ok_def)

lemma budget_run [krun]:
  "tk_level t \<le> 2 \<Longrightarrow> budget t s =
     Ret (t\<lparr>tk_slice := quantum (tk_level t), tk_allot := allotment (tk_level t)\<rparr>) s"
  by (simp add: budget_def krun quantum_def allotment_def)

lemma wp_requeue:
  assumes "runs count i sc"
    and "\<And>q. queued q = queued (sc_ready sc) @ [i] \<Longrightarrow>
      Q (set_task i ((sc_tasks sc ! i)\<lparr>
          tk_preemptions := tk_preemptions (sc_tasks sc ! i)
            + (if ex_reason event \<in> {Reason_Timer, Reason_Syscall} then 1 else 0),
          tk_state := Task_Ready, tk_ready_since := clock pf (time_reads s)\<rparr>)
        (sc\<lparr>sc_ready := q, sc_current := None\<rparr>)) (s\<lparr>time_reads := Suc (time_reads s)\<rparr>)"
  shows "wp (sched_requeue pf event i True sc) Q H s"
  using runsD [OF assms(1)] assms
  by (auto simp: sched_requeue_def wps runs_def sched_inv_def simp del: push_all.simps
      intro!: wp_push_one)

text \<open>The steps after an event that leaves the task alive, as functions on the task.\<close>

definition use_time :: "Exchange \<Rightarrow> usize \<Rightarrow> Task \<Rightarrow> Task" where
  "use_time event d t = t\<lparr>tk_frame := ex_frame event, tk_slice := saturating_sub (tk_slice t) d,
     tk_allot := (if tk_level t < 2 then saturating_sub (tk_allot t) d else tk_allot t)\<rparr>"

definition count_event :: "Reason \<Rightarrow> Task \<Rightarrow> Task" where
  "count_event reason t = (case reason of
     Reason_Yield \<Rightarrow> t\<lparr>tk_yields := tk_yields t + 1\<rparr>
   | Reason_Timer \<Rightarrow> t\<lparr>tk_timers := tk_timers t + 1\<rparr>
   | Reason_Syscall \<Rightarrow> t\<lparr>tk_syscalls := tk_syscalls t + 1\<rparr>
   | _ \<Rightarrow> t)"

definition renew :: "Task \<Rightarrow> Task" where
  "renew t =
     (if tk_level t < 2 \<and> tk_allot t = 0
      then t\<lparr>tk_level := tk_level t + 1, tk_demotions := tk_demotions t + 1,
             tk_slice := quantum (tk_level t + 1), tk_allot := allotment (tk_level t + 1)\<rparr>
      else t\<lparr>tk_slice := (if tk_slice t = 0 then quantum (tk_level t) else tk_slice t)\<rparr>)"

lemma set_task_again [simp]: "set_task i t (set_task i u sc) = set_task i t sc"
  by (simp add: set_task_def)

lemma mlfq_account_run:
  "i < length (sc_tasks sc) \<Longrightarrow> entered \<le> ex_time event \<Longrightarrow>
   sched_account Policy_Mlfq entered event i sc s =
     Ret (set_task i (use_time event (ex_time event - entered) (sc_tasks sc ! i)) sc) s"
  by (simp add: sched_account_def krun checked_sub_def Let_def use_time_def)

lemma mlfq_event_run:
  "i < length (sc_tasks sc) \<Longrightarrow> goes_on (ex_reason event) \<Longrightarrow>
   sched_event pf Policy_Mlfq specs event i sc s =
     Ret (ex_reason event \<noteq> Reason_Syscall,
          set_task i (count_event (ex_reason event) (sc_tasks sc ! i)) sc) s"
  by (auto simp: sched_event_def krun Let_def count_event_def)

lemma mlfq_adjust_run:
  "i < length (sc_tasks sc) \<Longrightarrow> tk_state (sc_tasks sc ! i) \<noteq> Task_Done \<Longrightarrow>
   tk_level (sc_tasks sc ! i) \<le> 2 \<Longrightarrow>
   sched_adjust Policy_Mlfq event i requeue sc s =
     Ret (requeue \<or> tk_level (renew (sc_tasks sc ! i)) \<noteq> tk_level (sc_tasks sc ! i)
            \<or> tk_slice (sc_tasks sc ! i) = 0 \<or> sc_boost sc \<le> ex_time event,
          set_task i (renew (sc_tasks sc ! i)) sc) s"
  by (auto simp: sched_adjust_def krun renew_def quantum_def)

lemma renew_charge:
  "let t' = renew (count_event reason (use_time event d t)); c = mlfq_charge d t in
     tk_level t' = tk_level c \<and> tk_slice t' = tk_slice c \<and> tk_allot t' = tk_allot c
     \<and> tk_demotions t' = tk_demotions c \<and> tk_frame t' = ex_frame event \<and> tk_state t' = tk_state t"
  by (auto simp: renew_def count_event_def use_time_def mlfq_charge_def Let_def split: Reason.split)

lemma charge_level: "tk_level t \<le> 2 \<Longrightarrow> tk_level (mlfq_charge d t) \<le> 2"
  by (auto simp: mlfq_charge_def Let_def)

lemma saturating_sub_zero [simp]: "saturating_sub x y = 0 \<longleftrightarrow> x \<le> y" for x y :: usize
  by (auto simp: saturating_sub_def)

text \<open>
  C11: the accounting of \<^verbatim>\<open>batch\<close> is this charge, for a yield and an ordinary system call as
  much as for a timer interrupt, so giving the CPU up early never refreshes an allotment;
  the task goes back to the queue exactly when it yielded or was interrupted, moved down a
  level, used its slice up, or a boost is due, and no other task is touched.
\<close>

theorem mlfq_accounting:
  fixes event :: Exchange
  assumes r: "runs (length specs) i sc" and time: "entered \<le> ex_time event"
    and reason: "goes_on (ex_reason event)"
  defines "t \<equiv> sc_tasks sc ! i" and "c \<equiv> mlfq_charge (ex_time event - entered) (sc_tasks sc ! i)"
  shows "\<exists>sc' s'. sched_serve pf Policy_Mlfq specs entered event i sc s = Ret sc' s'
    \<and> tk_level (sc_tasks sc' ! i) = tk_level c \<and> tk_slice (sc_tasks sc' ! i) = tk_slice c
    \<and> tk_allot (sc_tasks sc' ! i) = tk_allot c \<and> tk_demotions (sc_tasks sc' ! i) = tk_demotions c
    \<and> tk_frame (sc_tasks sc' ! i) = ex_frame event
    \<and> (tk_state (sc_tasks sc' ! i) = Task_Ready \<longleftrightarrow>
         ex_reason event \<noteq> Reason_Syscall \<or> tk_level c \<noteq> tk_level t
         \<or> tk_slice t \<le> ex_time event - entered \<or> sc_boost sc \<le> ex_time event)
    \<and> (\<forall>j. j \<noteq> i \<longrightarrow> sc_tasks sc' ! j = sc_tasks sc ! j)"
proof -
  note b = runsD [OF r]
  let ?d = "ex_time event - entered"
  define t1 where "t1 = use_time event ?d t"
  define t2 where "t2 = count_event (ex_reason event) t1"
  have t1: "tk_state t1 = tk_state t" "tk_level t1 = tk_level t" "tk_slice t1 = saturating_sub (tk_slice t) ?d"
    by (simp_all add: t1_def use_time_def)
  have t2: "tk_state t2 = tk_state t" "tk_level t2 = tk_level t" "tk_slice t2 = saturating_sub (tk_slice t) ?d"
    by (simp_all add: t2_def count_event_def t1 split: Reason.split)
  have t3: "tk_level (renew t2) = tk_level c" "tk_slice (renew t2) = tk_slice c"
    "tk_allot (renew t2) = tk_allot c" "tk_demotions (renew t2) = tk_demotions c"
    "tk_frame (renew t2) = ex_frame event" "tk_state (renew t2) = tk_state t"
    using renew_charge [of "ex_reason event" event ?d t]
    by (simp_all add: Let_def t1_def t2_def c_def t_def)
  define requeue where "requeue \<longleftrightarrow> ex_reason event \<noteq> Reason_Syscall \<or> tk_level c \<noteq> tk_level t
     \<or> tk_slice t \<le> ?d \<or> sc_boost sc \<le> ex_time event"
  have level: "tk_level (renew t2) \<le> 2" using b charge_level by (simp add: t3 c_def)
  let ?sc = "set_task i (renew t2) sc"
  have serve: "sched_serve pf Policy_Mlfq specs entered event i sc s =
    kbind (sched_requeue pf event i requeue ?sc) (\<lambda>sc. kret (sched_trace event i requeue sc)) s"
    using b time reason
    by (simp add: sched_serve_def krun mlfq_account_run mlfq_event_run mlfq_adjust_run
        t1_def [symmetric] t2_def [symmetric] t1 t2 t3 t_def [symmetric] requeue_def disj_assoc)
  have run: "runs (length specs) i ?sc"
    using runs_update [OF r, of "renew t2"] t3 level b by (simp add: t_def)
  show ?thesis
  proof (cases requeue)
    case False
    then show ?thesis using b t3 serve
      by (auto simp: krun sched_requeue_def requeue_def t_def)
  next
    case True
    have "wp (sched_requeue pf event i True ?sc) (\<lambda>sc' s'.
        (tk_level (sc_tasks sc' ! i) = tk_level c \<and> tk_slice (sc_tasks sc' ! i) = tk_slice c
        \<and> tk_allot (sc_tasks sc' ! i) = tk_allot c \<and> tk_demotions (sc_tasks sc' ! i) = tk_demotions c
        \<and> tk_frame (sc_tasks sc' ! i) = ex_frame event)
        \<and> tk_state (sc_tasks sc' ! i) = Task_Ready
        \<and> (\<forall>j. j \<noteq> i \<longrightarrow> sc_tasks sc' ! j = sc_tasks sc ! j)) (\<lambda>_. False) s"
      using b t3 by (intro wp_requeue [OF run]) simp
    then show ?thesis
      using True serve by (elim wp_return_cases) (simp add: krun requeue_def)
  qed
qed

text \<open>Charges accumulate: once they sum up to the allotment of its level, the task has moved down.\<close>

lemma charge_level_mono: "tk_level t \<le> tk_level (fold mlfq_charge ds t)"
proof (induction ds arbitrary: t)
  case Nil
  then show ?case by simp
next
  case (Cons d ds)
  have "tk_level t \<le> tk_level (mlfq_charge d t)" by (simp add: mlfq_charge_def Let_def)
  then show ?case using Cons.IH [of "mlfq_charge d t"] by simp
qed

lemma charges_demote:
  "tk_level t < 2 \<Longrightarrow> 0 < unat (tk_allot t) \<Longrightarrow> unat (tk_allot t) \<le> (\<Sum>d\<leftarrow>ds. unat d) \<Longrightarrow>
   tk_level t < tk_level (fold mlfq_charge ds t)"
proof (induction ds arbitrary: t)
  case Nil
  then show ?case by simp
next
  case (Cons d ds)
  let ?c = "mlfq_charge d t"
  show ?case
  proof (cases "tk_allot t \<le> d")
    case True
    then have "tk_level t < tk_level ?c" using Cons.prems(1) by (simp add: mlfq_charge_def Let_def)
    also have "\<dots> \<le> tk_level (fold mlfq_charge ds ?c)" by (rule charge_level_mono)
    finally show ?thesis by simp
  next
    case False
    then have c: "tk_level ?c = tk_level t" "tk_allot ?c = saturating_sub (tk_allot t) d"
      using Cons.prems(1) by (simp_all add: mlfq_charge_def Let_def)
    have "unat d < unat (tk_allot t)" using False by (simp add: word_le_nat_alt)
    then show ?thesis
      using Cons.IH [of ?c] Cons.prems by (simp add: c unat_saturating_sub)
  qed
qed

section \<open>The next task\<close>

lemma sched_dispatch_run:
  assumes "sc_current sc = None" and "i < length (sc_tasks sc)"
    and "Ready_pop (sc_ready sc) (sc_tasks sc) (policy = Policy_Mlfq) s = Ret (Some i, q) s"
    and "unat (clock pf (Suc (time_reads s))) + unat T < 2 ^ 64"
  shows "sched_dispatch pf policy sc s =
     Ret (Some i, set_task i ((sc_tasks sc ! i)\<lparr>tk_state := Task_Running,
           tk_max_wait := max (tk_max_wait (sc_tasks sc ! i))
             (saturating_sub (clock pf (time_reads s)) (tk_ready_since (sc_tasks sc ! i))),
           tk_first := (case tk_first (sc_tasks sc ! i) of
               None \<Rightarrow> Some (clock pf (time_reads s)) | Some f \<Rightarrow> Some f)\<rparr>)
         (sc\<lparr>sc_ready := q, sc_current := Some i,
             sc_deadline := clock pf (Suc (time_reads s)) + T, sc_switches := sc_switches sc + 1\<rparr>))
       (s\<lparr>time_reads := Suc (Suc (time_reads s))\<rparr>)"
proof -
  have "0 < T" by (simp add: T_def)
  then show ?thesis
    using assms by (simp add: sched_dispatch_def krun after_def checked_add_def)
qed

text \<open>
  C12: with no current task and a non-empty queue the loop takes the first task of the queue,
  or under MLFQ the first one of the least level, removes just that one, makes it the only
  running task, and gives it a deadline of one quantum from now; its first dispatch time is
  recorded once and its longest wait kept.
\<close>

theorem dispatch_choice:
  assumes inv: "sched_inv count sc" and idle: "sc_current sc = None"
    and ready: "queued (sc_ready sc) \<noteq> []"
    and clk: "unat (clock pf (Suc (time_reads s))) + unat T < 2 ^ 64"
  shows "\<exists>i before behind sc' s'. sched_dispatch pf policy sc s = Ret (Some i, sc') s'
    \<and> queued (sc_ready sc) = before @ i # behind \<and> queued (sc_ready sc') = before @ behind
    \<and> (if policy = Policy_Mlfq
       then (\<forall>j \<in> set before. tk_level (sc_tasks sc ! i) < tk_level (sc_tasks sc ! j))
            \<and> (\<forall>j \<in> set behind. tk_level (sc_tasks sc ! i) \<le> tk_level (sc_tasks sc ! j))
       else before = [])
    \<and> sc_current sc' = Some i \<and> sched_inv count sc'
    \<and> sc_deadline sc' = clock pf (Suc (time_reads s)) + T
    \<and> tk_first (sc_tasks sc' ! i) \<noteq> None
    \<and> (tk_first (sc_tasks sc ! i) \<noteq> None \<longrightarrow> tk_first (sc_tasks sc' ! i) = tk_first (sc_tasks sc ! i))
    \<and> tk_max_wait (sc_tasks sc ! i) \<le> tk_max_wait (sc_tasks sc' ! i)"
proof -
  note q = sched_inv_queue [OF inv]
  obtain i q' before behind where pop:
      "Ready_pop (sc_ready sc) (sc_tasks sc) (policy = Policy_Mlfq) s = Ret (Some i, q') s" "rq_ok q'"
      "queued (sc_ready sc) = before @ i # behind" "queued q' = before @ behind"
      "if policy = Policy_Mlfq
       then (\<forall>j \<in> set before. tk_level (sc_tasks sc ! i) < tk_level (sc_tasks sc ! j))
            \<and> (\<forall>j \<in> set behind. tk_level (sc_tasks sc ! i) \<le> tk_level (sc_tasks sc ! j))
       else before = []"
    using rq.pop_some [of "sc_ready sc" "sc_tasks sc" "policy = Policy_Mlfq" s] q ready by blast
  have mem: "i \<in> set (queued (sc_ready sc))" using pop(3) by simp
  then have "i < count" using inv by (simp add: sched_inv_def)
  then have i: "i < length (sc_tasks sc)" "tk_level (sc_tasks sc ! i) \<le> 2" "i < count"
    using inv by (auto simp: sched_inv_def)
  show ?thesis
    by (intro exI conjI, rule sched_dispatch_run [OF idle i(1) pop(1) clk], rule pop(3))
      (use pop(4,5) dispatch_inv [OF inv idle pop(2-4)] i in
        \<open>auto simp: runs_def split: option.split\<close>)
qed

section \<open>Round robin and one-shot timers\<close>

lemma account_run:
  "policy \<noteq> Policy_Mlfq \<Longrightarrow> i < length (sc_tasks sc) \<Longrightarrow>
   sched_account policy entered event i sc s =
     Ret (set_task i ((sc_tasks sc ! i)\<lparr>tk_frame := ex_frame event\<rparr>) sc) s"
  by (simp add: sched_account_def krun Let_def)

lemma rr_event_run:
  "i < length (sc_tasks sc) \<Longrightarrow> goes_on (ex_reason event) \<Longrightarrow>
   sched_event pf Policy_Rr specs event i sc s =
     Ret (ex_reason event \<noteq> Reason_Syscall,
          set_task i (count_event (ex_reason event) (sc_tasks sc ! i)) sc) s"
  by (auto simp: sched_event_def krun Let_def count_event_def)

lemma count_event_keeps [simp]:
  "tk_state (count_event r t) = tk_state t" "tk_level (count_event r t) = tk_level t"
  "tk_frame (count_event r t) = tk_frame t"
  by (simp_all add: count_event_def split: Reason.split)

text \<open>
  C28: under round robin a task that yields or is interrupted goes to the end of the queue; an
  ordinary system call returns to the same task with the same absolute deadline, unless that
  deadline has passed, in which case it is preempted as if by the timer.
\<close>

theorem rr_time_slice:
  assumes r: "runs (length specs) i sc" and reason: "goes_on (ex_reason event)"
  shows "\<exists>sc' s'. sched_serve pf Policy_Rr specs entered event i sc s = Ret sc' s'
    \<and> tk_frame (sc_tasks sc' ! i) = ex_frame event \<and> sc_deadline sc' = sc_deadline sc
    \<and> (if ex_reason event \<noteq> Reason_Syscall \<or> sc_deadline sc \<le> ex_time event
       then sc_current sc' = None \<and> tk_state (sc_tasks sc' ! i) = Task_Ready
            \<and> queued (sc_ready sc') = queued (sc_ready sc) @ [i]
       else sc_current sc' = Some i \<and> tk_state (sc_tasks sc' ! i) = Task_Running
            \<and> sc_ready sc' = sc_ready sc)
    \<and> (\<forall>j. j \<noteq> i \<longrightarrow> sc_tasks sc' ! j = sc_tasks sc ! j)"
proof -
  note b = runsD [OF r]
  define t where "t = count_event (ex_reason event) ((sc_tasks sc ! i)\<lparr>tk_frame := ex_frame event\<rparr>)"
  have t: "tk_state t = Task_Running" "tk_level t \<le> 2" "tk_frame t = ex_frame event"
    using b by (simp_all add: t_def)
  let ?sc = "set_task i t sc"
  define requeue where "requeue \<longleftrightarrow> ex_reason event \<noteq> Reason_Syscall \<or> sc_deadline sc \<le> ex_time event"
  have run: "runs (length specs) i ?sc" by (rule runs_update [OF r t(1,2)])
  have "sched_adjust Policy_Rr event i (ex_reason event \<noteq> Reason_Syscall) ?sc s = Ret (requeue, ?sc) s"
    using b t by (auto simp: sched_adjust_def krun requeue_def)
  then have serve: "sched_serve pf Policy_Rr specs entered event i sc s =
    kbind (sched_requeue pf event i requeue ?sc) (\<lambda>sc. kret (sched_trace event i requeue sc)) s"
    using b reason by (simp add: sched_serve_def krun account_run rr_event_run t_def)
  show ?thesis
  proof (cases requeue)
    case False
    then show ?thesis using b r t serve by (auto simp: krun sched_requeue_def requeue_def runs_def)
  next
    case True
    have "wp (sched_requeue pf event i True ?sc) (\<lambda>sc' s'. tk_frame (sc_tasks sc' ! i) = ex_frame event
        \<and> sc_deadline sc' = sc_deadline sc \<and> sc_current sc' = None
        \<and> tk_state (sc_tasks sc' ! i) = Task_Ready \<and> queued (sc_ready sc') = queued (sc_ready sc) @ [i]
        \<and> (\<forall>j. j \<noteq> i \<longrightarrow> sc_tasks sc' ! j = sc_tasks sc ! j)) (\<lambda>_. False) s"
      using b t by (intro wp_requeue [OF run]) simp
    then show ?thesis
      using True serve by (elim wp_return_cases) (simp add: krun requeue_def)
  qed
qed

text \<open>
  C29: under the one-shot policy of lesson 13 every timer interrupt leaves its task running.
  The one that reaches the limit stops the timer for good and sets the flag the program
  waits for; every earlier one leaves memory and the timer alone and asks for a deadline of
  one quantum from now.
\<close>

theorem one_shot_timer:
  assumes r: "runs (length specs) i sc" and reason: "ex_reason event = Reason_Timer"
    and fw: "firmware_ok pf" and clk: "unat (clock pf (time_reads s)) + unat T < 2 ^ 64"
  shows "\<exists>sc' s'. sched_serve pf (Policy_Timer limit) specs entered event i sc s = Ret sc' s'
    \<and> sc_current sc' = Some i \<and> tk_timers (sc_tasks sc' ! i) = tk_timers (sc_tasks sc ! i) + 1
    \<and> (if tk_timers (sc_tasks sc ! i) + 1 = limit
       then csrs s' Sie AND 32 = 0 \<and> last (sbi_log s') = (0x54494d45, 0, - 1)
            \<and> mem s' = store64 (mem s) (symbol pf ''TIMER_DONE'') 1
       else mem s' = mem s \<and> sbi_log s' = sbi_log s \<and> csrs s' = csrs s
            \<and> sc_deadline sc' = clock pf (time_reads s) + T)"
proof -
  note b = runsD [OF r]
  have T: "0 < T" by (simp add: T_def)
  have "sched_adjust (Policy_Timer limit) event i requeue sc' s' = Ret (requeue, sc') s'"
    if "i < length (sc_tasks sc')" for requeue sc' s'
    using that by (simp add: sched_adjust_def krun)
  then show ?thesis
    using b T clk r
    by (auto simp: sched_serve_def krun account_run sched_event_def reason Let_def fw after_def
        checked_add_def sched_requeue_def csr_write_def timer_off_bit runs_def)
qed

section \<open>Arming the timer\<close>

lemma clamp_bounds:
  "0 < max (min (min a b) c) 1" "max (min (min a b) c) 1 \<le> max a 1"
  "max (min (min a b) c) 1 \<le> max b 1" "max (min (min a b) c) 1 \<le> max c 1" for a b c :: usize
  by (auto simp: less_max_iff_disj max_def min_def word_gt_0)

text \<open>
  C30: before a task is entered, cooperative scheduling leaves the timer alone; round robin
  programs the task's absolute deadline; the one-shot policy does so until its count is
  reached; MLFQ programs a deadline at least one tick away, and no further away than the
  task's slice, its allotment and the next boost allow.
\<close>

theorem arm_programs_deadline:
  assumes fw: "firmware_ok pf"
    and clk: "unat (clock pf (Suc (time_reads s))) + unat (max (tk_slice t) 1) < 2 ^ 64"
  shows "\<exists>sc' s'. sched_arm pf policy t sc s = Ret sc' s' \<and> (case policy of
      Policy_Yield \<Rightarrow> sc' = sc \<and> s' = s
    | Policy_Rr \<Rightarrow> sc' = sc \<and> sbi_log s' = sbi_log s @ [(0x54494d45, 0, sc_deadline sc)]
    | Policy_Timer limit \<Rightarrow> sc' = sc \<and> sbi_log s' = sbi_log s @
        (if tk_timers t < limit then [(0x54494d45, 0, sc_deadline sc)] else [])
    | Policy_Mlfq \<Rightarrow> sbi_log s' = sbi_log s @ [(0x54494d45, 0, sc_deadline sc')]
        \<and> (\<exists>w > 0. sc_deadline sc' = clock pf (Suc (time_reads s)) + w
             \<and> w \<le> max (tk_slice t) 1 \<and> w \<le> max (tk_allot t) 1
             \<and> w \<le> max (saturating_sub (sc_boost sc) (clock pf (time_reads s))) 1))"
proof (cases policy)
  case Policy_Mlfq
  define w where "w = max (min (min (tk_slice t) (tk_allot t))
    (saturating_sub (sc_boost sc) (clock pf (time_reads s)))) 1"
  have w: "0 < w" "w \<le> max (tk_slice t) 1" "w \<le> max (tk_allot t) 1"
    "w \<le> max (saturating_sub (sc_boost sc) (clock pf (time_reads s))) 1"
    unfolding w_def by (rule clamp_bounds)+
  then have "unat w \<le> unat (max (tk_slice t) 1)" by (simp add: word_le_nat_alt)
  then have "sched_arm pf policy t sc s = Ret (sc\<lparr>sc_deadline := clock pf (Suc (time_reads s)) + w\<rparr>)
    (csr_write pf Sie (csrs s Sie OR 32) (s\<lparr>time_reads := Suc (Suc (time_reads s)),
       sbi_log := sbi_log s @ [(0x54494d45, 0, clock pf (Suc (time_reads s)) + w)]\<rparr>))"
    using Policy_Mlfq w(1) clk
    by (simp add: sched_arm_def timed_def krun fw after_def checked_add_def w_def [symmetric])
  then show ?thesis using Policy_Mlfq w by (auto simp: csr_write_def)
qed (simp_all add: sched_arm_def timed_def krun fw csr_write_def)

section \<open>First in, first out\<close>

lemma push_all_run:
  assumes "rq_ok q" and "distinct (queued q @ is)" and "set is \<subseteq> {..<N}"
  shows "\<exists>q'. push_all is q s = Ret q' s \<and> rq_ok q' \<and> queued q' = queued q @ is"
  using assms
proof (induction "is" arbitrary: q)
  case Nil
  then show ?case by (simp add: krun)
next
  case (Cons i "is")
  obtain q1 where q1: "Ready_push q i s = Ret (Inr (), q1) s" "rq_ok q1" "queued q1 = queued q @ [i]"
    using rq.push_appends [of q i s] Cons.prems by auto
  then show ?case using Cons.IH [of q1] Cons.prems by (auto simp: krun expect_ok_def)
qed

lemma pop_all_run:
  assumes "rq_ok q" and "queued q = is @ rest"
  shows "\<exists>q'. pop_all tasks is q s = Ret q' s \<and> rq_ok q' \<and> queued q' = rest"
  using assms
proof (induction "is" arbitrary: q)
  case Nil
  then show ?case by (simp add: krun)
next
  case (Cons i "is")
  obtain q1 where "Ready_pop q tasks False s = Ret (Some i, q1) s" "rq_ok q1" "queued q1 = is @ rest"
    using rq.pop_first [of q i "is @ rest" tasks s] Cons.prems by auto
  then show ?case using Cons.IH [of q1] by (auto simp: krun)
qed

text \<open>
  C27: the ready queue is first in, first out: any distinct valid task identifiers, pushed
  onto a new queue one after the other, all fit and are popped in the same order, and then
  the queue is empty again; a fifth push, or one of a queued task, is refused and changes
  nothing.
\<close>

theorem ready_queue_fifo:
  assumes "distinct is" and "set is \<subseteq> {..<N}"
  shows "\<exists>q q'. push_all is Ready_new s = Ret q s \<and> queued q = is
    \<and> (\<forall>i. i \<in> set is \<or> N \<le> i \<longrightarrow> (\<exists>e. Ready_push q i s = Ret (Inl e, q) s))
    \<and> pop_all tasks is q s = Ret q' s \<and> Ready_pop q' tasks mlfq s = Ret (None, q') s"
proof -
  obtain q where q: "push_all is Ready_new s = Ret q s" "rq_ok q" "queued q = is"
    using push_all_run [of Ready_new "is" s] rq.empty_ok assms by auto
  obtain q' where "pop_all tasks is q s = Ret q' s" "rq_ok q'" "queued q' = []"
    using pop_all_run [of q "is" "[]" tasks s] q by auto
  then show ?thesis
    using q rq.push_rejects [OF q(2)] rq.pop_empty [of q' tasks mlfq s] by blast
qed

end
