(* ===== verification/Scheduler_Tasks.thy ===== *)
theory Scheduler_Tasks
  imports Scheduler User_Handler
begin

unbundle bit_operations_syntax

text \<open>
  The trap handler of scheduled tasks and the passage into a task and back: what the handler
  makes of every trap, that a task resumes with exactly the context it was saved with, and
  that the stacks of different tasks do not meet.
\<close>

section \<open>The handler\<close>

text \<open>The traps the handler accepts, and what it makes of an accepted one.\<close>

definition legal_trap :: "platform \<Rightarrow> TrapFrame \<Rightarrow> bool" where
  "legal_trap pf f \<longleftrightarrow>
     tf_sstatus f AND 256 = 0
     \<and> symbol pf ''sched_code_start'' \<le> tf_sepc f \<and> tf_sepc f < symbol pf ''sched_code_end''
     \<and> (tf_scause f = 0x8000000000000005 \<or> tf_scause f = 2
        \<or> tf_scause f = 8 \<and> (unat (tf_sepc f) + 4 < 2 ^ 64 \<or> tf_x f ! 17 = 2 \<and> unat (tf_x f ! 10) < 256))"

definition past_ecall :: "usize \<Rightarrow> TrapFrame \<Rightarrow> TrapFrame" where
  "past_ecall result f = f\<lparr>tf_x := (tf_x f)[10 := result], tf_sepc := tf_sepc f + 4\<rparr>"

definition served_trap :: "TrapFrame \<Rightarrow> Reason \<times> TrapFrame" where
  "served_trap f =
     (let (reason, f') =
        if tf_scause f = 8 then
          (if tf_x f ! 17 = 3 then (Reason_Yield, past_ecall 0 f)
           else case dispatch_outcome (tf_x f ! 17) (tf_x f ! 10) of
             Sys_Return v \<Rightarrow> (Reason_Syscall, past_ecall v f)
           | Sys_Exit code \<Rightarrow> (Reason_Exit (ucast code), f))
        else if tf_scause f = 2 then (Reason_Fault 2, f)
        else (Reason_Timer, f)
      in (reason, f'\<lparr>tf_sstatus := tf_sstatus f AND NOT 0x122\<rparr>))"

lemma unprivileged_mask: "unprivileged v = v AND NOT 0x122"
  by (simp add: unprivileged_def)

lemma interrupt_cause:
  "drop_bit 63 c \<noteq> 0 \<and> c AND NOT (push_bit 63 1) = 5 \<longleftrightarrow> c = 0x8000000000000005" for c :: usize
proof
  assume c: "drop_bit 63 c \<noteq> 0 \<and> c AND NOT (push_bit 63 1) = 5"
  have "unat (drop_bit 63 c) = unat c div 2 ^ 63"
    by (simp add: drop_bit_eq_div unat_div)
  moreover have "unat c < 2 * 2 ^ 63" using unat_bound64 [of c] by (simp del: unat_bound64)
  ultimately have "unat (drop_bit 63 c) < 2" by (simp add: less_mult_imp_div_less)
  then have "drop_bit 63 c = 1" using c by (simp add: unat_eq_0 [symmetric] word_unat_eq_iff)
  moreover have "take_bit 63 c = c AND NOT (push_bit 63 1)"
  proof (rule bit_word_eqI)
    fix n assume "n < LENGTH(64)"
    then have n: "n < LENGTH(64)" "n < 64" by simp_all
    have "bit (push_bit 63 1 :: usize) n \<longleftrightarrow> n = 63"
      by (simp only: bit_push_bit_iff bit_1_iff possible_bit_word) auto
    then show "bit (take_bit 63 c) n = bit (c AND NOT (push_bit 63 1)) n"
      using n nat_less_le [of n 63] by (auto simp only: bit_take_bit_iff bit_and_iff bit_not_iff possible_bit_word)
  qed
  ultimately show "c = 0x8000000000000005"
    using bits_ident [of 63 c] c by simp
next
  assume "c = 0x8000000000000005"
  then show "drop_bit 63 c \<noteq> 0 \<and> c AND NOT (push_bit 63 1) = 5" by simp
qed
definition trap_output :: "TrapFrame \<Rightarrow> u8 list" where
  "trap_output f =
     (if tf_scause f = 8 \<and> tf_x f ! 17 \<noteq> 3 then dispatch_output (tf_x f ! 17) (tf_x f ! 10) else [])"

lemma sched_handle_total:
  "if legal_trap pf f \<and> ex_expected (exchange s) = addr
   then sched_handle pf addr f s = Ret (1, snd (served_trap f)) (s\<lparr>uart := uart s @ trap_output f,
      time_reads := Suc (time_reads s),
      exchange := \<lparr>ex_expected = addr, ex_frame = snd (served_trap f),
        ex_reason = fst (served_trap f), ex_time = clock pf (time_reads s)\<rparr>\<rparr>)
   else \<exists>e s'. sched_handle pf addr f s = Panicked e s'"
proof -
  have ovf: "checked_add pc (4 :: usize) = (if unat pc + 4 < 2 ^ 64 then Some (pc + 4) else None)" for pc
    by (simp add: checked_add_def)
  have intr: "drop_bit 63 c \<noteq> 0 \<Longrightarrow> c AND - 9223372036854775809 = 5 \<longleftrightarrow> c = 0x8000000000000005"
    for c :: usize
    using interrupt_cause [of c] by simp
  have exit: "dispatch_outcome n a = Sys_Exit code \<longleftrightarrow> n = 2 \<and> unat a < 256 \<and> code = ucast a" for n a code
    by (auto simp: dispatch_outcome_def word_le_nat_alt word_less_nat_alt not_less split: if_splits)
  note defs = sched_handle_def sched_reason_def krun legal_trap_def served_trap_def trap_output_def
    Let_def unprivileged_mask
  consider (irq) "drop_bit 63 (tf_scause f) \<noteq> 0" | (ecall) "tf_scause f = 8"
    | (other) "drop_bit 63 (tf_scause f) = 0" "tf_scause f \<noteq> 8"
    by blast
  then show ?thesis
  proof cases
    case irq
    then have "tf_scause f \<noteq> 8" "tf_scause f \<noteq> 2" by auto
    then show ?thesis using irq by (auto simp: defs intr)
  next
    case other
    then have "tf_scause f \<noteq> 0x8000000000000005" by auto
    then show ?thesis using other by (auto simp: defs)
  next
    case ecall
    show ?thesis
    proof (cases "tf_x f ! 17 = 3")
      case True
      then show ?thesis using ecall by (auto simp: defs ovf past_ecall_def)
    next
      case False
      show ?thesis
      proof (cases "dispatch_outcome (tf_x f ! 17) (tf_x f ! 10)")
        case (Sys_Return v)
        then have "\<not> (tf_x f ! 17 = 2 \<and> unat (tf_x f ! 10) < 256)"
          using exit [of "tf_x f ! 17" "tf_x f ! 10" "ucast (tf_x f ! 10)"] by simp
        then show ?thesis using ecall False Sys_Return by (auto simp: defs ovf past_ecall_def)
      next
        case (Sys_Exit code)
        then have "tf_x f ! 17 = 2" "unat (tf_x f ! 10) < 256" using exit by auto
        then show ?thesis using ecall False Sys_Exit by (auto simp: defs)
      qed
    qed
  qed
qed

text \<open>
  C10: the handler accepts a trap exactly when it comes from the frame the scheduler expects,
  out of user mode and the task code, and is a timer interrupt, an illegal instruction or a
  system call whose return address exists.  It then always asks for the return to the
  scheduler, publishes reason, time and the adjusted frame in the exchange, and clears the
  privilege and interrupt bits; a yield, a system call, an exit, a fault and a timer
  interrupt change the frame only as \<open>served_trap\<close> says.  Every other trap is a panic.
\<close>

theorem sched_handle_correct:
  "if legal_trap pf f \<and> ex_expected (exchange s) = addr
   then sched_handle pf addr f s = Ret (1, snd (served_trap f)) (s\<lparr>uart := uart s @ trap_output f,
      time_reads := Suc (time_reads s),
      exchange := \<lparr>ex_expected = addr, ex_frame = snd (served_trap f),
        ex_reason = fst (served_trap f), ex_time = clock pf (time_reads s)\<rparr>\<rparr>)
   else \<exists>e s'. sched_handle pf addr f s = Panicked e s'"
  by (rule sched_handle_total)

lemma sched_handle_returns:
  assumes "sched_handle pf addr f s = Ret r s'"
  shows "legal_trap pf f" and "ex_expected (exchange s) = addr" and "r = (1, snd (served_trap f))"
    and "s' = s\<lparr>uart := uart s @ trap_output f, time_reads := Suc (time_reads s),
      exchange := \<lparr>ex_expected = addr, ex_frame = snd (served_trap f),
        ex_reason = fst (served_trap f), ex_time = clock pf (time_reads s)\<rparr>\<rparr>"
  using assms sched_handle_total [of pf f s addr] by (auto split: if_splits)

lemma length_served_trap [simp]: "length (tf_x (snd (served_trap f))) = length (tf_x f)"
  by (auto simp: served_trap_def Let_def past_ecall_def split: prod.split SyscallOutcome.split)

text \<open>The handler meets the interface the assembly relies on.\<close>

interpretation task: user_handler pf "task_handler pf" for pf
proof unfold_locales
  fix addr s act s'
  assume run: "task_handler pf addr s = Ret act s'"
  let ?f = "load_frame (mem s) addr"
  obtain r s1 where h: "sched_handle pf addr ?f s = Ret r s1"
    using run by (auto simp: task_handler_def on_frame_def krun split: outcome.splits)
  note facts = sched_handle_returns [OF h]
  have s': "s' = s1\<lparr>mem := store_frame (mem s1) addr (snd (served_trap ?f))\<rparr>"
    using run h facts(3) by (simp add: task_handler_def on_frame_def krun)
  show "regs s' = regs s" by (simp add: s' facts(4))
  show "\<exists>f. length (tf_x f) = 32 \<and> mem s' = store_frame (mem s) addr f"
    by (intro exI [of _ "snd (served_trap ?f)"]) (simp add: s' facts(4))
qed

section \<open>Into a task and back\<close>

lemma exec_frame_rule:
  "exchange (exec pf code s) = exchange s \<and> time_reads (exec pf code s) = time_reads s
   \<and> user_entries (exec pf code s) = user_entries s \<and> uart (exec pf code s) = uart s
   \<and> sbi_log (exec pf code s) = sbi_log s"
proof (induction code arbitrary: s)
  case Nil
  then show ?case by simp
next
  case (Cons i code)
  have "exchange (exec1 pf i s) = exchange s \<and> time_reads (exec1 pf i s) = time_reads s
   \<and> user_entries (exec1 pf i s) = user_entries s \<and> uart (exec1 pf i s) = uart s
   \<and> sbi_log (exec1 pf i s) = sbi_log s"
    by (cases i) (simp_all add: rset_def csr_write_def)
  with Cons show ?case by simp
qed

lemma run_task_keeps_frame:
  assumes "frame_slot_ok pf p"
  shows "load_frame (mem (exec pf run_task_code s)) p = load_frame (mem s) p"
proof -
  have "load64 (mem (exec pf run_task_code s)) (p + off) = load64 (mem s) (p + off)"
    if off: "off \<in> set slots36" for off
  proof -
    have "aligned8 p" using assms by (simp add: frame_slot_ok_def)
    then have "aligned8 (p + off)" using off by (auto simp: slots36_upt intro: aligned8_slot)
    moreover have "aligned8 (symbol pf ''kernel_gp_saved'')" "aligned8 (symbol pf ''kernel_tp_saved'')"
      using assms by (simp_all add: frame_slot_ok_def outside_def)
    moreover
    have "list_all (\<lambda>off'. aligned8 (symbol pf ''kernel_context'' + off')
        \<and> p + off \<noteq> symbol pf ''kernel_context'' + off') slots16"
      and "p + off \<noteq> symbol pf ''kernel_gp_saved''" and "p + off \<noteq> symbol pf ''kernel_tp_saved''"
      using assms off unfolding frame_slot_ok_def outside_36 list_all_iff by metis+
    ultimately show ?thesis
      by (simp add: run_task_code_def save_kernel_context_code_def save_kernel_env_code_def exec_simps
          load64_store64 slots16_def)
  qed
  then show ?thesis by (simp add: load_frame_def load_words_36 cong: map_cong)
qed

text \<open>Memory byte by byte: only the bytes of the doublewords stored to change.\<close>

definition clear_of :: "usize \<Rightarrow> usize \<Rightarrow> bool" where
  "clear_of b a \<longleftrightarrow> 8 \<le> unat (b - a)"

definition clear_of_frame :: "usize \<Rightarrow> usize \<Rightarrow> bool" where
  "clear_of_frame b p \<longleftrightarrow> list_all (\<lambda>off. clear_of b (p + off)) slots36"

definition clear_of_saves :: "platform \<Rightarrow> usize \<Rightarrow> bool" where
  "clear_of_saves pf b \<longleftrightarrow> list_all (\<lambda>off. clear_of b (symbol pf ''kernel_context'' + off)) slots16
     \<and> clear_of b (symbol pf ''kernel_gp_saved'') \<and> clear_of b (symbol pf ''kernel_tp_saved'')"

lemma clear_below:
  assumes "unat b < unat a" and "unat a + 8 \<le> 2 ^ 64"
  shows "clear_of b a"
proof -
  have "unat (b - a) = unat b + 2 ^ 64 - unat a" using assms(1) by (simp add: unat_sub_if')
  then show ?thesis using assms by (simp add: clear_of_def)
qed

lemma clear_above: "unat a + 8 \<le> unat b \<Longrightarrow> clear_of b a"
  by (simp add: clear_of_def unat_sub_le word_le_nat_alt)

lemma store64_clear: "clear_of b a \<Longrightarrow> store64 m a v b = m b"
  by (simp add: clear_of_def store64_def store_bytes_def)

lemma store_words_clear:
  "(\<And>i. i < length ws \<Longrightarrow> clear_of b (a + 8 * of_nat i)) \<Longrightarrow> store_words m a ws b = m b"
proof (induction ws arbitrary: m a)
  case Nil
  then show ?case by simp
next
  case (Cons w ws)
  have "clear_of b (a + 8 + 8 * of_nat i)" if "i < length ws" for i
    using Cons.prems [of "Suc i"] that by (simp add: algebra_simps)
  then show ?case using Cons.IH Cons.prems [of 0] by (simp add: store64_clear)
qed

lemma store_frame_clear:
  assumes "length (tf_x f) = 32" and "clear_of_frame b p"
  shows "store_frame m p f b = m b"
proof -
  have "clear_of b (p + 8 * of_nat i)" if "i < 36" for i
    using assms(2) that by (simp add: clear_of_frame_def slots36_upt list_all_iff del: upt_Suc)
  then show ?thesis
    unfolding store_frame_def using assms(1) by (intro store_words_clear) (simp add: frame_words_def)
qed

lemma trap_entry_clear:
  "csrs s Sscratch = p + 288 \<Longrightarrow> clear_of_frame b p \<Longrightarrow> mem (exec pf user_trap_entry_code s) b = mem s b"
  by (simp add: user_trap_entry_code_def exec_simps clear_of_frame_def slots36_def store64_clear)

lemma run_task_clear: "clear_of_saves pf b \<Longrightarrow> mem (exec pf run_task_code s) b = mem s b"
  by (simp add: run_task_code_def save_kernel_context_code_def save_kernel_env_code_def exec_simps
      clear_of_saves_def slots16_def store64_clear)

text \<open>What user code leaves in the integer registers, as the trap entry saves it.\<close>

definition trap_context :: "TrapFrame \<Rightarrow> TrapFrame" where
  "trap_context g = g\<lparr>tf_x := map (\<lambda>r. if r = 0 then 0 else tf_x g ! r) [0..<32]\<rparr>"

lemma run_task_result:
  assumes slot: "frame_slot_ok pf p" and expected: "ex_expected (exchange s) = p"
    and user: "user_code pf (user_entries s)
      ((load_frame (mem s) p)\<lparr>tf_x := (tf_x (load_frame (mem s) p))[0 := 0],
         tf_scause := csrs s Scause, tf_stval := csrs s Stval\<rparr>)
      (mem (exec pf run_task_code (pass_arguments [p] s))) = Some (g, m)"
    and legal: "legal_trap pf (trap_context g)"
  shows "\<exists>s'. run_task (Suc 0) pf (task_handler pf) p s = Ret 1 s'
    \<and> exchange s' = \<lparr>ex_expected = p, ex_frame = snd (served_trap (trap_context g)),
        ex_reason = fst (served_trap (trap_context g)), ex_time = clock pf (time_reads s)\<rparr>
    \<and> time_reads s' = Suc (time_reads s) \<and> csrs s' Sie = csrs s Sie
    \<and> callee_saved s' = saved_context pf m
    \<and> (\<forall>b. clear_of_frame b p \<longrightarrow> mem s' b = m b)"
proof -
  define s0 where "s0 = pass_arguments [p] s"
  define t1 where "t1 = exec pf run_task_code s0"
  define t2 where "t2 = exec pf restore_user_frame_code t1"
  define su where "su = t2\<lparr>regs := (\<lambda>r. if r < 32 then tf_x g ! r else regs t2 r),
         csrs := (csrs t2)(Sstatus := tf_sstatus g, Sepc := tf_sepc g,
                          Scause := tf_scause g, Stval := tf_stval g),
         mem := m, user_entries := Suc (user_entries t2)\<rparr>"
  define st where "st = exec pf user_trap_entry_code su"
  have s0: "mem s0 = mem s" "csrs s0 = csrs s" "regs s0 r_a0 = p" "exchange s0 = exchange s"
    "time_reads s0 = time_reads s" "user_entries s0 = user_entries s"
    by (simp_all add: s0_def pass_arguments_def)
  have t1: "regs t1 r_sp = p" "csrs t1 = csrs s" "load_frame (mem t1) p = load_frame (mem s) p"
    using run_task_keeps_frame [OF slot] by (simp_all add: t1_def run_task_state s0)
  have keep: "exchange t2 = exchange s" "time_reads t2 = time_reads s" "user_entries t2 = user_entries s"
    by (simp_all add: t2_def t1_def exec_frame_rule s0)
  have t2: "context_of t2 = (load_frame (mem s) p)\<lparr>tf_x := (tf_x (load_frame (mem s) p))[0 := 0],
         tf_scause := csrs s Scause, tf_stval := csrs s Stval\<rparr>" "mem t2 = mem t1" "csrs t2 Sscratch = p + 288"
    using restore_user_frame_context [of t1 "csrs s Scause" "csrs s Stval" pf] t1
    by (simp_all add: t2_def) (subst restore_user_frame_state, simp)+
  have sret: "sret_until_trap pf t2 = Ret () su"
    using user t2 by (simp add: sret_until_trap_def keep su_def s0_def t1_def)
  have sc: "csrs su Sscratch = p + 288" using t2 by (simp add: su_def)
  have al: "aligned8 p" using slot by (simp add: frame_slot_ok_def)
  have ctx: "context_of su = trap_context g"
    by (simp add: context_of_def trap_context_def su_def rget_def)
  have st: "load_frame (mem st) p = trap_context g" "regs st r_a0 = p" "exchange st = exchange s"
    "time_reads st = time_reads s"
    using user_trap_entry_frame [OF al sc] trap_entry_csrs_regs [OF slot sc] ctx keep
    by (simp_all add: st_def exec_frame_rule su_def)
  have "csrs st = (csrs su)(Sscratch := regs su r_sp, Stvec := stvec_keeps pf (symbol pf ''trap_entry''))"
    unfolding st_def using slot [unfolded frame_slot_ok_def]
    by (subst user_trap_entry_state [OF al sc]) auto
  moreover have "csrs t2 Sie = csrs s Sie" using t1 by (simp add: t2_def) (subst restore_user_frame_state, simp)
  ultimately have sie: "csrs st Sie = csrs s Sie" by (simp add: su_def)
  have len: "length (tf_x (snd (served_trap (trap_context g)))) = 32" by (simp add: trap_context_def)
  define s1 where "s1 = st\<lparr>uart := uart st @ trap_output (trap_context g), time_reads := Suc (time_reads st),
      exchange := \<lparr>ex_expected = p, ex_frame = snd (served_trap (trap_context g)),
        ex_reason = fst (served_trap (trap_context g)), ex_time = clock pf (time_reads st)\<rparr>,
      mem := store_frame (mem st) p (snd (served_trap (trap_context g)))\<rparr>"
  have h: "task_handler pf p st = Ret 1 s1"
    using sched_handle_total [of pf "trap_context g" st p] legal st expected
    by (simp add: task_handler_def on_frame_def krun s1_def)
  have x: "exchange s1 = \<lparr>ex_expected = p, ex_frame = snd (served_trap (trap_context g)),
        ex_reason = fst (served_trap (trap_context g)), ex_time = clock pf (time_reads s)\<rparr>"
    "time_reads s1 = Suc (time_reads s)" "csrs s1 Sie = csrs s Sie"
    using st sie by (simp_all add: s1_def)
  have ctx1: "saved_context pf (mem s1) = saved_context pf m"
    using saved_context_store_frame [OF slot len] saved_context_trap_entry [OF slot sc]
    by (simp add: s1_def st_def su_def)
  have bytes: "mem s1 b = m b" if "clear_of_frame b p" for b
    using store_frame_clear [OF len that] trap_entry_clear [OF sc that] by (simp add: s1_def st_def su_def)
  have "run_task (Suc 0) pf (task_handler pf) p s = Ret 1 (exec pf terminate_process_code s1)"
    using sret h st
    by (simp add: run_task_def krun s0_def [symmetric] t1_def [symmetric] t2_def [symmetric]
        st_def [symmetric])
  moreover have "csrs (exec pf terminate_process_code s1) Sie = csrs s Sie"
    "mem (exec pf terminate_process_code s1) = mem s1"
    using x by (subst terminate_process_state, simp)+
  ultimately show ?thesis using x ctx1 bytes by (simp add: exec_frame_rule terminate_process_regs)
qed

text \<open>The memory a task finds: what \<^verbatim>\<open>run_task\<close> leaves after saving the kernel's context.\<close>

definition memory_at_entry :: "platform \<Rightarrow> usize \<Rightarrow> machine \<Rightarrow> memory" where
  "memory_at_entry pf p s = mem (exec pf run_task_code (pass_arguments [p] s))"

text \<open>
  C5: a task resumes exactly where it was: with its frame written to its slot and expected,
  \<^verbatim>\<open>run_task\<close> enters user mode with the frame's registers, status and program counter; when
  the program traps legally, the call returns 1 to the scheduler with the callee-saved
  registers it was called with, and the exchange holds the frame to resume from next: the
  registers at the trap, adjusted only as \<open>served_trap\<close> says.
\<close>

theorem task_switch:
  fixes f g :: TrapFrame
  assumes areas: "kernel_areas_ok pf" and slot: "frame_slot_ok pf p" and keeps: "user_keeps_context pf"
    and len: "length (tf_x f) = 32"
    and s: "s = t\<lparr>mem := store_frame (mem t) p f, exchange := (exchange t)\<lparr>ex_expected := p\<rparr>\<rparr>"
    and user: "user_code pf (user_entries t)
      (f\<lparr>tf_x := (tf_x f)[0 := 0], tf_scause := csrs t Scause, tf_stval := csrs t Stval\<rparr>)
      (memory_at_entry pf p s) = Some (g, m)"
    and legal: "legal_trap pf (trap_context g)"
  shows "\<exists>s'. run_task (Suc 0) pf (task_handler pf) p s = Ret 1 s'
    \<and> callee_saved s' = callee_saved t
    \<and> exchange s' = \<lparr>ex_expected = p, ex_frame = snd (served_trap (trap_context g)),
        ex_reason = fst (served_trap (trap_context g)), ex_time = clock pf (time_reads t)\<rparr>"
proof -
  have "aligned8 p" using slot by (simp add: frame_slot_ok_def)
  then have load: "load_frame (mem s) p = f" using load_store_frame len by (simp add: s)
  have st: "ex_expected (exchange s) = p" "user_entries s = user_entries t" "csrs s = csrs t"
    "time_reads s = time_reads t" "callee_saved s = callee_saved t"
    by (simp_all add: s callee_saved_def)
  obtain s' where run: "run_task (Suc 0) pf (task_handler pf) p s = Ret 1 s'"
    and x: "exchange s' = \<lparr>ex_expected = p, ex_frame = snd (served_trap (trap_context g)),
        ex_reason = fst (served_trap (trap_context g)), ex_time = clock pf (time_reads t)\<rparr>"
    using run_task_result [OF slot st(1) _ legal] user load st by (auto simp: memory_at_entry_def)
  have "callee_saved s' = callee_saved s"
    using task.run_task_abi [OF run areas slot keeps] by simp
  then show ?thesis using run x st by auto
qed

section \<open>Stacks\<close>

definition stack_offset :: "nat \<Rightarrow> bool \<Rightarrow> nat" where
  "stack_offset i user = (if user then 0 else N * STACK) + i * STACK"

lemma stack_top_run:
  assumes fit: "unat (symbol pf ''STACKS'') + 2 * N * STACK < 2 ^ 64" and i: "i < N"
  obtains top where "stack_top pf i user s = Ret top s"
    and "unat top = unat (symbol pf ''STACKS'') + stack_offset i user + STACK"
proof -
  let ?b = "symbol pf ''STACKS''"
  have bound: "stack_offset i user + STACK \<le> 2 * N * STACK"
    using i by (auto simp: stack_offset_def N_def STACK_def)
  define a where "a = ?b + (if user then 0 else of_nat (N * STACK)) + of_nat (i * STACK)"
  have "a = ?b + of_nat (stack_offset i user)" by (simp add: a_def stack_offset_def)
  moreover have "unat (of_nat (stack_offset i user) :: usize) = stack_offset i user"
    using bound by (simp add: unat_of_nat take_bit_eq_mod N_def STACK_def)
  ultimately have ua: "unat a = unat ?b + stack_offset i user"
    using fit bound by (simp add: unat_add_no_overflow)
  have us: "unat (of_nat STACK :: usize) = STACK" by (simp add: STACK_def)
  have "unat (a + of_nat STACK) = unat ?b + stack_offset i user + STACK"
    using fit bound ua us by (simp add: unat_add_no_overflow)
  moreover have "stack_top pf i user s = Ret (a + of_nat STACK) s"
  proof -
    have "arith_add (overflow_checks pf) a (of_nat STACK) s = Ret (a + of_nat STACK) s"
      using fit bound ua us by (intro arith_add_run) simp
    then show ?thesis
      unfolding stack_top_def a_def [symmetric] using i by (simp only: krun if_True outcome.case)
  qed
  ultimately show thesis using that by blast
qed

text \<open>
  C32: for every placement of \<^verbatim>\<open>STACKS\<close> inside the address space the eight stacks are
  disjoint blocks of it: the block of \<^verbatim>\<open>STACK\<close> bytes below the top of one task and kind
  lies entirely below or above that of any other, and inside \<^verbatim>\<open>STACKS\<close>, so no task's
  stack or trap frame can reach another's.
\<close>

theorem stacks_disjoint:
  assumes fit: "unat (symbol pf ''STACKS'') + 2 * N * STACK < 2 ^ 64"
    and ids: "i < N" "j < N" and different: "(i, user) \<noteq> (j, user')"
  shows "\<exists>top top'. stack_top pf i user s = Ret top s \<and> stack_top pf j user' s = Ret top' s
    \<and> (unat top \<le> unat top' - STACK \<or> unat top' \<le> unat top - STACK)
    \<and> unat (symbol pf ''STACKS'') \<le> unat top - STACK
    \<and> unat top \<le> unat (symbol pf ''STACKS'') + 2 * N * STACK"
proof -
  obtain top where top: "stack_top pf i user s = Ret top s"
    "unat top = unat (symbol pf ''STACKS'') + stack_offset i user + STACK"
    using stack_top_run [OF fit ids(1)] by blast
  obtain top' where top': "stack_top pf j user' s = Ret top' s"
    "unat top' = unat (symbol pf ''STACKS'') + stack_offset j user' + STACK"
    using stack_top_run [OF fit ids(2)] by blast
  have "stack_offset i user + STACK \<le> stack_offset j user' \<or> stack_offset j user' + STACK \<le> stack_offset i user"
    using ids different by (auto simp: stack_offset_def N_def STACK_def)
  then show ?thesis
    using top top' ids by (auto simp: stack_offset_def N_def STACK_def)
qed

end
