(* ===== verification/Scheduler_Spec.thy ===== *)
theory Scheduler_Spec
  imports Scheduler_Safety "HOL-Library.Multiset"
begin

text \<open>
  The scheduler seen from outside: task states, the ready queue as a sequence, and the
  current task.  Its transitions are a step relation with labels; the management loop of
  \<^verbatim>\<open>batch\<close> refines it, so what holds of every abstract run (tasks are served in order, each
  is finished exactly once) holds of the loop.
\<close>

section \<open>The abstract scheduler\<close>

record sched_view =
  v_states :: "State list"
  v_queue :: "nat list"
  v_current :: "nat option"

datatype sched_label = Dispatched nat | Requeued nat | Finished nat

inductive sched_trans :: "bool \<Rightarrow> sched_view \<Rightarrow> sched_label \<Rightarrow> sched_view \<Rightarrow> bool" for mlfq where
  dispatch: "v_current v = None \<Longrightarrow> v_queue v = before @ i # behind \<Longrightarrow> (\<not> mlfq \<Longrightarrow> before = []) \<Longrightarrow>
    sched_trans mlfq v (Dispatched i)
      \<lparr>v_states = (v_states v)[i := Task_Running], v_queue = before @ behind, v_current = Some i\<rparr>"
| requeue: "v_current v = Some i \<Longrightarrow>
    sched_trans mlfq v (Requeued i)
      \<lparr>v_states = (v_states v)[i := Task_Ready], v_queue = v_queue v @ [i], v_current = None\<rparr>"
| finish: "v_current v = Some i \<Longrightarrow>
    sched_trans mlfq v (Finished i)
      \<lparr>v_states = (v_states v)[i := Task_Done], v_queue = v_queue v, v_current = None\<rparr>"

inductive_cases dispatchedE: "sched_trans mlfq v (Dispatched i) v'"
inductive_cases requeuedE: "sched_trans mlfq v (Requeued i) v'"
inductive_cases finishedE: "sched_trans mlfq v (Finished i) v'"

inductive sched_path :: "bool \<Rightarrow> sched_view \<Rightarrow> sched_label list \<Rightarrow> sched_view \<Rightarrow> bool" for mlfq where
  stay: "sched_path mlfq v [] v"
| step: "sched_path mlfq v ls v' \<Longrightarrow> sched_trans mlfq v' l v'' \<Longrightarrow> sched_path mlfq v (ls @ [l]) v''"

lemma sched_path_append:
  assumes "sched_path mlfq v' ls' v''" and "sched_path mlfq v ls v'"
  shows "sched_path mlfq v (ls @ ls') v''"
  using assms
proof (induction rule: sched_path.induct)
  case (stay v)
  then show ?case by simp
next
  case (step v ls' v' l v'')
  then show ?case using sched_path.step [of mlfq _ "ls @ ls'" v' l v''] by simp
qed

lemma sched_path_one: "sched_trans mlfq v l v' \<Longrightarrow> sched_path mlfq v [l] v'"
  using sched_path.step [OF sched_path.stay] by force

text \<open>Who was dispatched, requeued and finished, in order.\<close>

fun dispatched :: "sched_label list \<Rightarrow> nat list" where
  "dispatched [] = []"
| "dispatched (Dispatched i # ls) = i # dispatched ls"
| "dispatched (_ # ls) = dispatched ls"

fun requeued :: "sched_label list \<Rightarrow> nat list" where
  "requeued [] = []"
| "requeued (Requeued i # ls) = i # requeued ls"
| "requeued (_ # ls) = requeued ls"

fun finished :: "sched_label list \<Rightarrow> nat list" where
  "finished [] = []"
| "finished (Finished i # ls) = i # finished ls"
| "finished (_ # ls) = finished ls"

lemma labels_append [simp]:
  "dispatched (ls @ ks) = dispatched ls @ dispatched ks"
  "requeued (ls @ ks) = requeued ls @ requeued ks"
  "finished (ls @ ks) = finished ls @ finished ks"
proof -
  show "dispatched (ls @ ks) = dispatched ls @ dispatched ks" by (induction ls rule: dispatched.induct) simp_all
  show "requeued (ls @ ks) = requeued ls @ requeued ks" by (induction ls rule: requeued.induct) simp_all
  show "finished (ls @ ks) = finished ls @ finished ks" by (induction ls rule: finished.induct) simp_all
qed

section \<open>What holds of every run\<close>

text \<open>Without levels the queue is served in order: nobody overtakes.\<close>

lemma served_in_order:
  "sched_path False v ls v' \<Longrightarrow> dispatched ls @ v_queue v' = v_queue v @ requeued ls"
proof (induction rule: sched_path.induct)
  case (stay v)
  then show ?case by simp
next
  case (step v ls v' l v'')
  from step.hyps(2) step.IH show ?case by cases auto
qed

text \<open>
  Live tasks are never lost or doubled: those waiting or running at the start are, with
  multiplicity, those finished on the way and those waiting or running at the end.
\<close>

definition live_tasks :: "sched_view \<Rightarrow> nat list" where
  "live_tasks v = v_queue v @ (case v_current v of None \<Rightarrow> [] | Some i \<Rightarrow> [i])"

abbreviation live :: "sched_view \<Rightarrow> nat multiset" where
  "live v \<equiv> mset (live_tasks v)"

lemma nobody_lost: "sched_path mlfq v ls v' \<Longrightarrow> live v = mset (finished ls) + live v'"
proof (induction rule: sched_path.induct)
  case (stay v)
  then show ?case by simp
next
  case (step v ls v' l v'')
  from step.hyps(2) step.IH show ?case by cases (auto simp: live_tasks_def)
qed

text \<open>
  The well-formed views, and the only state changes a task ever makes: from ready to
  running, and from there back to ready or on to done, which is final.
\<close>

definition view_ok :: "sched_view \<Rightarrow> bool" where
  "view_ok v \<longleftrightarrow> distinct (live_tasks v)
     \<and> (\<forall>i \<in> set (live_tasks v). i < length (v_states v) \<and> v_states v ! i \<noteq> Task_Done)"

lemma view_ok_step: "sched_trans mlfq v l v' \<Longrightarrow> view_ok v \<Longrightarrow> view_ok v'"
  by (cases rule: sched_trans.cases)
    (auto simp: view_ok_def live_tasks_def nth_list_update split: if_splits)

lemma view_ok_path: "sched_path mlfq v ls v' \<Longrightarrow> view_ok v \<Longrightarrow> view_ok v'"
  by (induction rule: sched_path.induct) (auto intro: view_ok_step)

lemma done_is_final_step:
  "sched_trans mlfq v l v' \<Longrightarrow> view_ok v \<Longrightarrow> v_states v ! i = Task_Done \<Longrightarrow> v_states v' ! i = Task_Done"
  by (cases rule: sched_trans.cases)
    (auto simp: view_ok_def live_tasks_def nth_list_update split: if_splits)

lemma done_is_final:
  "sched_path mlfq v ls v' \<Longrightarrow> view_ok v \<Longrightarrow> v_states v ! i = Task_Done \<Longrightarrow> v_states v' ! i = Task_Done"
  by (induction rule: sched_path.induct) (auto intro: view_ok_path done_is_final_step)

section \<open>The loop refines it\<close>

definition view :: "Sched \<Rightarrow> sched_view" where
  "view sc = \<lparr>v_states = map tk_state (sc_tasks sc), v_queue = queued (sc_ready sc), v_current = sc_current sc\<rparr>"

lemma view_simps [simp]:
  "v_queue (view sc) = queued (sc_ready sc)" "v_current (view sc) = sc_current sc"
  "v_states (view sc) = map tk_state (sc_tasks sc)"
  by (simp_all add: view_def)

lemma refreshed_view: "refreshed sc sc' \<Longrightarrow> view sc' = view sc"
  by (simp add: refreshed_def view_def)

lemma dispatched_view:
  "dispatched_task policy i sc sc' \<Longrightarrow> \<exists>ls. sched_path (policy = Policy_Mlfq) (view sc) ls (view sc')"
proof (cases "sc_current sc")
  case None
  assume d: "dispatched_task policy i sc sc'"
  then obtain before behind where q: "queued (sc_ready sc) = before @ i # behind"
      "queued (sc_ready sc') = before @ behind" "policy \<noteq> Policy_Mlfq \<longrightarrow> before = []"
    and "sc_current sc' = Some i" "map tk_state (sc_tasks sc') = (map tk_state (sc_tasks sc))[i := Task_Running]"
    using None by (auto simp: dispatched_task_def)
  then have "view sc' = \<lparr>v_states = (v_states (view sc))[i := Task_Running], v_queue = before @ behind,
      v_current = Some i\<rparr>"
    by (simp add: view_def)
  then have "sched_trans (policy = Policy_Mlfq) (view sc) (Dispatched i) (view sc')"
    using sched_trans.dispatch [of "view sc" before i behind "policy = Policy_Mlfq"] q None by simp
  then show ?thesis by (blast intro: sched_path_one)
qed (auto simp: dispatched_task_def intro: sched_path.stay)

lemma after_event_states:
  assumes "after_event n i event sc sc'" and "i < length (sc_tasks sc)"
  shows "map tk_state (sc_tasks sc') = (map tk_state (sc_tasks sc))[i := tk_state (sc_tasks sc' ! i)]"
proof (rule nth_equalityI)
  have len: "length (sc_tasks sc') = length (sc_tasks sc)"
    and other: "\<And>j. j \<noteq> i \<Longrightarrow> sc_tasks sc' ! j = sc_tasks sc ! j"
    using assms(1) by (simp_all add: after_event_def)
  show "length (map tk_state (sc_tasks sc'))
      = length ((map tk_state (sc_tasks sc))[i := tk_state (sc_tasks sc' ! i)])"
    using len by simp
  fix j assume "j < length (map tk_state (sc_tasks sc'))"
  then show "map tk_state (sc_tasks sc') ! j
      = (map tk_state (sc_tasks sc))[i := tk_state (sc_tasks sc' ! i)] ! j"
    using len other [of j] by (cases "j = i") (simp_all add: nth_list_update)
qed

lemma after_event_view:
  assumes e: "after_event n i event (sc\<lparr>sc_deadline := d\<rparr>) sc'" and r: "runs n i sc"
  shows "\<exists>ls. sched_path mlfq (view sc) ls (view sc')"
proof -
  note b = runsD [OF r]
  have cur: "sc_current sc = Some i" using r by (simp add: runs_def)
  have st: "map tk_state (sc_tasks sc') = (map tk_state (sc_tasks sc))[i := tk_state (sc_tasks sc' ! i)]"
    using after_event_states [OF e] b by simp
  have same: "map tk_state (sc_tasks sc) = (map tk_state (sc_tasks sc))[i := Task_Running]"
    using b by (metis list_update_id nth_map)
  consider (go) "tk_state (sc_tasks sc' ! i) = Task_Running"
    | (ready) "tk_state (sc_tasks sc' ! i) = Task_Ready" | (over) "tk_state (sc_tasks sc' ! i) = Task_Done"
    by (cases "tk_state (sc_tasks sc' ! i)") auto
  then show ?thesis
  proof cases
    case go
    then have "view sc' = view sc" using e st same cur by (simp add: view_def after_event_def)
    then show ?thesis using sched_path.stay by metis
  next
    case ready
    then have "view sc' = \<lparr>v_states = (v_states (view sc))[i := Task_Ready],
        v_queue = v_queue (view sc) @ [i], v_current = None\<rparr>"
      using e st by (simp add: view_def after_event_def)
    then show ?thesis using sched_trans.requeue [of "view sc" i mlfq] cur
      by (auto intro: sched_path_one)
  next
    case over
    then have "view sc' = \<lparr>v_states = (v_states (view sc))[i := Task_Done],
        v_queue = v_queue (view sc), v_current = None\<rparr>"
      using e st by (simp add: view_def after_event_def)
    then show ?thesis using sched_trans.finish [of "view sc" i mlfq] cur
      by (auto intro: sched_path_one)
  qed
qed

lemma one_pass_path:
  assumes "one_pass n policy sc sc'"
  shows "\<exists>ls. sched_path (policy = Policy_Mlfq) (view sc) ls (view sc')"
proof -
  obtain sc1 sc2 i event d where p: "refreshed sc sc1" "dispatched_task policy i sc1 sc2"
      "runs n i sc2" "after_event n i event (sc2\<lparr>sc_deadline := d\<rparr>) sc'"
    using assms by (auto simp: one_pass_def)
  obtain ls where "sched_path (policy = Policy_Mlfq) (view sc) ls (view sc2)"
    using dispatched_view [OF p(2)] refreshed_view [OF p(1)] by auto
  moreover obtain ks where "sched_path (policy = Policy_Mlfq) (view sc2) ks (view sc')"
    using after_event_view [OF p(4,3)] by blast
  ultimately show ?thesis using sched_path_append by blast
qed

text \<open>The loop as a whole: an abstract run that ends with nothing left to do.\<close>

lemma sched_loop_path:
  assumes "sched_inv (length specs) sc"
    and "\<And>sc' s ls. sched_inv (length specs) sc' \<Longrightarrow> sched_path (policy = Policy_Mlfq) (view sc) ls (view sc')
      \<Longrightarrow> live (view sc') = {#} \<Longrightarrow> Q sc' s"
  shows "kspec (sched_loop n pf policy specs base baseline sc) Q tolerated s"
  using assms
proof (induction n arbitrary: sc s)
  case 0
  then show ?case by (simp add: kspecs)
next
  case (Suc n)
  have again: "kspec (sched_loop n pf policy specs base baseline sc1) Q tolerated s1"
    if pass: "one_pass (length specs) policy sc sc1" and inv: "sched_inv (length specs) sc1" for sc1 s1
  proof -
    obtain ks where ks: "sched_path (policy = Policy_Mlfq) (view sc) ks (view sc1)"
      using one_pass_path [OF pass] by blast
    show ?thesis by (rule Suc.IH [OF inv]) (use sched_path_append ks Suc.prems(2) in blast)
  qed
  have stop: "Q sc1 s1" if "refreshed sc sc1" "sched_inv (length specs) sc1"
      "sc_current sc1 = None" "queued (sc_ready sc1) = []" for sc1 s1
  proof (rule Suc.prems(2) [OF that(2)])
    show "sched_path (policy = Policy_Mlfq) (view sc) [] (view sc1)"
      unfolding refreshed_view [OF that(1)] by (rule sched_path.stay)
    show "live (view sc1) = {#}" using that by (simp add: live_tasks_def)
  qed
  show ?case by (auto simp: kspecs intro!: sched_step_keeps [OF Suc.prems(1)] again stop)
qed



end
