(* ===== verification/Scheduler_Live.thy ===== *)
theory Scheduler_Live
  imports Scheduler_Tasks Scheduler_Laws
begin

unbundle bit_operations_syntax

text \<open>
  Batches end.  On a machine whose clock advances and whose firmware answers, tasks that
  exit after finitely many traps, each confined to its own stack, are all brought to their
  end: no check of the code fails, and the number of passes of the loop is bounded by the
  number of traps.
\<close>

section \<open>The machine and the tasks\<close>

definition in_user_stack :: "platform \<Rightarrow> nat \<Rightarrow> usize \<Rightarrow> bool" where
  "in_user_stack pf i b \<longleftrightarrow> unat (symbol pf ''STACKS'') + i * STACK \<le> unat b
     \<and> unat b < unat (symbol pf ''STACKS'') + i * STACK + STACK"

definition agree_on_stack :: "platform \<Rightarrow> nat \<Rightarrow> memory \<Rightarrow> memory \<Rightarrow> bool" where
  "agree_on_stack pf i m m' \<longleftrightarrow> (\<forall>b. in_user_stack pf i b \<longrightarrow> m' b = m b)"

text \<open>
  Task \<open>i\<close>, resumed with frame \<open>f\<close>, traps at most \<open>k\<close> times before it exits with code 0 (or
  faults, if it is meant to): every trap is one the handler accepts, the program writes to
  its own stack only, and what it does depends on that stack only.
\<close>

fun ends_within :: "platform \<Rightarrow> nat \<Rightarrow> bool \<Rightarrow> nat \<Rightarrow> TrapFrame \<Rightarrow> memory \<Rightarrow> bool" where
  "ends_within pf i faulty 0 f m = False"
| "ends_within pf i faulty (Suc k) f m =
     (\<forall>n c v m1. agree_on_stack pf i m m1 \<longrightarrow>
       (\<exists>g m2. user_code pf n (f\<lparr>tf_x := (tf_x f)[0 := 0], tf_scause := c, tf_stval := v\<rparr>) m1 = Some (g, m2)
          \<and> (\<forall>b. \<not> in_user_stack pf i b \<longrightarrow> m2 b = m1 b)
          \<and> legal_trap pf (trap_context g)
          \<and> (case fst (served_trap (trap_context g)) of
               Reason_Exit code \<Rightarrow> code = 0
             | Reason_Fault cause \<Rightarrow> faulty \<and> cause = 2
             | _ \<Rightarrow> ends_within pf i faulty k (snd (served_trap (trap_context g))) m2)))"

lemma agree_refl [simp, intro]: "agree_on_stack pf i m m"
  by (simp add: agree_on_stack_def)

lemma agree_trans: "agree_on_stack pf i m m' \<Longrightarrow> agree_on_stack pf i m' m'' \<Longrightarrow> agree_on_stack pf i m m''"
  by (simp add: agree_on_stack_def)

lemma agree_sym: "agree_on_stack pf i m m' \<Longrightarrow> agree_on_stack pf i m' m"
  by (simp add: agree_on_stack_def)

lemma ends_within_agree:
  "ends_within pf i faulty k f m \<Longrightarrow> agree_on_stack pf i m m' \<Longrightarrow> ends_within pf i faulty k f m'"
proof (cases k)
  case (Suc l)
  assume "ends_within pf i faulty k f m" and "agree_on_stack pf i m m'"
  then show ?thesis unfolding Suc ends_within.simps by (blast intro: agree_trans)
qed simp

text \<open>The address of task \<open>i\<close>'s trap frame, at the top of its trap stack.\<close>

definition frame_slot :: "platform \<Rightarrow> nat \<Rightarrow> usize" where
  "frame_slot pf i = symbol pf ''STACKS'' + of_nat (N * STACK + i * STACK + (STACK - 288))"

definition stacks_apart :: "platform \<Rightarrow> bool" where
  "stacks_apart pf \<longleftrightarrow> unat (symbol pf ''STACKS'') + 2 * N * STACK < 2 ^ 64
     \<and> (\<forall>i < N. frame_slot_ok pf (frame_slot pf i))
     \<and> (\<forall>i < N. \<forall>b. in_user_stack pf i b \<longrightarrow> clear_of_saves pf b \<and> clear_of b (symbol pf ''TIMER_DONE''))"

definition scheduling_ok :: "platform \<Rightarrow> bool" where
  "scheduling_ok pf \<longleftrightarrow> kernel_areas_ok pf \<and> firmware_ok pf \<and> stacks_apart pf \<and> mono (clock pf)
     \<and> (\<forall>n. unat (clock pf n) + 200000 < 2 ^ 64)"

lemma scheduling_okD:
  fixes d :: usize
  assumes "scheduling_ok pf"
  shows "kernel_areas_ok pf" "firmware_ok pf" "stacks_apart pf"
    and "m \<le> n \<Longrightarrow> clock pf m \<le> clock pf n"
    and "unat d \<le> 200000 \<Longrightarrow> unat (clock pf n) + unat d < 2 ^ 64"
proof -
  show "kernel_areas_ok pf" "firmware_ok pf" "stacks_apart pf"
    and "m \<le> n \<Longrightarrow> clock pf m \<le> clock pf n"
    using assms by (auto simp: scheduling_ok_def dest: monoD)
  have "unat (clock pf n) + 200000 < 2 ^ 64" using assms by (simp add: scheduling_ok_def)
  then show "unat d \<le> 200000 \<Longrightarrow> unat (clock pf n) + unat d < 2 ^ 64" by linarith
qed

lemma unat_frame_slot:
  assumes "stacks_apart pf" and "i < N"
  shows "unat (frame_slot pf i) = unat (symbol pf ''STACKS'') + (N * STACK + i * STACK + (STACK - 288))"
proof -
  define x where "x = N * STACK + i * STACK + (STACK - 288)"
  have "x < 2 * N * STACK" using assms(2) by (simp add: x_def N_def STACK_def)
  moreover from this have "unat (of_nat x :: usize) = x"
    by (simp add: unat_of_nat take_bit_eq_mod N_def STACK_def)
  ultimately show ?thesis
    using assms(1) unfolding frame_slot_def stacks_apart_def x_def [symmetric]
    by (subst unat_add_no_overflow) simp_all
qed

lemma user_stack_clear_of_frames:
  assumes apart: "stacks_apart pf" and "i < N" "j < N" and b: "in_user_stack pf i b"
  shows "clear_of_frame b (frame_slot pf j)"
proof -
  have fit: "unat (symbol pf ''STACKS'') + 2 * N * STACK < 2 ^ 64" using apart by (simp add: stacks_apart_def)
  have "clear_of b (frame_slot pf j + off)" if off: "off \<in> set slots36" for off
  proof -
    have o: "unat off \<le> 280" using off by (auto simp: slots36_def)
    have p: "unat (frame_slot pf j + off) = unat (frame_slot pf j) + unat off"
      using o unat_frame_slot [OF apart assms(3)] fit assms(3)
      by (subst unat_add_no_overflow) (simp_all add: N_def STACK_def)
    show ?thesis
      using o p unat_frame_slot [OF apart assms(3)] fit assms(2,3) b
      by (intro clear_below) (auto simp: in_user_stack_def N_def STACK_def)
  qed
  then show ?thesis by (simp add: clear_of_frame_def list_all_iff)
qed

section \<open>One run of a task\<close>

text \<open>What the exchange holds after a run, given the bound the task had before.\<close>

definition good_event :: "platform \<Rightarrow> nat \<Rightarrow> bool \<Rightarrow> nat \<Rightarrow> Exchange \<Rightarrow> memory \<Rightarrow> bool" where
  "good_event pf i faulty k event m \<longleftrightarrow> length (tf_x (ex_frame event)) = 32
     \<and> (case ex_reason event of
          Reason_Exit code \<Rightarrow> code = 0
        | Reason_Fault cause \<Rightarrow> faulty \<and> cause = 2
        | _ \<Rightarrow> \<exists>l < k. ends_within pf i faulty l (ex_frame event) m)"

lemma user_stacks_differ:
  "in_user_stack pf i b \<Longrightarrow> in_user_stack pf j b \<Longrightarrow> i = j"
  by (auto simp: in_user_stack_def STACK_def)

lemma user_keeps_saved_context:
  assumes apart: "stacks_apart pf" and i: "i < N"
    and m: "\<And>b. \<not> in_user_stack pf i b \<Longrightarrow> m' b = m b"
  shows "saved_context pf m' = saved_context pf m"
proof (rule saved_context_eqI)
  fix off assume off: "off \<in> set slots16"
  let ?a = "symbol pf ''kernel_context'' + off"
  have "m' (?a + of_nat j) = m (?a + of_nat j)" if "j < 8" for j
  proof (rule m, rule notI)
    assume "in_user_stack pf i (?a + of_nat j)"
    then have "clear_of (?a + of_nat j) ?a"
      using apart i off by (auto simp: stacks_apart_def clear_of_saves_def list_all_iff)
    moreover have "unat (of_nat j :: usize) = j" using that by (simp add: unat_of_nat take_bit_eq_mod)
    ultimately show False using that by (simp add: clear_of_def)
  qed
  then have "map (\<lambda>j. m' (?a + of_nat j)) [0..<8] = map (\<lambda>j. m (?a + of_nat j)) [0..<8]"
    by (intro map_cong) auto
  then show "load64 m' ?a = load64 m ?a" by (simp only: load64_def)
qed

lemma task_runs_once:
  assumes ok: "scheduling_ok pf" and i: "i < N" and p: "p = frame_slot pf i"
    and task: "ends_within pf i faulty k f (mem s)"
    and frame: "load_frame (mem s) p = f" and expected: "ex_expected (exchange s) = p"
  obtains s' where "run_task 1 pf (task_handler pf) p s = Ret 1 s'"
    and "callee_saved s' = callee_saved s" and "time_reads s' = Suc (time_reads s)"
    and "csrs s' Sie = csrs s Sie"
    and "\<And>j. j < N \<Longrightarrow> j \<noteq> i \<Longrightarrow> agree_on_stack pf j (mem s) (mem s')"
    and "ex_time (exchange s') = clock pf (time_reads s)"
    and "good_event pf i faulty k (exchange s') (mem s')"
proof -
  note env = scheduling_okD [OF ok]
  have slot: "frame_slot_ok pf p" using env(3) i by (simp add: stacks_apart_def p)
  obtain l where k: "k = Suc l" using task by (cases k) auto
  let ?m0 = "mem (exec pf run_task_code (pass_arguments [p] s))"
  have m0: "?m0 b = mem s b" if "in_user_stack pf j b" "j < N" for j b
    using run_task_clear [of pf b] that env(3) by (simp add: stacks_apart_def pass_arguments_def)
  then have "agree_on_stack pf i (mem s) ?m0" using i by (simp add: agree_on_stack_def)
  then obtain g m where user: "user_code pf (user_entries s)
      ((load_frame (mem s) p)\<lparr>tf_x := (tf_x (load_frame (mem s) p))[0 := 0],
         tf_scause := csrs s Scause, tf_stval := csrs s Stval\<rparr>) ?m0 = Some (g, m)"
    and own: "\<And>b. \<not> in_user_stack pf i b \<Longrightarrow> m b = ?m0 b" and legal: "legal_trap pf (trap_context g)"
    and reason: "case fst (served_trap (trap_context g)) of
               Reason_Exit code \<Rightarrow> code = 0
             | Reason_Fault cause \<Rightarrow> faulty \<and> cause = 2
             | _ \<Rightarrow> ends_within pf i faulty l (snd (served_trap (trap_context g))) m"
    using task unfolding k ends_within.simps frame by blast
  obtain s' where run: "run_task (Suc 0) pf (task_handler pf) p s = Ret 1 s'"
    and x: "exchange s' = \<lparr>ex_expected = p, ex_frame = snd (served_trap (trap_context g)),
        ex_reason = fst (served_trap (trap_context g)), ex_time = clock pf (time_reads s)\<rparr>"
    and time: "time_reads s' = Suc (time_reads s)" and sie: "csrs s' Sie = csrs s Sie"
    and saved: "callee_saved s' = saved_context pf m"
    and bytes: "\<And>b. clear_of_frame b p \<Longrightarrow> mem s' b = m b"
    using run_task_result [OF slot expected user legal] by blast
  have mem': "mem s' b = m b" if "in_user_stack pf j b" "j < N" for j b
    using bytes user_stack_clear_of_frames [OF env(3) that(2) i that(1)] by (simp add: p)
  have "saved_context pf m = saved_context pf ?m0"
    by (rule user_keeps_saved_context [OF env(3) i own])
  also have "\<dots> = callee_saved (pass_arguments [p] s)" by (rule run_task_saves_context [OF env(1)])
  also have "\<dots> = callee_saved s" by (simp add: callee_saved_def kernel_regs_def pass_arguments_def)
  finally have "callee_saved s' = callee_saved s" using saved by simp
  moreover have "agree_on_stack pf j (mem s) (mem s')" if j: "j < N" "j \<noteq> i" for j
  proof -
    have "mem s' b = mem s b" if b: "in_user_stack pf j b" for b
    proof -
      have "\<not> in_user_stack pf i b" using user_stacks_differ [OF b] j by blast
      then show ?thesis using mem' [OF b j(1)] own m0 [OF b j(1)] by simp
    qed
    then show ?thesis by (simp add: agree_on_stack_def)
  qed
  moreover have "agree_on_stack pf i m (mem s')" using mem' i by (simp add: agree_on_stack_def)
  then have "good_event pf i faulty k (exchange s') (mem s')"
    using reason k ends_within_agree
    by (auto simp: good_event_def x trap_context_def split: Reason.splits)
  ultimately show thesis using that [of s'] run time sie x by simp
qed

section \<open>The invariant of a batch that makes progress\<close>

definition task_times :: "usize \<Rightarrow> Task \<Rightarrow> bool" where
  "task_times base t \<longleftrightarrow> (case tk_first t of None \<Rightarrow> tk_state t = Task_Ready | Some f \<Rightarrow> base \<le> f)
     \<and> (tk_state t = Task_Done \<longrightarrow> base \<le> tk_completion t) \<and> unat (tk_slice t) \<le> 40000"

definition task_live :: "platform \<Rightarrow> Spec list \<Rightarrow> (nat \<Rightarrow> nat) \<Rightarrow> memory \<Rightarrow> nat \<Rightarrow> Task \<Rightarrow> bool" where
  "task_live pf specs work m i t \<longleftrightarrow> tk_state t = Task_Done
     \<or> length (tf_x (tk_frame t)) = 32 \<and> ends_within pf i (sp_fault (specs ! i)) (work i) (tk_frame t) m"

text \<open>What the kernel's own steps may do to the machine while the tasks wait.\<close>

definition quiet :: "platform \<Rightarrow> Policy \<Rightarrow> machine \<Rightarrow> machine \<Rightarrow> bool" where
  "quiet pf policy s s' \<longleftrightarrow> regs s' 2 = regs s 2 \<and> time_reads s \<le> time_reads s'
     \<and> (timed policy \<or> csrs s' Sie = csrs s Sie) \<and> (\<forall>j < N. agree_on_stack pf j (mem s) (mem s'))"

lemma quiet_refl [simp, intro]: "quiet pf policy s s"
  by (simp add: quiet_def)

lemma quiet_trans: "quiet pf policy s s' \<Longrightarrow> quiet pf policy s' s'' \<Longrightarrow> quiet pf policy s s''"
  unfolding quiet_def using agree_trans by (metis order_trans)

definition live_inv ::
  "platform \<Rightarrow> Policy \<Rightarrow> Spec list \<Rightarrow> (nat \<Rightarrow> nat) \<Rightarrow> usize \<Rightarrow> usize \<Rightarrow> Sched \<Rightarrow> machine \<Rightarrow> bool" where
  "live_inv pf policy specs work base baseline sc s \<longleftrightarrow>
     sched_inv (length specs) sc \<and> regs s 2 = baseline \<and> base \<le> clock pf (time_reads s)
     \<and> (timed policy \<or> csrs s Sie AND 32 = 0)
     \<and> (\<forall>i < length specs. task_times base (sc_tasks sc ! i)
          \<and> task_live pf specs work (mem s) i (sc_tasks sc ! i))"

lemma task_live_agree:
  "task_live pf specs work m i t \<Longrightarrow> agree_on_stack pf i m m' \<Longrightarrow> task_live pf specs work m' i t"
  by (auto simp: task_live_def intro: ends_within_agree)

lemma live_inv_quiet:
  assumes ok: "scheduling_ok pf" and inv: "live_inv pf policy specs work base baseline sc s"
    and q: "quiet pf policy s s'"
  shows "live_inv pf policy specs work base baseline sc s'"
proof -
  have n: "length specs \<le> N" using inv by (simp add: live_inv_def sched_inv_def)
  have "base \<le> clock pf (time_reads s')"
    using inv q scheduling_okD(4) [OF ok, of "time_reads s" "time_reads s'"]
    by (auto simp: live_inv_def quiet_def intro: order_trans)
  then show ?thesis
    using inv q n by (auto simp: live_inv_def quiet_def intro: task_live_agree)
qed

section \<open>Boosting and dispatching\<close>

lemma quantum_bound: "l \<le> 2 \<Longrightarrow> unat (quantum l) \<le> 40000"
  by (auto simp: quantum_def le_Suc_eq numeral_2_eq_2)

lemma quiet_time: "quiet pf policy s (s\<lparr>time_reads := n\<rparr>) \<longleftrightarrow> time_reads s \<le> n"
  by (simp add: quiet_def)

lemma boosted_live:
  assumes inv: "live_inv pf policy specs work base baseline sc s"
  shows "live_inv pf policy specs work base baseline
    (sc\<lparr>sc_tasks := map boosted (take (length specs) (sc_tasks sc)) @ drop (length specs) (sc_tasks sc)\<rparr>) s"
proof -
  let ?n = "length specs"
  let ?ts = "map boosted (take ?n (sc_tasks sc)) @ drop ?n (sc_tasks sc)"
  have si: "sched_inv ?n sc" using inv by (simp add: live_inv_def)
  note q = sched_inv_queue [OF si]
  have nth: "?ts ! i = boosted (sc_tasks sc ! i)" if "i < ?n" for i
    using that q by (simp add: nth_append)
  have "task_times base (boosted t)" if "task_times base t" for t
    using that by (auto simp: task_times_def boosted_def split: option.splits)
  moreover have "task_live pf specs work m i (boosted t)" if "task_live pf specs work m i t" for t m i
    using that by (auto simp: task_live_def boosted_def)
  ultimately show ?thesis
    using inv boosted_inv [OF si] by (simp add: live_inv_def nth)
qed

lemma live_inv_fields [simp]:
  "live_inv pf policy specs work base baseline (sc\<lparr>sc_deadline := d\<rparr>) s
    = live_inv pf policy specs work base baseline sc s"
  "live_inv pf policy specs work base baseline (sc\<lparr>sc_boost := b\<rparr>) s
    = live_inv pf policy specs work base baseline sc s"
  "live_inv pf policy specs work base baseline (sc\<lparr>sc_boosts := n\<rparr>) s
    = live_inv pf policy specs work base baseline sc s"
  by (simp_all add: live_inv_def)

definition total_work :: "Spec list \<Rightarrow> (nat \<Rightarrow> nat) \<Rightarrow> Sched \<Rightarrow> nat" where
  "total_work specs work sc =
     (\<Sum>i < length specs. if tk_state (sc_tasks sc ! i) = Task_Done then 0 else work i)"

lemma total_work_states:
  assumes "map tk_state (sc_tasks sc') = map tk_state (sc_tasks sc)" and "length specs \<le> length (sc_tasks sc)"
  shows "total_work specs work sc' = total_work specs work sc"
proof -
  have "tk_state (sc_tasks sc' ! i) = tk_state (sc_tasks sc ! i)" if "i < length specs" for i
    using assms that by (metis length_map nth_map order_less_le_trans)
  then show ?thesis by (simp add: total_work_def)
qed

lemma sched_boost_live:
  assumes ok: "scheduling_ok pf" and inv: "live_inv pf policy specs work base baseline sc s"
    and Q: "\<And>sc' s'. live_inv pf policy specs work base baseline sc' s' \<Longrightarrow>
      total_work specs work sc' = total_work specs work sc \<Longrightarrow> Q sc' s'"
  shows "wp (sched_boost pf policy (length specs) base sc) Q H s"
proof -
  note env = scheduling_okD [OF ok]
  have si: "sched_inv (length specs) sc" using inv by (simp add: live_inv_def)
  note q = sched_inv_queue [OF si]
  let ?ts = "map boosted (take (length specs) (sc_tasks sc)) @ drop (length specs) (sc_tasks sc)"
  have times: "base \<le> clock pf n" if "time_reads s \<le> n" for n
    using inv env(4) [OF that] by (auto simp: live_inv_def)
  have "\<exists>b. next_boost pf base (clock pf n) t = Ret b t" if "time_reads s \<le> n" for n t
    using next_boost_run [OF times [OF that], of pf t] env(5) [of "20 * T" n] by auto
  then have boost: "wp (next_boost pf base (clock pf n)) R H t"
    if "time_reads s \<le> n" "\<And>b. R b t" for n t R
    using that by (metis wp_Ret)
  have states: "total_work specs work (sc\<lparr>sc_tasks := ?ts, sc_boosts := m, sc_boost := b\<rparr>)
      = total_work specs work sc" for m b
    using q by (intro total_work_states) (simp_all add: comp_def split_states)
  have live: "live_inv pf policy specs work base baseline
      (sc\<lparr>sc_tasks := ?ts\<rparr>) (s\<lparr>time_reads := n\<rparr>)" if "time_reads s \<le> n" for n
    using live_inv_quiet [OF ok boosted_live [OF inv], of "s\<lparr>time_reads := n\<rparr>"] that
    by (simp add: quiet_time)
  have same: "live_inv pf policy specs work base baseline sc (s\<lparr>time_reads := n\<rparr>)"
    if "time_reads s \<le> n" for n
    using live_inv_quiet [OF ok inv, of "s\<lparr>time_reads := n\<rparr>"] that by (simp add: quiet_time)
  have all: "wp (boost_all (take (length specs) (sc_tasks sc))) R H t
      = R (map boosted (take (length specs) (sc_tasks sc))) t" for R t
    by (rule wp_Ret) (rule boost_all_run)
  define mlfq where "mlfq \<longleftrightarrow> policy = Policy_Mlfq"
  show ?thesis
    unfolding sched_boost_def mlfq_def [symmetric]
    using q inv by (auto simp: wps all simp del: append_take_drop_id intro!: Q same boost live states)
qed

lemma set_task_fields:
  "sc_tasks (set_task i t (sc\<lparr>sc_ready := q, sc_current := c, sc_deadline := d, sc_switches := n\<rparr>)) = (sc_tasks sc)[i := t]"
  "sc_tasks (set_task i t (sc\<lparr>sc_ready := q, sc_current := c\<rparr>)) = (sc_tasks sc)[i := t]"
  by (simp_all add: set_task_def)

lemma total_work_update:
  assumes "tk_state t \<noteq> Task_Done" and "tk_state (sc_tasks sc ! i) \<noteq> Task_Done"
    and "sc_tasks sc' = (sc_tasks sc)[i := t]"
  shows "total_work specs work sc' = total_work specs work sc"
proof -
  have "tk_state (sc_tasks sc' ! j) = Task_Done \<longleftrightarrow> tk_state (sc_tasks sc ! j) = Task_Done" for j
    using assms by (cases "i < length (sc_tasks sc)"; cases "j = i") (simp_all add: list_update_beyond)
  then show ?thesis by (simp add: total_work_def)
qed

lemma sched_dispatch_live:
  assumes ok: "scheduling_ok pf" and inv: "live_inv pf policy specs work base baseline sc s"
    and none: "all_done (length specs) sc \<Longrightarrow> Q (None, sc) s"
    and some: "\<And>i sc' s'. live_inv pf policy specs work base baseline sc' s' \<Longrightarrow> runs (length specs) i sc'
      \<Longrightarrow> total_work specs work sc' = total_work specs work sc \<Longrightarrow> Q (Some i, sc') s'"
  shows "wp (sched_dispatch pf policy sc) Q H s"
proof -
  note env = scheduling_okD [OF ok]
  have si: "sched_inv (length specs) sc" using inv by (simp add: live_inv_def)
  note q = sched_inv_queue [OF si]
  show ?thesis
  proof (cases "sc_current sc")
    case (Some i)
    then show ?thesis using some [OF inv] si by (simp add: sched_dispatch_def wps runs_def)
  next
    case None
    show ?thesis
    proof (cases rule: rq.pop_cases [of "sc_ready sc" "sc_tasks sc" "policy = Policy_Mlfq" s,
          case_names ok len none some])
      case ok
      then show ?case using q by simp
    next
      case len
      then show ?case using q by simp
    next
      case none
      have "wp (Ready_pop (sc_ready sc) (sc_tasks sc) (policy = Policy_Mlfq)) R H s
          = R (None, sc_ready sc) s" for R
        by (rule wp_Ret) (rule none(2))
      then show ?thesis using assms(3) idle_all_done [OF si None none(1)] None
        by (simp add: sched_dispatch_def wps)
    next
      case (some i q' before behind)
      have mem: "i \<in> set (queued (sc_ready sc))" using some(3) by simp
      then have i: "i < length specs" "i < length (sc_tasks sc)" "tk_level (sc_tasks sc ! i) \<le> 2"
        "tk_state (sc_tasks sc ! i) = Task_Ready"
        using si by (auto simp: sched_inv_def)
      have "unat (clock pf (Suc (time_reads s))) + unat T < 2 ^ 64" using env(5) [of T] by simp
      note run = sched_dispatch_run [OF None i(2) some(1) this]
      let ?s = "s\<lparr>time_reads := Suc (Suc (time_reads s))\<rparr>"
      let ?t = "(sc_tasks sc ! i)\<lparr>tk_state := Task_Running,
           tk_max_wait := max (tk_max_wait (sc_tasks sc ! i))
             (saturating_sub (clock pf (time_reads s)) (tk_ready_since (sc_tasks sc ! i))),
           tk_first := (case tk_first (sc_tasks sc ! i) of
               None \<Rightarrow> Some (clock pf (time_reads s)) | Some f \<Rightarrow> Some f)\<rparr>"
      let ?sc = "set_task i ?t (sc\<lparr>sc_ready := q', sc_current := Some i,
             sc_deadline := clock pf (Suc (time_reads s)) + T, sc_switches := sc_switches sc + 1\<rparr>)"
      have r: "runs (length specs) i ?sc"
        using dispatch_inv [OF si None some(2-4)] i by simp
      have w: "total_work specs work ?sc = total_work specs work sc"
        using i by (intro total_work_update) (simp_all add: set_task_fields)
      have live0: "live_inv pf policy specs work base baseline sc ?s"
        by (rule live_inv_quiet [OF ok inv]) (simp add: quiet_time)
      have old: "task_times base (sc_tasks sc ! i)" "task_live pf specs work (mem s) i (sc_tasks sc ! i)"
        "base \<le> clock pf (time_reads s)"
        using inv i by (auto simp: live_inv_def)
      have "task_times base ?t" using old by (auto simp: task_times_def split: option.splits)
      moreover have "task_live pf specs work (mem s) i ?t" using old i by (simp add: task_live_def)
      ultimately have "live_inv pf policy specs work base baseline ?sc ?s"
        using live0 r i by (auto simp: live_inv_def runs_def set_task_fields nth_list_update)
      then show ?thesis
        using assms(4) r w by (simp add: wp_Ret [of "sched_dispatch pf policy sc" s, OF run])
    qed
  qed
qed

section \<open>Entering\<close>

lemma sched_arm_live:
  assumes ok: "scheduling_ok pf" and slice: "unat (tk_slice t) \<le> 40000"
    and Q: "\<And>d s'. regs s' = regs s \<Longrightarrow> mem s' = mem s \<Longrightarrow> exchange s' = exchange s \<Longrightarrow>
      time_reads s \<le> time_reads s' \<Longrightarrow> timed policy \<or> csrs s' Sie = csrs s Sie \<Longrightarrow>
      Q (sc\<lparr>sc_deadline := d\<rparr>) s'"
  shows "wp (sched_arm pf policy t sc) Q H s"
proof (cases "timed policy")
  case False
  then show ?thesis using Q [of s "sc_deadline sc"] by (simp add: sched_arm_def wps)
next
  case True
  note env = scheduling_okD [OF ok]
  have arm: "wp (arm pf d) U H u = U () (csr_write pf Sie (csrs u Sie OR 32)
     (u\<lparr>sbi_log := sbi_log u @ [(0x54494d45, 0, d)]\<rparr>))" for U d u
    by (rule wp_Ret) (rule arm_run [OF env(2)])
  have one: "0 < max x (1 :: usize)" for x by (simp add: less_max_iff_disj)
  have "unat (max (min (min (tk_slice t) a) b) 1) \<le> 200000" for a b :: usize
    using slice by (auto simp: max_def min_def word_le_nat_alt)
  then have clk: "unat (clock pf n) + unat (max (min (min (tk_slice t) a) b) 1) < 2 ^ 64" for n and a b :: usize
    using env(5) by blast
  show ?thesis
    using True Q [where d = "sc_deadline sc"] Q one clk
    by (auto simp: sched_arm_def wps arm csr_write_def)
qed

lemma stack_top_frame_slot:
  assumes apart: "stacks_apart pf" and i: "i < N"
  shows "\<exists>top. stack_top pf i False s = Ret top s
    \<and> arith_sub (overflow_checks pf) top (of_nat TRAP_FRAME_SIZE) s = Ret (frame_slot pf i) s"
proof -
  have fit: "unat (symbol pf ''STACKS'') + 2 * N * STACK < 2 ^ 64" using apart by (simp add: stacks_apart_def)
  obtain top where top: "stack_top pf i False s = Ret top s"
    "unat top = unat (symbol pf ''STACKS'') + stack_offset i False + STACK"
    using stack_top_run [OF fit i] by blast
  have size: "unat (of_nat TRAP_FRAME_SIZE :: usize) = 288" "(of_nat TRAP_FRAME_SIZE :: usize) = 288"
    by (simp_all add: layout_consts)
  have ge: "(of_nat TRAP_FRAME_SIZE :: usize) \<le> top"
    using top(2) size by (simp add: word_le_nat_alt STACK_def)
  have "unat (top - of_nat TRAP_FRAME_SIZE) = unat (frame_slot pf i)"
    using top(2) size ge unat_frame_slot [OF apart i]
    by (simp add: unat_sub_le stack_offset_def STACK_def)
  then have "top - of_nat TRAP_FRAME_SIZE = frame_slot pf i" by (simp add: word_unat_eq_iff)
  then show ?thesis using top(1) ge by (intro exI [of _ top]) (simp add: arith_sub_run)
qed

lemma callee_saved_sp: "callee_saved s' = callee_saved s \<Longrightarrow> regs s' 2 = regs s 2"
  by (simp add: callee_saved_def kernel_regs_def)

text \<open>After a run: the other tasks are as they were, this one left a good event.\<close>

definition back_from ::
  "platform \<Rightarrow> Policy \<Rightarrow> nat \<Rightarrow> machine \<Rightarrow> machine \<Rightarrow> bool" where
  "back_from pf policy i s s' \<longleftrightarrow> regs s' 2 = regs s 2 \<and> time_reads s \<le> time_reads s'
     \<and> (timed policy \<or> csrs s' Sie = csrs s Sie)
     \<and> (\<forall>j < N. j \<noteq> i \<longrightarrow> agree_on_stack pf j (mem s) (mem s'))"

lemma sched_enter_live:
  assumes ok: "scheduling_ok pf" and inv: "live_inv pf policy specs work base baseline sc s"
    and r: "runs (length specs) i sc"
    and Q: "\<And>entered event d s'. entered \<le> ex_time event \<Longrightarrow> base \<le> ex_time event \<Longrightarrow>
      back_from pf policy i s s' \<Longrightarrow>
      good_event pf i (sp_fault (specs ! i)) (work i) event (mem s') \<Longrightarrow>
      Q (entered, event, sc\<lparr>sc_deadline := d\<rparr>) s'"
  shows "wp (sched_enter pf policy baseline i sc) Q H s"
proof -
  note env = scheduling_okD [OF ok] and b = runsD [OF r]
  have i: "i < N" "i < length (sc_tasks sc)" "i < length specs" using b by simp_all
  let ?t = "sc_tasks sc ! i" and ?p = "frame_slot pf i"
  have live: "length (tf_x (tk_frame ?t)) = 32"
    "ends_within pf i (sp_fault (specs ! i)) (work i) (tk_frame ?t) (mem s)"
    and slice: "unat (tk_slice ?t) \<le> 40000" and base: "base \<le> clock pf (time_reads s)"
    and sp: "regs s 2 = baseline"
    using inv i b by (auto simp: live_inv_def task_live_def task_times_def)
  obtain top where top: "stack_top pf i False s = Ret top s"
    "arith_sub (overflow_checks pf) top (of_nat TRAP_FRAME_SIZE) s = Ret ?p s"
    using stack_top_frame_slot [OF env(3) i(1)] by blast
  define s0 where "s0 = s\<lparr>mem := store_frame (mem s) ?p (tk_frame ?t),
      exchange := (exchange s)\<lparr>ex_expected := ?p\<rparr>\<rparr>"
  have agree: "agree_on_stack pf j (mem s) (mem s0)" if "j < N" for j
    using store_frame_clear [OF live(1)] user_stack_clear_of_frames [OF env(3) that i(1)]
    by (simp add: agree_on_stack_def s0_def)
  have al: "aligned8 ?p" using env(3) i by (simp add: stacks_apart_def frame_slot_ok_def)
  have enter: "wp (run_task 1 pf (task_handler pf) ?p) (\<lambda>action s'. action = 1 \<and> regs s' 2 = baseline
      \<and> Q (clock pf (time_reads s1), exchange s', sc\<lparr>sc_deadline := d\<rparr>) s') H
      (s1\<lparr>time_reads := Suc (time_reads s1)\<rparr>)"
    if s1: "regs s1 = regs s0" "mem s1 = mem s0" "exchange s1 = exchange s0"
      "time_reads s0 \<le> time_reads s1" "timed policy \<or> csrs s1 Sie = csrs s0 Sie" for s1 d
  proof -
    let ?s = "s1\<lparr>time_reads := Suc (time_reads s1)\<rparr>"
    have task: "ends_within pf i (sp_fault (specs ! i)) (work i) (tk_frame ?t) (mem ?s)"
      using ends_within_agree [OF live(2) agree [OF i(1)]] s1 by simp
    have frame: "load_frame (mem ?s) ?p = tk_frame ?t"
      using load_store_frame [OF al live(1)] by (simp add: s1 s0_def)
    have expected: "ex_expected (exchange ?s) = ?p" by (simp add: s1 s0_def)
    obtain s' where run: "run_task 1 pf (task_handler pf) ?p ?s = Ret 1 s'"
      and cs: "callee_saved s' = callee_saved ?s" and tr: "time_reads s' = Suc (time_reads ?s)"
      and sie: "csrs s' Sie = csrs ?s Sie"
      and others: "\<And>j. j < N \<Longrightarrow> j \<noteq> i \<Longrightarrow> agree_on_stack pf j (mem ?s) (mem s')"
      and time: "ex_time (exchange s') = clock pf (time_reads ?s)"
      and good: "good_event pf i (sp_fault (specs ! i)) (work i) (exchange s') (mem s')"
      using task_runs_once [OF ok i(1) refl task frame expected] by blast
    have "agree_on_stack pf j (mem s) (mem s')" if "j < N" "j \<noteq> i" for j
      using agree_trans [OF agree [OF that(1)]] others [OF that] s1 by simp
    moreover have "regs s' 2 = baseline" using callee_saved_sp [OF cs] s1 sp by (simp add: s0_def)
    ultimately have "back_from pf policy i s s'"
      using tr sie s1 sp by (auto simp: back_from_def s0_def)
    moreover have "clock pf (time_reads s1) \<le> ex_time (exchange s')"
      using env(4) by (simp add: time)
    moreover have "base \<le> ex_time (exchange s')"
      using order_trans [OF base env(4)] s1(4) by (simp add: time s0_def)
    ultimately show ?thesis
      unfolding wp_Ret [of "run_task 1 pf (task_handler pf) ?p" ?s, OF run]
      using Q good \<open>regs s' 2 = baseline\<close> by simp
  qed
  show ?thesis
    unfolding sched_enter_def wps
    by (simp add: wp_Ret [of "stack_top pf i False" s, OF top(1)]
        wp_Ret [of "arith_sub (overflow_checks pf) top (of_nat TRAP_FRAME_SIZE)" s, OF top(2)] i
        s0_def [symmetric] wps(3))
      (rule sched_arm_live [OF ok slice], use enter in \<open>simp add: wps read_sp_def\<close>)
qed

section \<open>Serving\<close>

lemma wp_kspec:
  "wp m P H s \<Longrightarrow> kspec m R E s \<Longrightarrow> (\<And>a s'. P a s' \<Longrightarrow> R a s' \<Longrightarrow> Q a s') \<Longrightarrow> wp m Q H s"
  by (auto simp: wp_def kspec_def split: outcome.splits)

definition kept :: "nat \<Rightarrow> Exchange \<Rightarrow> usize option \<Rightarrow> Sched \<Rightarrow> bool" where
  "kept i event first sc \<longleftrightarrow> tk_first (sc_tasks sc ! i) = first \<and> unat (tk_slice (sc_tasks sc ! i)) \<le> 40000
     \<and> (tk_state (sc_tasks sc ! i) = Task_Done \<longrightarrow> tk_completion (sc_tasks sc ! i) = ex_time event)"

lemma kept_set [simp]:
  "i < length (sc_tasks sc) \<Longrightarrow> kept i event first (set_task i t sc) \<longleftrightarrow>
     tk_first t = first \<and> unat (tk_slice t) \<le> 40000 \<and> (tk_state t = Task_Done \<longrightarrow> tk_completion t = ex_time event)"
  by (simp add: kept_def)

lemma kept_fields [simp]:
  "kept i event first (sc\<lparr>sc_deadline := d\<rparr>) = kept i event first sc"
  "kept i event first (sched_trace event i requeue sc) = kept i event first sc"
  by (simp_all add: kept_def)

definition good_reason :: "Spec \<Rightarrow> Reason \<Rightarrow> bool" where
  "good_reason spec reason \<longleftrightarrow> (case reason of
     Reason_Exit code \<Rightarrow> code = 0 | Reason_Fault cause \<Rightarrow> sp_fault spec \<and> cause = 2 | _ \<Rightarrow> True)"

lemma account_live:
  assumes r: "runs count i sc" and time: "entered \<le> ex_time event"
    and k: "kept i event first sc"
  shows "wp (sched_account policy entered event i sc) (\<lambda>sc' s'. s' = s \<and> kept i event first sc') H s"
proof -
  note b = runsD [OF r]
  have "unat (saturating_sub (tk_slice (sc_tasks sc ! i)) d) \<le> 40000" for d
    using k by (auto simp: kept_def unat_saturating_sub intro: le_trans [OF diff_le_self])
  then show ?thesis
    using b k time by (auto simp: sched_account_def wps Let_def checked_sub_def kept_def)
qed

lemma event_live:
  assumes ok: "scheduling_ok pf" and r: "runs (length specs) i sc" and k: "kept i event first sc"
    and reason: "good_reason (specs ! i) (ex_reason event)"
  shows "wp (sched_event pf policy specs event i sc)
    (\<lambda>(requeue, sc') s'. quiet pf policy s s' \<and> kept i event first sc') H s"
proof -
  note b = runsD [OF r] and env = scheduling_okD [OF ok]
  have flag: "agree_on_stack pf j m (store64 m (symbol pf ''TIMER_DONE'') v)" if "j < N" for j m v
    using env(3) that by (simp add: agree_on_stack_def stacks_apart_def store64_clear)
  have stop: "wp (stop pf) U H u = U () ((csr_write pf Sie (csrs u Sie AND NOT 32) u)
     \<lparr>sbi_log := sbi_log u @ [(0x54494d45, 0, - 1)]\<rparr>)" for U u
    by (rule wp_Ret) (rule stop_run [OF env(2)])
  have one: "unat (clock pf n) + unat T < 2 ^ 64" "0 < T" for n
    using env(5) [of T n] by (simp_all add: T_def)
  have quiet_stop: "quiet pf (Policy_Timer limit) s (s\<lparr>csrs := c, sbi_log := l,
      mem := store64 (mem s) (symbol pf ''TIMER_DONE'') 1\<rparr>)" for limit c l
    using flag by (simp add: quiet_def timed_def)
  show ?thesis
    using b k reason one quiet_stop
    by (auto simp: sched_event_def wps Let_def good_reason_def finish_task_def kept_def stop csr_write_def
        quiet_time split: Reason.splits Policy.splits)
qed

lemma adjust_live:
  assumes r: "served count i event requeue sc0 sc" and k: "kept i event first sc"
  shows "wp (sched_adjust policy event i requeue sc) (\<lambda>(requeue', sc') s'. s' = s \<and> kept i event first sc') H s"
proof (cases "tk_state (sc_tasks sc ! i) = Task_Done")
  case True
  moreover have "i < length (sc_tasks sc)" using r by (auto simp: served_def runs_def sched_inv_def split: if_splits)
  ultimately show ?thesis using k by (simp add: sched_adjust_def wps)
next
  case False
  then have "runs count i sc" using r by (auto simp: served_def split: if_splits)
  note b = runsD [OF this]
  have budget: "wp (budget t) Q H s =
      Q (t\<lparr>tk_slice := quantum (tk_level t), tk_allot := allotment (tk_level t)\<rparr>) s"
    if "tk_level t \<le> 2" for t Q
    by (rule wp_Ret) (rule budget_run [OF that])
  have slices: "[T, 2 * T, 4 * T] ! l = quantum l" for l by (simp add: quantum_def)
  show ?thesis
    using b k quantum_bound
    by (auto simp: sched_adjust_def wps budget kept_def slices nth_list_update)
qed

lemma requeue_live:
  assumes r: "served count i event requeue sc0 sc" and k: "kept i event first sc"
  shows "wp (sched_requeue pf event i requeue sc) (\<lambda>sc' s'. quiet pf policy s s' \<and> kept i event first sc') H s"
proof (cases requeue)
  case False
  then show ?thesis using k by (simp add: sched_requeue_def wps)
next
  case True
  then have r': "runs count i sc" using r by (auto simp: served_def split: if_splits)
  note b = runsD [OF r']
  show ?thesis
    unfolding eqTrueI [OF True]
    using b k by (intro wp_requeue [OF r']) (auto simp: kept_def quiet_time)
qed

lemma sched_serve_live:
  assumes ok: "scheduling_ok pf" and r: "runs (length specs) i sc" and time: "entered \<le> ex_time event"
    and reason: "good_reason (specs ! i) (ex_reason event)" and k: "kept i event first sc"
    and Q: "\<And>sc' s'. after_event (length specs) i event sc sc' \<Longrightarrow> quiet pf policy s s' \<Longrightarrow>
      kept i event first sc' \<Longrightarrow> Q sc' s'"
  shows "wp (sched_serve pf policy specs entered event i sc) Q H s"
proof -
  let ?n = "length specs"
  have 3: "wp (kbind (sched_requeue pf event i requeue sc3) (\<lambda>sc. kret (sched_trace event i requeue sc))) Q H s3"
    if "served ?n i event requeue sc sc3" "kept i event first sc3" "quiet pf policy s s3" for requeue sc3 s3
    unfolding wps
    by (rule wp_kspec [OF requeue_live [OF that(1,2), of pf policy] sched_requeue_keeps [OF that(1),
          of "\<lambda>sc' _. after_event ?n i event sc sc'"]])
      (auto intro!: Q sched_trace_keeps quiet_trans [OF that(3)])
  have 2: "wp (kbind (sched_adjust policy event i requeue sc2) (\<lambda>(requeue, sc).
      kbind (sched_requeue pf event i requeue sc) (\<lambda>sc. kret (sched_trace event i requeue sc)))) Q H s2"
    if "served ?n i event requeue sc sc2" "kept i event first sc2" "quiet pf policy s s2" for requeue sc2 s2
    unfolding wp_seq
    by (rule wp_kspec [OF adjust_live [OF that(1,2)] sched_adjust_keeps [OF that(1),
          of "\<lambda>(requeue, sc') _. served ?n i event requeue sc sc'"]])
      (use 3 that in auto)
  have 1: "wp (kbind (sched_event pf policy specs event i sc1) (\<lambda>(requeue, sc).
      kbind (sched_adjust policy event i requeue sc) (\<lambda>(requeue, sc).
      kbind (sched_requeue pf event i requeue sc) (\<lambda>sc. kret (sched_trace event i requeue sc))))) Q H s"
    if "runs ?n i sc1" "serving i event sc sc1" "kept i event first sc1" for sc1
    unfolding wp_seq(1) [of "sched_event pf policy specs event i sc1"]
    by (rule wp_kspec [OF event_live [OF ok that(1,3) reason, of policy] sched_event_keeps [OF that(1,2),
          of "\<lambda>(requeue, sc') _. served ?n i event requeue sc sc'"]])
      (use 2 in auto)
  show ?thesis
    unfolding sched_serve_def wp_seq(1) [of "sched_account policy entered event i sc"]
    by (rule wp_kspec [OF account_live [OF r time k] sched_account_keeps [OF r,
          of event "\<lambda>sc' _. runs ?n i sc' \<and> serving i event sc sc'"]])
      (use 1 in auto)
qed

section \<open>The loop ends\<close>

lemma total_work_decreases:
  assumes i: "i < length specs" and "\<And>j. j \<noteq> i \<Longrightarrow> sc_tasks sc' ! j = sc_tasks sc ! j"
    and "\<And>j. j \<noteq> i \<Longrightarrow> work' j = work j"
    and "tk_state (sc_tasks sc ! i) \<noteq> Task_Done" and "0 < work i"
    and "tk_state (sc_tasks sc' ! i) = Task_Done \<or> work' i < work i"
  shows "total_work specs work' sc' < total_work specs work sc"
  unfolding total_work_def
proof (rule sum_strict_mono_ex1)
  show "\<forall>j \<in> {..<length specs}. (if tk_state (sc_tasks sc' ! j) = Task_Done then 0 else work' j)
      \<le> (if tk_state (sc_tasks sc ! j) = Task_Done then 0 else work j)"
  proof
    fix j show "(if tk_state (sc_tasks sc' ! j) = Task_Done then 0 else work' j)
      \<le> (if tk_state (sc_tasks sc ! j) = Task_Done then 0 else work j)"
      using assms by (cases "j = i") auto
  qed
  show "\<exists>j \<in> {..<length specs}. (if tk_state (sc_tasks sc' ! j) = Task_Done then 0 else work' j)
      < (if tk_state (sc_tasks sc ! j) = Task_Done then 0 else work j)"
    using assms by (intro bexI [of _ i]) auto
qed simp

text \<open>A served event costs the task at least one of the traps it had left.\<close>

lemma served_progress:
  assumes ok: "scheduling_ok pf" and inv: "live_inv pf policy specs work base baseline sc s"
    and r: "runs (length specs) i sc" and ret: "back_from pf policy i s s1"
    and good: "good_event pf i (sp_fault (specs ! i)) (work i) event (mem s1)"
    and time: "base \<le> ex_time event" and quiet: "quiet pf policy s1 s2"
    and e: "after_event (length specs) i event (sc\<lparr>sc_deadline := d\<rparr>) sc'"
    and k: "kept i event (tk_first (sc_tasks sc ! i)) sc'"
  shows "\<exists>work'. live_inv pf policy specs work' base baseline sc' s2
    \<and> total_work specs work' sc' < total_work specs work sc"
proof -
  note b = runsD [OF r]
  have n: "length specs \<le> N" using r by (simp add: runs_def sched_inv_def)
  have i: "i < length specs" "i < N" using b by simp_all
  have other: "sc_tasks sc' ! j = sc_tasks sc ! j" if "j \<noteq> i" for j
    using e that by (simp add: after_event_def)
  have old: "task_times base (sc_tasks sc ! j)" "task_live pf specs work (mem s) j (sc_tasks sc ! j)"
    if "j < length specs" for j
    using inv that by (simp_all add: live_inv_def)
  have agree: "agree_on_stack pf j (mem s) (mem s2)" if "j < N" "j \<noteq> i" for j
    using ret quiet that by (auto simp: back_from_def quiet_def intro: agree_trans)
  have agree_i: "agree_on_stack pf i (mem s1) (mem s2)" using quiet i by (simp add: quiet_def)
  have state: "tk_state (sc_tasks sc ! i) = Task_Running" using b by simp
  have pos: "0 < work i" and len: "length (tf_x (ex_frame event)) = 32"
    using old(2) [OF i(1)] state good by (cases "work i"; auto simp: task_live_def good_event_def)+
  have frame: "tk_frame (sc_tasks sc' ! i) = ex_frame event" using e by (simp add: after_event_def)
  have first: "tk_first (sc_tasks sc ! i) \<noteq> None"
    using old(1) [OF i(1)] state by (auto simp: task_times_def split: option.splits)
  have times: "task_times base (sc_tasks sc' ! j)" if "j < length specs" for j
    using old(1) [OF that] k time first other [of j]
    by (cases "j = i") (auto simp: task_times_def kept_def)
  have base: "regs s2 2 = baseline" "base \<le> clock pf (time_reads s2)" "timed policy \<or> csrs s2 Sie AND 32 = 0"
  proof -
    show "regs s2 2 = baseline" "timed policy \<or> csrs s2 Sie AND 32 = 0"
      using inv ret quiet by (auto simp: live_inv_def back_from_def quiet_def)
    have "base \<le> clock pf (time_reads s)" "time_reads s \<le> time_reads s2"
      using inv ret quiet by (auto simp: live_inv_def back_from_def quiet_def)
    then show "base \<le> clock pf (time_reads s2)"
      using scheduling_okD(4) [OF ok] order_trans by blast
  qed
  have si: "sched_inv (length specs) sc'" using e by (simp add: after_event_def)
  define work' where "work' = (if goes_on (ex_reason event)
      then work(i := (SOME l. l < work i \<and> ends_within pf i (sp_fault (specs ! i)) l (ex_frame event) (mem s1)))
      else work)"
  have i': "tk_state (sc_tasks sc' ! i) = Task_Done
      \<or> work' i < work i \<and> ends_within pf i (sp_fault (specs ! i)) (work' i) (ex_frame event) (mem s1)"
  proof (cases "goes_on (ex_reason event)")
    case True
    then have "\<exists>l. l < work i \<and> ends_within pf i (sp_fault (specs ! i)) l (ex_frame event) (mem s1)"
      using good by (auto simp: good_event_def)
    from someI_ex [OF this] show ?thesis using True by (simp add: work'_def)
  next
    case False
    then show ?thesis using e by (simp add: after_event_def)
  qed
  have "task_live pf specs work' (mem s2) j (sc_tasks sc' ! j)" if j: "j < length specs" for j
  proof (cases "j = i")
    case True
    then show ?thesis using i' frame len agree_i by (auto simp: task_live_def intro: ends_within_agree)
  next
    case False
    then have "work' j = work j" by (simp add: work'_def)
    then show ?thesis
      using task_live_agree [OF old(2) [OF j] agree [OF _ False]] other [OF False] j n
      by (simp add: task_live_def)
  qed
  then have "live_inv pf policy specs work' base baseline sc' s2"
    using base si times by (simp add: live_inv_def)
  moreover have "total_work specs work' sc' < total_work specs work sc"
    by (rule total_work_decreases [OF i(1) other]) (use i' state pos in \<open>auto simp: work'_def\<close>)
  ultimately show ?thesis by blast
qed

lemma good_event_reason:
  "good_event pf i (sp_fault spec) k event m \<Longrightarrow> good_reason spec (ex_reason event)"
  by (auto simp: good_event_def good_reason_def split: Reason.splits)

lemma sched_step_live:
  assumes ok: "scheduling_ok pf" and inv: "live_inv pf policy specs work base baseline sc s"
    and again: "\<And>work' sc' s'. live_inv pf policy specs work' base baseline sc' s' \<Longrightarrow>
      total_work specs work' sc' < total_work specs work sc \<Longrightarrow> Q (True, sc') s'"
    and stop: "\<And>sc' s'. live_inv pf policy specs work base baseline sc' s' \<Longrightarrow>
      all_done (length specs) sc' \<Longrightarrow> Q (False, sc') s'"
  shows "wp (sched_step pf policy specs base baseline sc) Q H s"
proof -
  have si: "sched_inv (length specs) sc" using inv by (simp add: live_inv_def)
  have check: "wp (Ready_check (sc_ready sc) (sc_tasks sc) (length specs)) R H s = R () s" for R
    by (rule wp_Ret) (rule Ready_check_run [OF si])
  have enter: "wp (kbind (sched_enter pf policy baseline i sc2) (\<lambda>(entered, event, sc).
         kbind (sched_serve pf policy specs entered event i sc) (\<lambda>sc. kret (True, sc)))) Q H s2"
    if inv2: "live_inv pf policy specs work base baseline sc2 s2" and r: "runs (length specs) i sc2"
      and w: "total_work specs work sc2 = total_work specs work sc" for i sc2 s2
    unfolding wp_seq(1) [of "sched_enter pf policy baseline i sc2"]
  proof (rule sched_enter_live [OF ok inv2 r])
    fix entered event d s3
    assume time: "entered \<le> ex_time event" "base \<le> ex_time event" and ret: "back_from pf policy i s2 s3"
      and good: "good_event pf i (sp_fault (specs ! i)) (work i) event (mem s3)"
    have slice: "kept i event (tk_first (sc_tasks sc2 ! i)) (sc2\<lparr>sc_deadline := d\<rparr>)"
      using inv2 runsD [OF r] by (auto simp: live_inv_def task_times_def kept_def)
    have "wp (sched_serve pf policy specs entered event i (sc2\<lparr>sc_deadline := d\<rparr>))
        (\<lambda>sc s. Q (True, sc) s) H s3"
    proof (rule sched_serve_live [OF ok _ time(1) good_event_reason [OF good] slice])
      show "runs (length specs) i (sc2\<lparr>sc_deadline := d\<rparr>)" using r by simp
      fix sc' s' assume e: "after_event (length specs) i event (sc2\<lparr>sc_deadline := d\<rparr>) sc'"
        and q: "quiet pf policy s3 s'" and k: "kept i event (tk_first (sc_tasks sc2 ! i)) sc'"
      show "Q (True, sc') s'"
        using served_progress [OF ok inv2 r ret good time(2) q e k] again w by auto
    qed
    then show "wp (case (entered, event, sc2\<lparr>sc_deadline := d\<rparr>) of (entered, event, sc) \<Rightarrow>
         kbind (sched_serve pf policy specs entered event i sc) (\<lambda>sc. kret (True, sc))) Q H s3"
      by (simp only: prod.case wp_seq wp_basic(1) [abs_def])
  qed
  show ?thesis
    unfolding sched_step_def wp_seq(2) check wp_seq(1) [of "sched_boost pf policy (length specs) base sc"]
  proof (rule sched_boost_live [OF ok inv])
    fix sc1 s1 assume inv1: "live_inv pf policy specs work base baseline sc1 s1"
      and w1: "total_work specs work sc1 = total_work specs work sc"
    show "wp (kbind (sched_dispatch pf policy sc1) (\<lambda>(current, sc). case current of
         None \<Rightarrow> kret (False, sc)
       | Some i \<Rightarrow> kbind (sched_enter pf policy baseline i sc) (\<lambda>(entered, event, sc).
           kbind (sched_serve pf policy specs entered event i sc) (\<lambda>sc. kret (True, sc))))) Q H s1"
      unfolding wp_seq(1) [of "sched_dispatch pf policy sc1"]
      by (rule sched_dispatch_live [OF ok inv1]) (use stop inv1 enter w1 in \<open>simp_all add: wps(1)\<close>)
  qed
qed

lemma sched_loop_live:
  assumes ok: "scheduling_ok pf" and "live_inv pf policy specs work base baseline sc s"
    and "total_work specs work sc < n"
  shows "wp (sched_loop n pf policy specs base baseline sc)
    (\<lambda>sc' s'. all_done (length specs) sc' \<and> (\<exists>work'. live_inv pf policy specs work' base baseline sc' s'))
    (\<lambda>_. False) s"
  using assms(2,3)
proof (induction n arbitrary: work sc s)
  case 0
  then show ?case by simp
next
  case (Suc n)
  show ?case
    unfolding sched_loop.simps wp_seq(1) [of "sched_step pf policy specs base baseline sc"]
    by (rule sched_step_live [OF ok Suc.prems(1)]) (use Suc in \<open>auto simp: wps(1)\<close>)
qed

section \<open>A whole batch\<close>

text \<open>How a task starts.\<close>

definition initial_frame :: "platform \<Rightarrow> usize \<Rightarrow> nat \<Rightarrow> Spec \<Rightarrow> TrapFrame" where
  "initial_frame pf sstatus i spec = zero_frame\<lparr>
     tf_sstatus := unprivileged sstatus,
     tf_sepc := (if sp_fault spec then symbol pf ''sched_fault'' else symbol pf ''sched_entry''),
     tf_x := (replicate 32 0)[2 := symbol pf ''STACKS'' + of_nat (i * STACK + (STACK - 16)),
       8 := 65 + of_nat i, 9 := sp_iterations spec, 20 := sp_mode spec, 21 := symbol pf ''TIMER_DONE'']\<rparr>"

definition started_task :: "platform \<Rightarrow> usize \<Rightarrow> usize \<Rightarrow> nat \<Rightarrow> Spec \<Rightarrow> Task" where
  "started_task pf base sstatus i spec = blank_task\<lparr>tk_frame := initial_frame pf sstatus i spec,
     tk_state := Task_Ready, tk_ready_since := base\<rparr>"

lemma start_task_run:
  assumes apart: "stacks_apart pf" and i: "i < N"
  shows "start_task pf base i spec blank_task s = Ret (started_task pf base (csrs s Sstatus) i spec) s"
proof -
  have fit: "unat (symbol pf ''STACKS'') + 2 * N * STACK < 2 ^ 64" using apart by (simp add: stacks_apart_def)
  obtain top where top: "stack_top pf i True s = Ret top s"
    "unat top = unat (symbol pf ''STACKS'') + stack_offset i True + STACK"
    using stack_top_run [OF fit i] by blast
  define x where "x = i * STACK + (STACK - 16)"
  have "x < 2 * N * STACK" using i by (simp add: x_def N_def STACK_def)
  moreover from this have "unat (of_nat x :: usize) = x"
    by (simp add: N_def STACK_def unat_of_nat take_bit_eq_mod)
  ultimately have x: "x < 2 * N * STACK" "unat (of_nat x :: usize) = x" by simp_all
  have "(16 :: usize) \<le> top" using top(2) by (simp add: word_le_nat_alt STACK_def)
  moreover have "top - 16 = symbol pf ''STACKS'' + of_nat x"
  proof -
    have "unat (top - 16) = unat (symbol pf ''STACKS'') + x"
      using top(2) \<open>16 \<le> top\<close> by (simp add: unat_sub_le stack_offset_def x_def STACK_def)
    also have "\<dots> = unat (symbol pf ''STACKS'' + of_nat x)" using fit x by (simp add: unat_add_no_overflow)
    finally show ?thesis by (simp add: word_unat_eq_iff)
  qed
  moreover have "unat (65 :: usize) + unat (of_nat i :: usize) < 2 ^ 64"
    using i by (simp add: N_def unat_of_nat take_bit_eq_mod)
  ultimately show ?thesis
    using top(1)
    by (simp add: start_task_def status_def csrr_def krun started_task_def initial_frame_def
        blank_task_def zero_frame_def x_def)
qed

lemma start_tasks_run:
  assumes apart: "stacks_apart pf" and "started k sc" and "k + length specs \<le> N"
    and "\<And>j. k \<le> j \<Longrightarrow> j < N \<Longrightarrow> sc_tasks sc ! j = blank_task"
  shows "\<exists>sc'. start_tasks pf base (zip [k..<k + length specs] specs) sc s = Ret sc' s
    \<and> started (k + length specs) sc'
    \<and> (\<forall>j < k. sc_tasks sc' ! j = sc_tasks sc ! j)
    \<and> (\<forall>j < length specs. sc_tasks sc' ! (k + j) = started_task pf base (csrs s Sstatus) (k + j) (specs ! j))"
  using assms(2-)
proof (induction specs arbitrary: k sc)
  case Nil
  then show ?case by simp (simp add: krun)
next
  case (Cons spec specs)
  have k: "k < N" using Cons.prems(2) by simp
  have st: "length (sc_tasks sc) = N" "rq_ok (sc_ready sc)" "k \<notin> set (queued (sc_ready sc))"
    using Cons.prems(1) k by (simp_all add: started_def)
  let ?t = "started_task pf base (csrs s Sstatus) k spec"
  obtain q where q: "Ready_push (sc_ready sc) k s = Ret (Inr (), q) s" "rq_ok q"
    "queued q = queued (sc_ready sc) @ [k]"
    using rq.push_appends [OF st(2) k st(3)] by blast
  have split: "zip [k..<k + length (spec # specs)] (spec # specs)
      = (k, spec) # zip [Suc k..<Suc k + length specs] specs"
    by (simp add: upt_conv_Cons del: upt_Suc)
  let ?sc = "set_task k ?t (sc\<lparr>sc_ready := q\<rparr>)"
  have run: "start_tasks pf base (zip [k..<k + length (spec # specs)] (spec # specs)) sc s
      = start_tasks pf base (zip [Suc k..<Suc k + length specs] specs) ?sc s"
    unfolding split using Cons.prems(3) [of k] k st q start_task_run [OF apart k, of base spec s]
    by (simp add: krun expect_ok_def del: upt_Suc)
  have next': "started (Suc k) ?sc"
    by (rule started_next [OF Cons.prems(1) k q(2,3)]) (simp_all add: started_task_def blank_task_def)
  obtain sc' where sc': "start_tasks pf base (zip [Suc k..<Suc k + length specs] specs) ?sc s = Ret sc' s"
    "started (Suc k + length specs) sc'"
    "\<forall>j < Suc k. sc_tasks sc' ! j = sc_tasks ?sc ! j"
    "\<forall>j < length specs. sc_tasks sc' ! (Suc k + j) = started_task pf base (csrs s Sstatus) (Suc k + j) (specs ! j)"
    using Cons.IH [OF next'] Cons.prems(2,3) st(1) by auto
  have "sc_tasks sc' ! (k + j) = started_task pf base (csrs s Sstatus) (k + j) ((spec # specs) ! j)"
    if "j < length (spec # specs)" for j
    using sc'(3,4) that st(1) k by (cases j) auto
  then show ?case using run sc' st(1) by (intro exI [of _ sc']) (auto simp: nth_list_update)
qed

text \<open>Specifications whose reports make no demand on the timing.\<close>

definition untimed_specs :: "Policy \<Rightarrow> Spec list \<Rightarrow> bool" where
  "untimed_specs policy specs \<longleftrightarrow> (\<forall>spec \<in> set specs.
     (sp_mode spec = 4 \<longrightarrow> (case policy of Policy_Timer _ \<Rightarrow> False | _ \<Rightarrow> True))
     \<and> (sp_mode spec = 2 \<longrightarrow> policy \<noteq> Policy_Mlfq))"

lemma report_task_live:
  assumes "task_times base t" and "tk_state t = Task_Done" and "i < length specs"
    and "untimed_specs policy specs"
  shows "\<exists>out. report_task pf policy specs base i t s = Ret () (s\<lparr>uart := uart s @ out\<rparr>)"
proof -
  obtain first where first: "tk_first t = Some first" "base \<le> first" "base \<le> tk_completion t"
    using assms(1,2) by (auto simp: task_times_def split: option.splits)
  have spec: "specs ! i \<in> set specs" using assms(3) by simp
  then have "sp_mode (specs ! i) = 4 \<longrightarrow> (case policy of Policy_Timer limit \<Rightarrow> tk_timers t = limit | _ \<Rightarrow> True)"
    "\<not> (sp_mode (specs ! i) = 2 \<and> policy = Policy_Mlfq)"
    using assms(4) by (auto simp: untimed_specs_def split: Policy.splits)
  then show ?thesis using assms(2,3) first by (auto simp: report_task_def krun)
qed

lemma kfor_prints:
  assumes "\<And>x s. x \<in> set xs \<Longrightarrow> \<exists>out. f x s = Ret () (s\<lparr>uart := uart s @ out\<rparr>)"
  shows "\<exists>out. kfor xs f s = Ret () (s\<lparr>uart := uart s @ out\<rparr>)"
  using assms
proof (induction xs arbitrary: s)
  case Nil
  then show ?case by (intro exI [of _ "[]"]) (simp add: krun)
next
  case (Cons x xs)
  obtain o1 where "f x s = Ret () (s\<lparr>uart := uart s @ o1\<rparr>)" using Cons.prems by auto
  moreover obtain o2 where "kfor xs f (s\<lparr>uart := uart s @ o1\<rparr>)
      = Ret () (s\<lparr>uart := uart s @ o1, uart := uart (s\<lparr>uart := uart s @ o1\<rparr>) @ o2\<rparr>)"
    using Cons.IH [of "s\<lparr>uart := uart s @ o1\<rparr>"] Cons.prems by auto
  ultimately show ?case by (intro exI [of _ "o1 @ o2"]) (simp add: krun)
qed

lemma batch_report_live:
  assumes ok: "scheduling_ok pf" and inv: "live_inv pf policy specs work base baseline sc s"
    and done': "all_done (length specs) sc" and specs: "untimed_specs policy specs"
  shows "\<exists>s'. batch_report pf name policy specs base sc s = Ret () s'
    \<and> regs s' = regs s \<and> csrs s' Sie AND 32 = 0 \<and> mem s' = mem s"
proof -
  note env = scheduling_okD [OF ok]
  let ?n = "length specs"
  have len: "length (sc_tasks sc) = N" "?n \<le> N" using inv by (simp_all add: live_inv_def sched_inv_def)
  obtain s1 where stop: "kwhen (timed policy) (stop pf) s = Ret () s1"
    and s1: "regs s1 = regs s" "csrs s1 Sie AND 32 = 0" "mem s1 = mem s"
  proof (cases "timed policy")
    case True
    then show thesis using that stop_run [OF env(2), of s] by (simp add: krun csr_write_def timer_off_bit)
  next
    case False
    then show thesis using that [of s] inv by (simp add: krun live_inv_def)
  qed
  have traces: "\<exists>out. kfor (sc_trace sc) (\<lambda>(i, reason).
       println (''[switch] task='' @ fmt_nat i @ '' reason='' @ fmt_reason reason)) u
      = Ret () (u\<lparr>uart := uart u @ out\<rparr>)" for u
    by (rule kfor_prints) (auto simp: krun)
  have reports: "\<exists>out. kfor (zip [0..<?n] (take ?n (sc_tasks sc)))
       (\<lambda>(i, t). report_task pf policy specs base i t) u = Ret () (u\<lparr>uart := uart u @ out\<rparr>)" for u
  proof (rule kfor_prints)
    fix x and v :: machine assume "x \<in> set (zip [0..<?n] (take ?n (sc_tasks sc)))"
    then obtain i where i: "i < ?n" "x = (i, sc_tasks sc ! i)" using len by (auto simp: in_set_conv_nth)
    then show "\<exists>out. (case x of (i, t) \<Rightarrow> report_task pf policy specs base i t) v
        = Ret () (v\<lparr>uart := uart v @ out\<rparr>)"
      using report_task_live [OF _ _ i(1) specs] inv done' by (simp add: live_inv_def all_done_def)
  qed
  obtain o1 where o1: "kfor (sc_trace sc) (\<lambda>(i, reason).
       println (''[switch] task='' @ fmt_nat i @ '' reason='' @ fmt_reason reason))
       (s1\<lparr>uart := uart s1 @ [10]\<rparr>) = Ret () (s1\<lparr>uart := o1\<rparr>)"
    using traces [of "s1\<lparr>uart := uart s1 @ [10]\<rparr>"] by auto
  obtain o2 where o2: "kfor (zip [0..<?n] (take ?n (sc_tasks sc)))
       (\<lambda>(i, t). report_task pf policy specs base i t) (s1\<lparr>uart := o1\<rparr>) = Ret () (s1\<lparr>uart := o2\<rparr>)"
    using reports [of "s1\<lparr>uart := o1\<rparr>"] by auto
  have blank: "println '''' s1 = Ret () (s1\<lparr>uart := uart s1 @ [10]\<rparr>)" by (simp add: krun as_bytes_def)
  show ?thesis
    unfolding batch_report_def kthen_run [of "kwhen (timed policy) (stop pf)"] stop outcome.case
      kthen_run [of "println ''''"] blank
    using len s1
    by (simp add: kthen_run [of "kfor _ _"] o1 o2 kthen_run [of "panic_if _ _"] panic_if_run kbind_run
        csrr_def kgets_run kthen_run [of "kassert _ _"] kassert_run println_run
        del: append_Cons)
qed

lemma stacks_zeroed:
  assumes apart: "stacks_apart pf" and i: "i < N"
  shows "agree_on_stack pf i (\<lambda>_. 0)
    (store64 (write_zeros m (symbol pf ''STACKS'') (of_nat (2 * N * STACK))) (symbol pf ''TIMER_DONE'') 0)"
  unfolding agree_on_stack_def
proof (intro allI impI)
  fix b assume b: "in_user_stack pf i b"
  have "unat (symbol pf ''STACKS'') \<le> unat b" using b by (simp add: in_user_stack_def)
  then have "unat (b - symbol pf ''STACKS'') = unat b - unat (symbol pf ''STACKS'')"
    by (simp add: unat_sub_le word_le_nat_alt)
  moreover have "unat b - unat (symbol pf ''STACKS'') < 2 * N * STACK"
  proof -
    have "i * STACK + STACK \<le> 2 * N * STACK" using i by (simp add: N_def STACK_def)
    then show ?thesis using b by (auto simp: in_user_stack_def)
  qed
  moreover have "unat (of_nat (2 * N * STACK) :: usize) = 2 * N * STACK" by (simp add: N_def STACK_def)
  ultimately have "b - symbol pf ''STACKS'' < of_nat (2 * N * STACK)" by (simp add: word_less_nat_alt)
  then show "store64 (write_zeros m (symbol pf ''STACKS'') (of_nat (2 * N * STACK)))
      (symbol pf ''TIMER_DONE'') 0 b = 0"
    using apart i b by (simp add: stacks_apart_def store64_clear write_zeros_def)
qed

lemma batch_start_run:
  assumes ok: "scheduling_ok pf" and specs: "specs \<noteq> []" "length specs \<le> N"
  shows "\<exists>sc s'. batch_start pf name policy specs s = Ret (clock pf (time_reads s), sc) s'
    \<and> started (length specs) sc
    \<and> (\<forall>i < length specs. sc_tasks sc ! i
         = started_task pf (clock pf (time_reads s)) (csrs s Sstatus) i (specs ! i))
    \<and> regs s' = regs s \<and> time_reads s' = Suc (time_reads s)
    \<and> (timed policy \<or> csrs s' Sie = csrs s Sie)
    \<and> (\<forall>i < N. agree_on_stack pf i (\<lambda>_. 0) (mem s'))"
proof -
  note env = scheduling_okD [OF ok]
  let ?base = "clock pf (time_reads s)"
  obtain s1 where s1: "kwhen (timed policy) (kthen (init_time pf) (stop pf)) s = Ret () s1"
    and keep: "regs s1 = regs s" "mem s1 = mem s" "time_reads s1 = time_reads s"
      "csrs s1 Sstatus = csrs s Sstatus" "timed policy \<or> csrs s1 Sie = csrs s Sie"
  proof (cases "timed policy")
    case True
    then show thesis using that init_time_run [OF env(2), of s] stop_run [OF env(2)]
      by (simp add: krun csr_write_def)
  qed (use that [of s] in \<open>simp add: krun\<close>)
  let ?m = "store64 (write_zeros (mem s1) (symbol pf ''STACKS'') (of_nat (2 * N * STACK)))
      (symbol pf ''TIMER_DONE'') 0"
  let ?s2 = "s1\<lparr>mem := ?m, time_reads := Suc (time_reads s1)\<rparr>"
  have boost: "checked_add ?base (20 * T) = Some (?base + 20 * T)"
    using env(5) [of "20 * T" "time_reads s"] by (simp add: checked_add_def)
  have "sc_tasks \<lparr>sc_tasks = replicate N blank_task, sc_ready = Ready_new, sc_boost = ?base + 20 * T,
      sc_current = None, sc_deadline = 0, sc_switches = 0, sc_trace = [], sc_dropped = 0, sc_boosts = 0\<rparr> ! j
      = blank_task" if "j < N" for j
    using that by simp
  then obtain sc where sc: "start_tasks pf ?base (zip [0..<length specs] specs)
      \<lparr>sc_tasks = replicate N blank_task, sc_ready = Ready_new, sc_boost = ?base + 20 * T,
       sc_current = None, sc_deadline = 0, sc_switches = 0, sc_trace = [], sc_dropped = 0, sc_boosts = 0\<rparr>
      ?s2 = Ret sc ?s2" "started (length specs) sc"
    "\<forall>j < length specs. sc_tasks sc ! j = started_task pf ?base (csrs ?s2 Sstatus) j (specs ! j)"
    using start_tasks_run [OF env(3) init_tasks_started, of specs "?base + 20 * T" ?base ?s2] specs(2)
    by auto
  have "batch_start pf name policy specs s
      = Ret (?base, sc) (?s2\<lparr>uart := uart ?s2 @ as_bytes (''[schedule] begin='' @ name @ '' policy=''
          @ fmt_policy policy @ '' tasks='' @ fmt_nat (length specs)) @ [10]\<rparr>)"
    unfolding batch_start_def Let_def
    using specs keep sc(1) boost
    by (simp add: kthen_run [of "kassert _ _"] kassert_run kthen_run [of "kwhen _ _"] s1
        kthen_run [of "kmodify _"] kmodify_run kthen_run [of "probe_queue _"] probe_queue_passes
        kbind_run [of "now pf"] now_run kbind_run [of "kexpect _ _"] kexpect_run
        kbind_run [of "start_tasks _ _ _ _"] kthen_run [of "println _"] println_run kret_run
        del: append_Cons)
  then show ?thesis
    using sc(2,3) keep stacks_zeroed [OF env(3)] by (intro exI [of _ sc] exI conjI) (assumption | simp)+
qed

lemma started_live:
  assumes "length (tf_x (initial_frame pf sst i (specs ! i))) = 32"
    and "ends_within pf i (sp_fault (specs ! i)) (work i) (initial_frame pf sst i (specs ! i)) (\<lambda>_. 0)"
    and "agree_on_stack pf i (\<lambda>_. 0) m"
  shows "task_live pf specs work m i (started_task pf base sst i (specs ! i))"
  using assms ends_within_agree by (auto simp: task_live_def started_task_def)

lemma started_times: "task_times base (started_task pf base' sst i spec)"
  by (simp add: task_times_def started_task_def blank_task_def)

lemma batch_loop_live:
  assumes ok: "scheduling_ok pf" and specs: "specs \<noteq> []" "length specs \<le> N" "untimed_specs policy specs"
    and programs: "\<forall>i < length specs. ends_within pf i (sp_fault (specs ! i)) (work i)
      (initial_frame pf (csrs s Sstatus) i (specs ! i)) (\<lambda>_. 0)"
    and idle: "csrs s Sie AND 32 = 0" and fuel: "(\<Sum>i < length specs. work i) < fuel"
  shows "\<exists>base sc s1 sc' s2 work'. batch_start pf name policy specs s = Ret (base, sc) s1 \<and> regs s1 2 = regs s 2
    \<and> sched_loop fuel pf policy specs base (regs s 2) sc s1 = Ret sc' s2
    \<and> all_done (length specs) sc' \<and> live_inv pf policy specs work' base (regs s 2) sc' s2"
proof -
  note env = scheduling_okD [OF ok]
  let ?base = "clock pf (time_reads s)"
  obtain sc s1 where start: "batch_start pf name policy specs s = Ret (?base, sc) s1"
    and st: "started (length specs) sc"
    and tasks: "\<forall>i < length specs. sc_tasks sc ! i = started_task pf ?base (csrs s Sstatus) i (specs ! i)"
    and s1: "regs s1 = regs s" "time_reads s1 = Suc (time_reads s)" "timed policy \<or> csrs s1 Sie = csrs s Sie"
    and zero: "\<forall>i < N. agree_on_stack pf i (\<lambda>_. 0) (mem s1)"
    using batch_start_run [OF ok specs(1,2)] by blast
  have len: "length (tf_x (initial_frame pf sst i spec)) = 32" for sst i spec
    by (simp add: initial_frame_def zero_frame_def)
  have each: "task_times ?base (sc_tasks sc ! i) \<and> task_live pf specs work (mem s1) i (sc_tasks sc ! i)"
    if i: "i < length specs" for i
  proof -
    have "agree_on_stack pf i (\<lambda>_. 0) (mem s1)" using zero i specs(2) by simp
    then have "task_live pf specs work (mem s1) i (started_task pf ?base (csrs s Sstatus) i (specs ! i))"
      using started_live [OF len] programs i by blast
    then show ?thesis using tasks i by (simp add: started_times)
  qed
  have "live_inv pf policy specs work ?base (regs s 2) sc s1"
    unfolding live_inv_def
    using started_inv [OF st specs(2)] s1 idle env(4) [of "time_reads s" "Suc (time_reads s)"] each
    by auto
  moreover have "total_work specs work sc < fuel"
    using fuel tasks by (simp add: total_work_def started_task_def)
  ultimately have "wp (sched_loop fuel pf policy specs ?base (regs s 2) sc)
      (\<lambda>sc' s'. all_done (length specs) sc'
        \<and> (\<exists>work'. live_inv pf policy specs work' ?base (regs s 2) sc' s')) (\<lambda>_. False) s1"
    by (rule sched_loop_live [OF ok])
  then obtain sc' s2 work' where loop: "sched_loop fuel pf policy specs ?base (regs s 2) sc s1 = Ret sc' s2"
    and end': "all_done (length specs) sc'" "live_inv pf policy specs work' ?base (regs s 2) sc' s2"
    by (elim wp_return_cases) blast
  then show ?thesis using start s1 by auto
qed

lemma batch_live:
  assumes ok: "scheduling_ok pf" and specs: "specs \<noteq> []" "length specs \<le> N" "untimed_specs policy specs"
    and programs: "\<forall>i < length specs. ends_within pf i (sp_fault (specs ! i)) (work i)
      (initial_frame pf (csrs s Sstatus) i (specs ! i)) (\<lambda>_. 0)"
    and idle: "csrs s Sie AND 32 = 0" and fuel: "(\<Sum>i < length specs. work i) < fuel"
  shows "\<exists>s'. batch fuel pf name policy specs s = Ret () s' \<and> regs s' 2 = regs s 2 \<and> csrs s' Sie AND 32 = 0"
proof -
  obtain base sc s1 sc' s2 work' where run: "batch_start pf name policy specs s = Ret (base, sc) s1"
      "regs s1 2 = regs s 2" "sched_loop fuel pf policy specs base (regs s 2) sc s1 = Ret sc' s2"
    and end': "all_done (length specs) sc'" "live_inv pf policy specs work' base (regs s 2) sc' s2"
    using batch_loop_live [OF assms] by blast
  obtain s3 where report: "batch_report pf name policy specs base sc' s2 = Ret () s3"
    and s3: "regs s3 = regs s2" "csrs s3 Sie AND 32 = 0"
    using batch_report_live [OF ok end'(2,1) specs(3)] by blast
  have "regs s2 2 = regs s 2" using end'(2) by (simp add: live_inv_def)
  moreover have "batch fuel pf name policy specs s = Ret () s3"
    using run report by (simp add: batch_def krun read_sp_def)
  ultimately show ?thesis using s3 by auto
qed



end
