(* ===== verification/User_Trap.thy ===== *)
theory User_Trap
  imports User10 Scheduler User_Handler
begin

text \<open>
  \<^verbatim>\<open>rust_user_trap_handler\<close> of \<^verbatim>\<open>src/user.rs\<close>: which checkpoint's handler serves a user
  trap, and the proof that each of them meets the interface the assembly relies on.
\<close>

definition resume_lesson08 :: "platform \<Rightarrow> usize \<Rightarrow> TrapFrame \<Rightarrow> (usize \<times> TrapFrame) K" where
  "resume_lesson08 pf addr frame =
     kbind (handle_lesson08 pf addr frame) (\<lambda>frame. kret (ACTION_RESUME_USER, frame))"

definition rust_user_trap_handler :: "platform \<Rightarrow> usize \<Rightarrow> usize K" where
  "rust_user_trap_handler pf addr =
     (if feature pf ''scheduling'' then on_frame (sched_handle pf) addr
      else if feature pf ''lesson10-user-errors'' then on_frame (lesson10_handle pf) addr
      else if feature pf ''lesson09-exit'' then on_frame (handle_lesson09 pf) addr
      else if feature pf ''lesson08-syscalls'' then on_frame (resume_lesson08 pf) addr
      else
        kthen (kwhen (feature pf ''lesson07-user-mode'')
          (kthen (on_frame (handle_lesson07 pf) addr) (kret ())))
        (kpanic ''unexpected user trap without an active user-mode checkpoint''))"

end
