(* ===== verification/User_Laws.thy ===== *)
theory User_Laws
  imports User_Trap Scheduler_Tasks Scheduler_Safety
begin

unbundle bit_operations_syntax

text \<open>
  What the user-trap paths of \<^verbatim>\<open>src/user.rs\<close> and \<^verbatim>\<open>src/user10.rs\<close> promise: which traps are
  accepted, what a system call may change of the user's frame, how a process ends, and that
  every handler leaves the kernel's own registers and saved context alone.
\<close>

section \<open>Accepting a trap\<close>

definition stacks_ordered :: "platform \<Rightarrow> bool" where
  "stacks_ordered pf \<longleftrightarrow>
     symbol pf ''user_stack_start'' < symbol pf ''user_stack_end''
     \<and> symbol pf ''user_trap_stack_start'' < symbol pf ''user_trap_stack_end''
     \<and> symbol pf ''sboot_stack'' < symbol pf ''eboot_stack''"

text \<open>
  The condition in terms of natural numbers: an address that would pass the end of the
  address space counts as its last one, as in the code.
\<close>

definition user_trap_ok :: "platform \<Rightarrow> usize \<Rightarrow> TrapFrame \<Rightarrow> usize \<Rightarrow> usize \<Rightarrow> usize \<Rightarrow> bool" where
  "user_trap_ok pf addr f lo hi stvec \<longleftrightarrow>
     stacks_ordered pf
     \<and> tf_scause f = 8 \<and> tf_sstatus f AND 256 = 0
     \<and> lo \<le> tf_sepc f \<and> tf_sepc f < hi
     \<and> symbol pf ''user_stack_start'' \<le> tf_x f ! 2 \<and> tf_x f ! 2 < symbol pf ''user_stack_end''
     \<and> tf_x f ! 2 AND 0xf = 0
     \<and> symbol pf ''user_trap_stack_start'' \<le> addr
     \<and> min (unat addr + 288) (2 ^ 64 - 1) \<le> unat (symbol pf ''user_trap_stack_end'')
     \<and> stvec = symbol pf ''trap_entry''"

lemma AddressRange_new_cases:
  "a < b \<Longrightarrow> AddressRange_new a b s = Ret \<lparr>ar_start = a, ar_end = b\<rparr> s"
  "\<not> a < b \<Longrightarrow> \<exists>e. AddressRange_new a b s = Panicked e s"
  by (auto simp: AddressRange_new_def krun)

lemma stack_ranges_run:
  "stacks_ordered pf \<Longrightarrow> stack_ranges pf s = Ret
     (\<lparr>ar_start = symbol pf ''user_stack_start'', ar_end = symbol pf ''user_stack_end''\<rparr>,
      \<lparr>ar_start = symbol pf ''user_trap_stack_start'', ar_end = symbol pf ''user_trap_stack_end''\<rparr>,
      \<lparr>ar_start = symbol pf ''sboot_stack'', ar_end = symbol pf ''eboot_stack''\<rparr>) s"
  "\<not> stacks_ordered pf \<Longrightarrow> \<exists>e. stack_ranges pf s = Panicked e s"
  by (auto simp: stack_ranges_def krun AddressRange_new_def stacks_ordered_def)

lemma ecall_cause:
  "\<not> c AND interrupt_bit \<noteq> 0 \<and> c AND NOT interrupt_bit = 8 \<longleftrightarrow> c = 8" for c :: usize
proof
  assume "\<not> c AND interrupt_bit \<noteq> 0 \<and> c AND NOT interrupt_bit = 8"
  moreover have "c = (c AND interrupt_bit) OR (c AND NOT interrupt_bit)"
    by (rule bit_word_eqI) (auto simp: bit_and_iff bit_or_iff bit_not_iff)
  ultimately show "c = 8" by simp
qed (simp add: interrupt_bit_def)

lemma spp_clear: "drop_bit 8 (v AND SSTATUS_SPP) = 0 \<longleftrightarrow> v AND 256 = 0" for v :: usize
proof -
  have clear: "v AND 256 = 0 \<longleftrightarrow> \<not> bit v 8"
    using and_exp_eq_0_iff_not_bit [of v 8] by simp
  have "drop_bit 8 v AND 2 ^ 0 = 0 \<longleftrightarrow> \<not> bit v 8"
    by (simp only: and_exp_eq_0_iff_not_bit bit_drop_bit_eq comp_apply) simp
  then show ?thesis using clear by (simp add: SSTATUS_SPP_def)
qed

lemma trap_frame_end_le:
  "trap_frame_end addr \<le> e \<longleftrightarrow> min (unat addr + 288) (2 ^ 64 - 1) \<le> unat e" for e :: usize
proof -
  have size: "unat (of_nat TRAP_FRAME_SIZE :: usize) = 288"
    by (simp add: TRAP_FRAME_SIZE_def SLOT_SIZE_def)
  show ?thesis
  proof (cases "unat addr + 288 < 2 ^ 64")
    case True
    then have "unat (addr + of_nat TRAP_FRAME_SIZE) = unat addr + 288"
      using size by (simp add: unat_add_no_overflow)
    then show ?thesis using True size
      by (auto simp: trap_frame_end_def checked_add_def word_le_nat_alt)
  next
    case False
    have "unat (- 1 :: usize) = 2 ^ 64 - 1" by (simp add: unsigned_minus_1_eq_mask mask_eq_exp_minus_1)
    then show ?thesis using False size
      by (auto simp: trap_frame_end_def checked_add_def word_le_nat_alt)
  qed
qed

lemma validate_user_trap_accepts:
  "if user_trap_ok pf addr f lo hi (csrs s Stvec)
   then validate_user_trap pf addr f lo hi s = Ret addr s
   else \<exists>e. validate_user_trap pf addr f lo hi s = Panicked e s"
proof (cases "stacks_ordered pf")
  case False
  then show ?thesis
    using stack_ranges_run(2) [OF False, of s] by (auto simp: validate_user_trap_def krun user_trap_ok_def)
next
  case True
  then show ?thesis
    using ecall_cause [of "tf_scause f"] spp_clear [of "tf_sstatus f"]
    by (auto simp: validate_user_trap_def krun user_trap_ok_def stack_ranges_run(1) [OF True] Let_def
        read_stvec_def csrr_def AddressRange_contains_def trap_frame_end_le kernel_trap_entry_address_def)
qed

text \<open>
  C23: a user trap is accepted exactly when it is a system call out of user mode, at a
  program counter inside the given code range, with a 16-byte aligned stack pointer inside
  the user stack, its frame inside the trap stack, and the kernel's trap vector restored;
  acceptance returns the frame's address and changes nothing, everything else panics.
\<close>

theorem validate_user_trap_iff:
  "if user_trap_ok pf addr f lo hi (csrs s Stvec)
   then validate_user_trap pf addr f lo hi s = Ret addr s
   else \<exists>e. validate_user_trap pf addr f lo hi s = Panicked e s"
  by (rule validate_user_trap_accepts)

section \<open>Returning to the program\<close>

lemma apply_return_run:
  "unat (tf_sepc f) + 4 \<le> unat code_end \<Longrightarrow> apply_return f result code_end s =
     Ret ((past_ecall result f)\<lparr>tf_sstatus := tf_sstatus f AND NOT 0x122\<rparr>) s"
  "\<not> unat (tf_sepc f) + 4 \<le> unat code_end \<Longrightarrow> \<exists>e. apply_return f result code_end s = Panicked e s"
proof -
  have four: "unat (4 :: usize) = 4" by simp
  have next_pc: "unat (tf_sepc f + 4) = unat (tf_sepc f) + 4" if "unat (tf_sepc f) + 4 < 2 ^ 64"
    using that unat_add_no_overflow [of "tf_sepc f" 4] four by simp
  have bound: "unat (tf_sepc f) < 18446744073709551612" if "unat (tf_sepc f) + 4 \<le> unat code_end"
    using that unat_bound64 [of code_end] by linarith
  show "unat (tf_sepc f) + 4 \<le> unat code_end \<Longrightarrow> apply_return f result code_end s =
     Ret ((past_ecall result f)\<lparr>tf_sstatus := tf_sstatus f AND NOT 0x122\<rparr>) s"
    using next_pc bound
    by (simp add: apply_return_def krun Let_def checked_add_def word_less_nat_alt past_ecall_def user_consts)
  show "\<not> unat (tf_sepc f) + 4 \<le> unat code_end \<Longrightarrow> \<exists>e. apply_return f result code_end s = Panicked e s"
    using next_pc by (auto simp: apply_return_def krun Let_def checked_add_def word_less_nat_alt)
qed

lemma past_ecall_pc:
  assumes "unat (tf_sepc f) + 4 \<le> unat (hi :: usize)"
  shows "unat (tf_sepc (past_ecall v f)) = unat (tf_sepc f) + 4"
proof -
  have "unat (4 :: usize) = 4" by simp
  moreover have "unat (tf_sepc f) < 18446744073709551612"
    using assms unat_bound64 [of hi] by linarith
  ultimately show ?thesis
    using unat_add_no_overflow [of "tf_sepc f" 4] by (simp add: past_ecall_def)
qed

text \<open>
  C25: a system call returns to the program exactly when the instruction after it exists and
  does not lie beyond the end of the code; then the program finds its result in \<^verbatim>\<open>a0\<close>, goes
  on after the call, in user mode with interrupts off, and every other register is
  untouched.  In every other case the kernel panics.
\<close>

theorem apply_return_correct:
  "if unat (tf_sepc f) + 4 \<le> unat code_end
   then \<exists>f'. apply_return f result code_end s = Ret f' s
     \<and> tf_x f' = (tf_x f)[10 := result] \<and> unat (tf_sepc f') = unat (tf_sepc f) + 4
     \<and> tf_sstatus f' AND 0x122 = 0 \<and> tf_sstatus f' AND NOT 0x122 = tf_sstatus f AND NOT 0x122
     \<and> tf_scause f' = tf_scause f \<and> tf_stval f' = tf_stval f
   else \<exists>e. apply_return f result code_end s = Panicked e s"
proof (cases "unat (tf_sepc f) + 4 \<le> unat code_end")
  case True
  have "unat (4 :: usize) = 4" by simp
  moreover have "unat (tf_sepc f) + 4 < 2 ^ 64"
    using True unat_bound64 [of code_end] by (simp del: unat_bound64)
  ultimately have "unat (tf_sepc f + 4) = unat (tf_sepc f) + 4"
    using unat_add_no_overflow [of "tf_sepc f" 4] by simp
  moreover have "(x AND NOT 0x122) AND 0x122 = 0" "(x AND NOT 0x122) AND NOT 0x122 = x AND NOT 0x122"
    for x :: usize
    by (simp_all only: and.assoc) simp_all
  ultimately show ?thesis using True by (simp add: apply_return_run(1) past_ecall_def)
qed (use apply_return_run(2) in simp)

section \<open>How a process ends\<close>

definition in_code :: "platform \<Rightarrow> string \<Rightarrow> string \<Rightarrow> usize \<Rightarrow> bool" where
  "in_code pf lo hi pc \<longleftrightarrow> symbol pf lo \<le> pc \<and> pc < symbol pf hi"

text \<open>The address range of the lesson 09 program a program counter belongs to.\<close>

definition lesson09_range :: "platform \<Rightarrow> usize \<Rightarrow> (usize \<times> usize) option" where
  "lesson09_range pf pc =
     (if in_code pf ''user09_start'' ''user09_end'' pc
      then Some (symbol pf ''user09_start'', symbol pf ''user09_end'')
      else if in_code pf ''user09_stress_start'' ''user09_stress_end'' pc
      then Some (symbol pf ''user09_stress_start'', symbol pf ''user09_stress_end'')
      else None)"

lemma handle_lesson09_enter:
  assumes code: "lesson09_range pf (tf_sepc f) = Some (lo, hi)"
    and ok: "user_trap_ok pf addr f lo hi (csrs s Stvec)"
    and stable: "expected_trap_frame s \<in> {0, addr}"
    and kind: "user09_ecall_kind pf (tf_sepc f) = Some kind"
  shows "handle_lesson09 pf addr f s =
     (let number = tf_x f ! 17; arg0 = tf_x f ! 10 in
      case dispatch_outcome number arg0 of
        Sys_Return result \<Rightarrow>
          kbind (apply_return f result hi) (\<lambda>f'.
          kthen (kwhen (kind = ''invalid'')
            (println (''[exit] invalid code='' @ fmt_dec arg0 @ '' result='' @ fmt_int result
              @ '' sepc='' @ fmt_hex (tf_sepc f) @ '' next='' @ fmt_hex (tf_sepc f'))))
          (kret (ACTION_RESUME_USER, f')))
      | Sys_Exit c \<Rightarrow>
          kthen (kmodify (\<lambda>s. s\<lparr>last_exit_code := ucast c\<rparr>)) (
          kthen (kwhen (kind = ''exit7'')
            (println (''[exit] code='' @ fmt_dec c @ '' terminate sepc='' @ fmt_hex (tf_sepc f))))
          (kret (ACTION_TERMINATE_PROCESS, f))))
     (s\<lparr>expected_trap_frame := addr,
        uart := uart s @ dispatch_output (tf_x f ! 17) (tf_x f ! 10)\<rparr>)"
proof -
  have accept: "\<And>s'. csrs s' = csrs s \<Longrightarrow> validate_user_trap pf addr f lo hi s' = Ret addr s'"
    using validate_user_trap_accepts [of pf addr f lo hi] ok by simp
  have frame: "record_trap_frame addr s = Ret () (s\<lparr>expected_trap_frame := addr\<rparr>)"
    using stable by (auto simp: record_trap_frame_def krun)
  consider (main) "symbol pf ''user09_start'' \<le> tf_sepc f \<and> tf_sepc f < symbol pf ''user09_end''"
      "lo = symbol pf ''user09_start''" "hi = symbol pf ''user09_end''"
    | (stress) "\<not> (symbol pf ''user09_start'' \<le> tf_sepc f \<and> tf_sepc f < symbol pf ''user09_end'')"
      "symbol pf ''user09_stress_start'' \<le> tf_sepc f \<and> tf_sepc f < symbol pf ''user09_stress_end''"
      "lo = symbol pf ''user09_stress_start''" "hi = symbol pf ''user09_stress_end''"
    using code by (auto simp: lesson09_range_def in_code_def split: if_splits)
  then have range: "handle_lesson09 pf addr f s =
      kbind (validate_user_trap pf addr f lo hi) (\<lambda>frame_address.
      kthen (record_trap_frame frame_address) (
      kbind (kexpect (user09_ecall_kind pf (tf_sepc f))
        (''lesson 09 trapped at unknown ecall PC '' @ fmt_hex (tf_sepc f))) (\<lambda>kind.
      let number = tf_x f ! 17; arg0 = tf_x f ! 10; old_sepc = tf_sepc f in
      kbind (dispatch number arg0) (\<lambda>outcome.
      case outcome of
        Sys_Return result \<Rightarrow>
          kbind (apply_return f result hi) (\<lambda>frame'.
          kthen (kwhen (kind = ''invalid'')
            (println (''[exit] invalid code='' @ fmt_dec arg0 @ '' result='' @ fmt_int result
              @ '' sepc='' @ fmt_hex old_sepc @ '' next='' @ fmt_hex (tf_sepc frame'))))
          (kret (ACTION_RESUME_USER, frame')))
      | Sys_Exit code \<Rightarrow>
          kthen (kmodify (\<lambda>s. s\<lparr>last_exit_code := ucast code\<rparr>)) (
          kthen (kwhen (kind = ''exit7'')
            (println (''[exit] code='' @ fmt_dec code @ '' terminate sepc='' @ fmt_hex old_sepc)))
          (kret (ACTION_TERMINATE_PROCESS, f))))))) s"
  proof cases
    case main
    then show ?thesis
      by (simp add: handle_lesson09_def user09_code_addresses_def user09_stress_code_addresses_def
          Let_def kbind_run kret_run del: append_Cons)
  next
    case stress
    then show ?thesis
      by (simp only: handle_lesson09_def user09_code_addresses_def user09_stress_code_addresses_def
          Let_def kbind_run kret_run if_False if_True simp_thms outcome.case prod.case)
  qed
  show ?thesis
    unfolding range using accept [of s] frame kind
    by (simp add: krun Let_def del: append_Cons split: SyscallOutcome.split)
qed

lemma handle_lesson09_serves:
  assumes code: "lesson09_range pf (tf_sepc f) = Some (lo, hi)"
    and ok: "user_trap_ok pf addr f lo hi (csrs s Stvec)"
    and stable: "expected_trap_frame s \<in> {0, addr}"
    and site: "user09_ecall_kind pf (tf_sepc f) \<noteq> None"
    and room: "unat (tf_sepc f) + 4 \<le> unat hi"
  shows "\<exists>act f' s'. handle_lesson09 pf addr f s = Ret (act, f') s' \<and> expected_trap_frame s' = addr
    \<and> (case dispatch_outcome (tf_x f ! 17) (tf_x f ! 10) of
         Sys_Exit c \<Rightarrow> act = ACTION_TERMINATE_PROCESS \<and> f' = f
           \<and> last_exit_code s' = tf_x f ! 10 \<and> unat (last_exit_code s') < 256
       | Sys_Return v \<Rightarrow> act = ACTION_RESUME_USER \<and> last_exit_code s' = last_exit_code s
           \<and> tf_x f' = (tf_x f)[10 := v] \<and> unat (tf_sepc f') = unat (tf_sepc f) + 4)"
proof -
  obtain kind where "user09_ecall_kind pf (tf_sepc f) = Some kind" using site by auto
  note enter = handle_lesson09_enter [OF code ok stable this]
  show ?thesis
  proof (cases "dispatch_outcome (tf_x f ! 17) (tf_x f ! 10)")
    case (Sys_Return v)
    have "unat (tf_sepc (past_ecall v f)) = unat (tf_sepc f) + 4"
      using room by (rule past_ecall_pc)
    then show ?thesis using Sys_Return
      by (simp add: enter Let_def krun apply_return_run(1) [OF room] past_ecall_def del: append_Cons)
  next
    case (Sys_Exit c)
    then have small: "unat (tf_x f ! 10) < 256" "c = ucast (tf_x f ! 10)"
      by (auto simp: dispatch_outcome_def word_le_nat_alt word_less_nat_alt not_less split: if_splits)
    then have "ucast c = tf_x f ! 10"
      by (simp add: word_unat_eq_iff unsigned_ucast_eq take_bit_eq_mod)
    then show ?thesis using Sys_Exit small(1)
      by (simp add: enter Let_def krun del: append_Cons)
  qed
qed

text \<open>
  C24: in lesson 09 a trap that comes from one of its system-call sites, at the frame
  address of the first trap, ends the process when it is an exit with a valid code, and
  then the mailbox holds exactly that code, the frame is as the program left it and the
  kernel is told to terminate; an invalid exit or any other call resumes the program with
  the call's result and leaves the mailbox alone.
\<close>

theorem handle_lesson09_correct:
  assumes code: "lesson09_range pf (tf_sepc f) = Some (lo, hi)"
    and ok: "user_trap_ok pf addr f lo hi (csrs s Stvec)"
    and stable: "expected_trap_frame s \<in> {0, addr}"
    and site: "user09_ecall_kind pf (tf_sepc f) \<noteq> None"
    and room: "unat (tf_sepc f) + 4 \<le> unat hi"
  shows "\<exists>act f' s'. handle_lesson09 pf addr f s = Ret (act, f') s' \<and> expected_trap_frame s' = addr
    \<and> (case dispatch_outcome (tf_x f ! 17) (tf_x f ! 10) of
         Sys_Exit c \<Rightarrow> act = ACTION_TERMINATE_PROCESS \<and> f' = f
           \<and> last_exit_code s' = tf_x f ! 10 \<and> unat (last_exit_code s') < 256
       | Sys_Return v \<Rightarrow> act = ACTION_RESUME_USER \<and> last_exit_code s' = last_exit_code s
           \<and> tf_x f' = (tf_x f)[10 := v] \<and> unat (tf_sepc f') = unat (tf_sepc f) + 4)"
  using handle_lesson09_serves [OF assms] .

section \<open>A user fault stays a user fault\<close>

text \<open>The traps lesson 10 serves: from the program or its library, at the fixed frame address.\<close>

definition lesson10_trap_ok :: "platform \<Rightarrow> usize \<Rightarrow> TrapFrame \<Rightarrow> machine \<Rightarrow> bool" where
  "lesson10_trap_ok pf addr f s \<longleftrightarrow>
     stacks_ordered pf \<and> symbol pf ''user_api_start'' < symbol pf ''user_api_end''
     \<and> unat addr + 288 = unat (symbol pf ''user_trap_stack_end'')
     \<and> expected_trap_frame s \<in> {0, addr}
     \<and> tf_sstatus f AND 256 = 0 \<and> tf_scause f \<in> {2, 8}
     \<and> csrs s Stvec = symbol pf ''trap_entry''
     \<and> (AddressRange_contains (act_code (active s)) (tf_sepc f)
        \<or> in_code pf ''user_api_start'' ''user_api_end'' (tf_sepc f))
     \<and> \<not> feature pf ''lesson10-kernel-fault''"

definition lesson10_end :: "platform \<Rightarrow> TrapFrame \<Rightarrow> machine \<Rightarrow> usize" where
  "lesson10_end pf f s =
     (if in_code pf ''user_api_start'' ''user_api_end'' (tf_sepc f) then symbol pf ''user_api_end''
      else ar_end (act_code (active s)))"

lemma record_trap_frame_run:
  "expected_trap_frame s \<in> {0, addr} \<Longrightarrow>
   record_trap_frame addr s = Ret () (s\<lparr>expected_trap_frame := addr\<rparr>)"
  by (auto simp: record_trap_frame_def krun)

lemma lesson10_enter:
  assumes "lesson10_trap_ok pf addr f s"
  defines "s1 \<equiv> s\<lparr>expected_trap_frame := addr\<rparr>"
  shows "lesson10_handle pf addr f s =
     (if tf_scause f = 8 then
       kbind (dispatch (tf_x f ! 17) (tf_x f ! 10)) (\<lambda>outcome.
       case outcome of
         Sys_Return result \<Rightarrow>
           kthen (kwhen (sint result < 0)
             (println (''[user error] syscall='' @ fmt_dec (tf_x f ! 17) @ '' arg=''
               @ fmt_dec (tf_x f ! 10) @ '' result='' @ fmt_int result))) (
           kbind (apply_return f result (lesson10_end pf f s)) (\<lambda>f'.
           kret (ACTION_RESUME_USER, f')))
       | Sys_Exit code \<Rightarrow>
           kthen (kmodify (\<lambda>s. s\<lparr>active := (active s)\<lparr>act_outcome := Some (Run_Exited code)\<rparr>\<rparr>))
           (kret (ACTION_TERMINATE_PROCESS, f)))
     else
       kthen (kmodify (\<lambda>s. s\<lparr>active := (active s)\<lparr>act_outcome :=
           Some (Run_Faulted (tf_scause f) (tf_sepc f) (tf_stval f))\<rparr>\<rparr>))
       (kret (ACTION_TERMINATE_PROCESS, f))) s1"
proof -
  let ?e = "symbol pf ''user_trap_stack_end''"
  have size: "unat (of_nat TRAP_FRAME_SIZE :: usize) = 288"
    by (simp add: TRAP_FRAME_SIZE_def SLOT_SIZE_def)
  have addr: "unat addr + 288 = unat ?e" using assms(1) by (simp add: lesson10_trap_ok_def)
  then have le: "of_nat TRAP_FRAME_SIZE \<le> ?e" using size by (simp add: word_le_nat_alt)
  then have slot: "?e - of_nat TRAP_FRAME_SIZE = addr"
    using addr size by (simp add: word_unat_eq_iff unat_sub_le)
  have small: "drop_bit 63 (tf_scause f) = 0"
    using assms(1) by (auto simp: lesson10_trap_ok_def)
  have "tf_scause f = 2 \<or> tf_scause f = 8" using assms(1) by (auto simp: lesson10_trap_ok_def)
  then show ?thesis
    using assms(1) small
    by (elim disjE) (simp_all add: lesson10_handle_def krun stack_ranges_run(1) lesson10_trap_ok_def le slot s1_def
        record_trap_frame_run SSTATUS_SPP_def read_stvec_def csrr_def kernel_trap_entry_address_def
        user_api_range_def AddressRange_new_cases(1) AddressRange_contains_def in_code_def
        lesson10_end_def Let_def del: append_Cons cong: if_cong)
qed

text \<open>
  C16: in lesson 10 an illegal instruction or an exit of the running program, whichever of
  its own or its library's code it comes from, ends that process only: the outcome in the
  mailbox is the fault with its cause, program counter and value, or the exit code, the
  kernel is told to terminate the process, and nothing but the mailbox changes.  A system call
  with an answer resumes the program after the call with the result and no outcome.
\<close>

theorem lesson10_contains_faults:
  assumes ok: "lesson10_trap_ok pf addr f s"
    and room: "unat (tf_sepc f) + 4 \<le> unat (lesson10_end pf f s)"
  shows "\<exists>out act f' o'. lesson10_handle pf addr f s = Ret (act, f')
       (s\<lparr>expected_trap_frame := addr, uart := uart s @ out,
          active := (active s)\<lparr>act_outcome := o'\<rparr>\<rparr>)
    \<and> (if tf_scause f = 2
       then act = ACTION_TERMINATE_PROCESS \<and> f' = f \<and> out = []
          \<and> o' = Some (Run_Faulted 2 (tf_sepc f) (tf_stval f))
       else case dispatch_outcome (tf_x f ! 17) (tf_x f ! 10) of
         Sys_Exit code \<Rightarrow> act = ACTION_TERMINATE_PROCESS \<and> f' = f \<and> o' = Some (Run_Exited code)
       | Sys_Return v \<Rightarrow> act = ACTION_RESUME_USER \<and> o' = act_outcome (active s)
           \<and> tf_x f' = (tf_x f)[10 := v] \<and> unat (tf_sepc f') = unat (tf_sepc f) + 4)"
proof -
  note enter = lesson10_enter [OF ok]
  have cause: "tf_scause f = 2 \<or> tf_scause f = 8" using ok by (auto simp: lesson10_trap_ok_def)
  show ?thesis
  proof (cases "tf_scause f = 2")
    case True
    then show ?thesis by (intro exI [of _ "[]"]) (simp add: enter krun)
  next
    case False
    then have ecall: "tf_scause f = 8" using cause by simp
    show ?thesis
    proof (cases "dispatch_outcome (tf_x f ! 17) (tf_x f ! 10)")
      case (Sys_Return v)
      have "unat (tf_sepc (past_ecall v f)) = unat (tf_sepc f) + 4"
        using room by (rule past_ecall_pc)
      moreover have "only_prints (kwhen (sint v < 0)
          (println (''[user error] syscall='' @ fmt_dec (tf_x f ! 17) @ '' arg=''
            @ fmt_dec (tf_x f ! 10) @ '' result='' @ fmt_int v)))" (is "only_prints ?p")
        by auto
      from only_printsD [OF this, of "s\<lparr>expected_trap_frame := addr,
            uart := uart s @ dispatch_output (tf_x f ! 17) (tf_x f ! 10)\<rparr>"]
      obtain out where "?p (s\<lparr>expected_trap_frame := addr,
            uart := uart s @ dispatch_output (tf_x f ! 17) (tf_x f ! 10)\<rparr>)
          = Ret () (s\<lparr>expected_trap_frame := addr,
              uart := uart s @ dispatch_output (tf_x f ! 17) (tf_x f ! 10) @ out\<rparr>)"
        by (auto simp del: append_Cons)
      ultimately show ?thesis using ecall Sys_Return
        by (intro exI [of _ "dispatch_output (tf_x f ! 17) (tf_x f ! 10) @ out"])
          (simp add: enter kthen_run kbind_run kret_run dispatch_run apply_return_run(1) [OF room]
            past_ecall_def del: append_Cons)
    next
      case (Sys_Exit code)
      then show ?thesis using ecall
        by (intro exI [of _ "dispatch_output (tf_x f ! 17) (tf_x f ! 10)"]) (simp add: enter krun)
    qed
  qed
qed

section \<open>Every handler keeps the kernel's registers and context\<close>

text \<open>What a handler working on a frame has to keep.\<close>

definition frame_local :: "(usize \<Rightarrow> TrapFrame \<Rightarrow> (usize \<times> TrapFrame) K) \<Rightarrow> bool" where
  "frame_local handle \<longleftrightarrow> (\<forall>addr f s. length (tf_x f) = 32 \<longrightarrow>
     kspec (handle addr f) (\<lambda>(_, f') s'. regs s' = regs s \<and> mem s' = mem s \<and> length (tf_x f') = 32)
       (\<lambda>_. True) s)"

lemma frame_local_user_handler:
  assumes "frame_local handle"
  shows "user_handler (on_frame handle)"
proof unfold_locales
  fix addr s act s'
  assume run: "on_frame handle addr s = Ret act s'"
  let ?f = "load_frame (mem s) addr"
  obtain a f s1 where h: "handle addr ?f s = Ret (a, f) s1"
    using run by (auto simp: on_frame_def krun split: outcome.splits)
  have "kspec (handle addr ?f)
      (\<lambda>(_, f') s'. regs s' = regs s \<and> mem s' = mem s \<and> length (tf_x f') = 32) (\<lambda>_. True) s"
    using assms by (simp add: frame_local_def)
  then have keep: "regs s1 = regs s" "mem s1 = mem s" "length (tf_x f) = 32"
    using kspecD [where m = "handle addr ?f", OF _ h] by auto
  have s': "s' = s1\<lparr>mem := store_frame (mem s1) addr f\<rparr>"
    using run h by (simp add: on_frame_def krun)
  show "regs s' = regs s" by (simp add: s' keep)
  show "\<exists>f. length (tf_x f) = 32 \<and> mem s' = store_frame (mem s) addr f"
    by (intro exI [of _ f]) (simp add: s' keep)
qed

lemma apply_return_kspec [kspecs]:
  "kspec (apply_return f v hi) Q (\<lambda>_. True) s =
     (unat (tf_sepc f) + 4 \<le> unat hi \<longrightarrow>
        Q ((past_ecall v f)\<lparr>tf_sstatus := tf_sstatus f AND NOT 0x122\<rparr>) s)"
  using apply_return_run [of f hi v s]
  by (cases "unat (tf_sepc f) + 4 \<le> unat hi") (auto simp: kspec_def)

lemma validate_user_trap_kspec [kspecs]:
  "kspec (validate_user_trap pf addr f lo hi) Q (\<lambda>_. True) s =
     (user_trap_ok pf addr f lo hi (csrs s Stvec) \<longrightarrow> Q addr s)"
  using validate_user_trap_accepts [of pf addr f lo hi s] by (auto simp: kspec_def split: if_splits)

lemma stack_ranges_kspec: "(\<And>r. Q r s) \<Longrightarrow> kspec (stack_ranges pf) Q (\<lambda>_. True) s"
  by (simp add: stack_ranges_def AddressRange_new_def kspecs)

lemma kernel_trap_halts: "\<exists>s'. trigger_illegal_instruction pf s = Halted s'"
  by (simp add: trigger_illegal_instruction_def kernel_trap_def rust_trap_handler_def krun Let_def
      del: append_Cons)

lemma trigger_kspec [kspecs]: "kspec (trigger_illegal_instruction pf) Q E s = True"
  using kernel_trap_halts [of pf s] by (auto simp: kspec_def)

lemma length_past_ecall [simp]: "length (tf_x (past_ecall v f)) = length (tf_x f)"
  by (simp add: past_ecall_def)

lemma sched_handle_local: "frame_local (sched_handle pf)"
  unfolding frame_local_def
proof (intro allI impI)
  fix addr s and f :: TrapFrame assume "length (tf_x f) = 32"
  then show "kspec (sched_handle pf addr f)
      (\<lambda>(_, f') s'. regs s' = regs s \<and> mem s' = mem s \<and> length (tf_x f') = 32) (\<lambda>_. True) s"
    using sched_handle_returns [of pf addr f s]
    by (cases "sched_handle pf addr f s") (auto simp: kspec_def)
qed

lemma handle_lesson08_local: "frame_local (resume_lesson08 pf)"
  by (auto simp: frame_local_def resume_lesson08_def handle_lesson08_def user08_code_addresses_def kspecs
      Let_def simp del: append_Cons split: SyscallOutcome.split)

lemma handle_lesson09_local: "frame_local (handle_lesson09 pf)"
  by (auto simp: frame_local_def handle_lesson09_def user09_code_addresses_def
      user09_stress_code_addresses_def kspecs record_trap_frame_def
      Let_def simp del: append_Cons split: SyscallOutcome.split)

lemma lesson10_handle_local: "frame_local (lesson10_handle pf)"
  by (auto simp: frame_local_def lesson10_handle_def kspecs record_trap_frame_def read_stvec_def
      user_api_range_def AddressRange_new_def Let_def
      simp del: append_Cons intro!: stack_ranges_kspec split: SyscallOutcome.split)

lemma handle_lesson07_local: "frame_local (handle_lesson07 pf)"
  by (auto simp: frame_local_def handle_lesson07_def user07_code_addresses_def kspecs read_stvec_def
      Let_def simp del: append_Cons intro!: stack_ranges_kspec)

lemma handle_lesson07_stops: "handle_lesson07 pf addr f s \<noteq> Ret r s'"
proof -
  have "kspec (handle_lesson07 pf addr f) (\<lambda>_ _. False) (\<lambda>_. True) s"
    by (auto simp: handle_lesson07_def user07_code_addresses_def kspecs read_stvec_def
        Let_def simp del: append_Cons intro!: stack_ranges_kspec)
  then show ?thesis by (auto simp: kspec_def)
qed

lemma stuck_user_handler:
  "(\<And>addr s act s'. h addr s \<noteq> Ret act s') \<Longrightarrow> user_handler h"
  by unfold_locales simp_all

lemma rust_user_trap_handler_selects:
  "feature pf ''scheduling'' \<Longrightarrow> rust_user_trap_handler pf = on_frame (sched_handle pf)"
  "\<not> feature pf ''scheduling'' \<Longrightarrow> feature pf ''lesson10-user-errors'' \<Longrightarrow>
   rust_user_trap_handler pf = on_frame (lesson10_handle pf)"
  "\<not> feature pf ''scheduling'' \<Longrightarrow> \<not> feature pf ''lesson10-user-errors'' \<Longrightarrow> feature pf ''lesson09-exit'' \<Longrightarrow>
   rust_user_trap_handler pf = on_frame (handle_lesson09 pf)"
  "\<not> feature pf ''scheduling'' \<Longrightarrow> \<not> feature pf ''lesson10-user-errors'' \<Longrightarrow> \<not> feature pf ''lesson09-exit'' \<Longrightarrow>
   feature pf ''lesson08-syscalls'' \<Longrightarrow> rust_user_trap_handler pf = on_frame (resume_lesson08 pf)"
  by (auto simp: rust_user_trap_handler_def)

lemma rust_user_trap_handler_ok: "user_handler (rust_user_trap_handler pf)"
proof (cases "feature pf ''scheduling'' \<or> feature pf ''lesson10-user-errors'' \<or> feature pf ''lesson09-exit''
    \<or> feature pf ''lesson08-syscalls''")
  case True
  then show ?thesis
    using frame_local_user_handler [OF sched_handle_local [of pf]]
      frame_local_user_handler [OF lesson10_handle_local [of pf]]
      frame_local_user_handler [OF handle_lesson09_local [of pf]]
      frame_local_user_handler [OF handle_lesson08_local [of pf]]
    by (cases "feature pf ''scheduling''"; cases "feature pf ''lesson10-user-errors''";
        cases "feature pf ''lesson09-exit''") (simp_all add: rust_user_trap_handler_selects)
next
  case False
  then show ?thesis
    by (intro stuck_user_handler)
      (auto simp: rust_user_trap_handler_def krun on_frame_def handle_lesson07_stops split: outcome.splits)
qed

interpretation user_trap: user_handler pf "rust_user_trap_handler pf" for pf
  by (rule rust_user_trap_handler_ok)

section \<open>One trap\<close>

text \<open>What the kernel keeps in its own variables and its peripherals have received.\<close>

definition kernel_data ::
  "machine \<Rightarrow> u8 list \<times> (usize \<times> usize \<times> usize) list \<times> nat \<times> usize \<times> usize \<times> Active \<times> Exchange" where
  "kernel_data s = (uart s, sbi_log s, time_reads s, last_exit_code s, expected_trap_frame s,
     active s, exchange s)"

lemma kernel_data_exec [simp]: "kernel_data (exec pf code s) = kernel_data s"
proof (induction code arbitrary: s)
  case (Cons i code)
  have "kernel_data (exec1 pf i s) = kernel_data s"
    by (cases i) (simp_all add: kernel_data_def rset_def csr_write_def)
  with Cons show ?case by simp
qed simp

lemma user_trap_state:
  assumes slot: "frame_slot_ok pf p" and sc: "csrs s Sscratch = p + 288"
    and user: "user_code pf (user_entries s) (context_of s) (mem s) = Some (g, m)"
  obtains st where
    "\<And>n h. user_loop (Suc n) pf h s = kbind (h p) (\<lambda>action.
       if action = 1 then kthen (kmodify (exec pf terminate_process_code)) (kret action)
       else kthen (kmodify (exec pf restore_user_frame_code)) (user_loop n pf h)) st"
    and "load_frame (mem st) p = trap_context g" and "regs st r_sp = p"
    and "csrs st = (csrs s)(Sstatus := tf_sstatus g, Sepc := tf_sepc g, Scause := tf_scause g,
      Stval := tf_stval g, Sscratch := tf_x g ! 2, Stvec := stvec_keeps pf (symbol pf ''trap_entry''))"
    and "kernel_data st = kernel_data s" and "user_entries st = Suc (user_entries s)"
    and "saved_context pf (mem st) = saved_context pf m"
    and "\<And>b. clear_of_frame b p \<Longrightarrow> mem st b = m b"
proof -
  define su where "su = s\<lparr>regs := (\<lambda>r. if r < 32 then tf_x g ! r else regs s r),
         csrs := (csrs s)(Sstatus := tf_sstatus g, Sepc := tf_sepc g,
                          Scause := tf_scause g, Stval := tf_stval g),
         mem := m, user_entries := Suc (user_entries s)\<rparr>"
  define st where "st = exec pf user_trap_entry_code su"
  have al: "aligned8 p" using slot by (simp add: frame_slot_ok_def)
  have sc': "csrs su Sscratch = p + 288" using sc by (simp add: su_def)
  have ctx: "context_of su = trap_context g"
    by (simp add: context_of_def trap_context_def su_def rget_def)
  note entry = trap_entry_csrs_regs [OF slot sc']
  have "user_loop (Suc n) pf h s = kbind (h p) (\<lambda>action.
       if action = 1 then kthen (kmodify (exec pf terminate_process_code)) (kret action)
       else kthen (kmodify (exec pf restore_user_frame_code)) (user_loop n pf h)) st" for n h
    using user entry
    by (simp add: krun sret_until_trap_def su_def [symmetric] st_def [symmetric])
  moreover have "load_frame (mem st) p = trap_context g" "regs st r_sp = p"
    using user_trap_entry_frame [OF al sc', of pf] entry ctx by (simp_all add: st_def)
  moreover have "csrs st = (csrs s)(Sstatus := tf_sstatus g, Sepc := tf_sepc g, Scause := tf_scause g,
      Stval := tf_stval g, Sscratch := tf_x g ! 2, Stvec := stvec_keeps pf (symbol pf ''trap_entry''))"
    unfolding st_def using slot
    by (subst user_trap_entry_state [OF al sc']) (simp_all add: frame_slot_ok_def su_def)
  moreover have "kernel_data st = kernel_data s" "user_entries st = Suc (user_entries s)"
    by (simp_all add: st_def exec_frame_rule su_def) (simp add: kernel_data_def)
  moreover have "saved_context pf (mem st) = saved_context pf m"
    using saved_context_trap_entry [OF slot sc'] by (simp add: st_def su_def)
  moreover have "mem st b = m b" if "clear_of_frame b p" for b
    using trap_entry_clear [OF sc' that, of pf] by (simp add: st_def su_def)
  ultimately show thesis using that by blast
qed

section \<open>Running a program to its exit\<close>

lemma user_loop_ends:
  assumes slot: "frame_slot_ok pf p" and sc: "csrs s Sscratch = p + 288"
    and user: "user_code pf (user_entries s) (context_of s) (mem s) = Some (g, m)"
    and handle: "\<And>st. csrs st Stvec = stvec_keeps pf (symbol pf ''trap_entry'') \<Longrightarrow>
        expected_trap_frame st = expected_trap_frame s \<Longrightarrow>
        \<exists>f s1. handle p (trap_context g) st = Ret (1, f) s1 \<and> R s1"
    and R: "\<And>s1 s2. R s1 \<Longrightarrow> last_exit_code s2 = last_exit_code s1 \<Longrightarrow> R s2"
  shows "\<exists>s'. user_loop (Suc n) pf (on_frame handle) s = Ret 1 s' \<and> R s'"
proof (rule user_trap_state [OF slot sc user])
  fix st
  assume loop: "\<And>n h. user_loop (Suc n) pf h s = kbind (h p) (\<lambda>action.
       if action = 1 then kthen (kmodify (exec pf terminate_process_code)) (kret action)
       else kthen (kmodify (exec pf restore_user_frame_code)) (user_loop n pf h)) st"
    and frame: "load_frame (mem st) p = trap_context g"
    and cs: "csrs st = (csrs s)(Sstatus := tf_sstatus g, Sepc := tf_sepc g, Scause := tf_scause g,
      Stval := tf_stval g, Sscratch := tf_x g ! 2, Stvec := stvec_keeps pf (symbol pf ''trap_entry''))"
    and data: "kernel_data st = kernel_data s"
  obtain f s1 where h: "handle p (trap_context g) st = Ret (1, f) s1" "R s1"
    using handle [of st] cs data by (auto simp: kernel_data_def)
  let ?s2 = "s1\<lparr>mem := store_frame (mem s1) p f\<rparr>"
  have "user_loop (Suc n) pf (on_frame handle) s = Ret 1 (exec pf terminate_process_code ?s2)"
    unfolding loop using h(1) frame by (simp add: krun on_frame_def)
  moreover have "last_exit_code (exec pf terminate_process_code ?s2) = last_exit_code s1"
    using kernel_data_exec [of pf terminate_process_code ?s2] by (simp add: kernel_data_def)
  ultimately show ?thesis using R [OF h(2)] by (simp del: user_loop.simps)
qed

text \<open>The state \<^verbatim>\<open>run_user\<close> enters user mode in.\<close>

definition user_entry_state :: "platform \<Rightarrow> usize \<Rightarrow> usize \<Rightarrow> usize \<Rightarrow> usize \<Rightarrow> machine \<Rightarrow> machine" where
  "user_entry_state pf usp entry sst tst s = exec pf run_user_code (pass_arguments [usp, entry, sst, tst] s)"

lemma user_entry_state_facts:
  "csrs (user_entry_state pf usp entry sst tst s) Sscratch = tst"
  "user_entries (user_entry_state pf usp entry sst tst s) = user_entries s"
  "expected_trap_frame (user_entry_state pf usp entry sst tst s) = expected_trap_frame s"
proof -
  show "expected_trap_frame (user_entry_state pf usp entry sst tst s) = expected_trap_frame s"
    using kernel_data_exec [of pf run_user_code "pass_arguments [usp, entry, sst, tst] s"]
    by (simp add: kernel_data_def user_entry_state_def pass_arguments_def)
qed (simp_all add: user_entry_state_def run_user_csrs exec_frame_rule pass_arguments_def)

text \<open>
  C13: a program that is run under lesson 09 and first traps with a valid exit at one of its
  system-call sites ends the run: \<^verbatim>\<open>run_user\<close> returns 1 to its Rust caller like an ordinary
  call, with the stack pointer and every other callee-saved register the caller had, and the
  exit code is in the mailbox.
\<close>

theorem exit_returns_to_caller:
  assumes lesson: "feature pf ''lesson09-exit''" "\<not> feature pf ''scheduling''"
      "\<not> feature pf ''lesson10-user-errors''"
    and areas: "kernel_areas_ok pf" and slot: "frame_slot_ok pf p" and keeps: "user_keeps_context pf"
    and user: "user_code pf (user_entries s) (context_of (user_entry_state pf usp entry sst (p + 288) s))
      (mem (user_entry_state pf usp entry sst (p + 288) s)) = Some (g, m)"
    and code: "lesson09_range pf (tf_sepc g) = Some (lo, hi)" "unat (tf_sepc g) + 4 \<le> unat hi"
    and ok: "user_trap_ok pf p (trap_context g) lo hi (stvec_keeps pf (symbol pf ''trap_entry''))"
    and site: "user09_ecall_kind pf (tf_sepc g) \<noteq> None"
    and stable: "expected_trap_frame s \<in> {0, p}"
    and exit: "tf_x g ! 17 = SYSCALL_EXIT" "unat (tf_x g ! 10) < 256"
  shows "\<exists>s'. run_user (Suc n) pf (rust_user_trap_handler pf) usp entry sst (p + 288) s = Ret 1 s'
    \<and> last_exit_code s' = tf_x g ! 10 \<and> callee_saved s' = callee_saved s"
proof -
  let ?u = "user_entry_state pf usp entry sst (p + 288) s"
  have x: "tf_x (trap_context g) ! 17 = 2" "tf_x (trap_context g) ! 10 = tf_x g ! 10"
    "tf_sepc (trap_context g) = tf_sepc g"
    using exit by (simp_all add: trap_context_def SYSCALL_EXIT_def)
  have outcome: "dispatch_outcome 2 (tf_x g ! 10) = Sys_Exit (ucast (tf_x g ! 10))"
    using exit(2) by (simp add: dispatch_outcome_def word_less_nat_alt)
  have handle: "\<exists>f s1. handle_lesson09 pf p (trap_context g) st = Ret (1, f) s1
      \<and> last_exit_code s1 = tf_x g ! 10"
    if "csrs st Stvec = stvec_keeps pf (symbol pf ''trap_entry'')"
      "expected_trap_frame st = expected_trap_frame ?u" for st
    using handle_lesson09_serves [of pf "trap_context g" lo hi p st] code ok site stable that x outcome
    by (auto simp: user_entry_state_facts ACTION_TERMINATE_PROCESS_def)
  have "\<exists>s'. user_loop (Suc n) pf (on_frame (handle_lesson09 pf)) ?u = Ret 1 s'
      \<and> last_exit_code s' = tf_x g ! 10"
  proof (rule user_loop_ends [OF slot])
    show "csrs ?u Sscratch = p + 288" by (simp add: user_entry_state_facts)
    show "user_code pf (user_entries ?u) (context_of ?u) (mem ?u) = Some (g, m)"
      using user by (simp add: user_entry_state_facts)
  qed (use handle in auto)
  then obtain s' where run: "run_user (Suc n) pf (rust_user_trap_handler pf) usp entry sst (p + 288) s = Ret 1 s'"
    and code: "last_exit_code s' = tf_x g ! 10"
    using lesson by (auto simp: run_user_def krun user_entry_state_def rust_user_trap_handler_selects)
  then show ?thesis using user_trap.run_user_abi [OF run areas slot keeps] by auto
qed


section \<open>Saving and restoring a user's context\<close>

text \<open>
  C14: the trap entry and the return path of the assembly are inverse to each other: for a
  frame slot clear of the kernel's save areas, restoring what the entry block saved gives
  back every integer register, the status and the program counter of the interrupted user,
  and leaves \<^verbatim>\<open>sscratch\<close> at the top of the trap stack for the next trap.
\<close>

theorem save_restore_roundtrip:
  assumes "aligned8 p" and "csrs s Sscratch = p + 288"
    and "outside p 36 (symbol pf ''kernel_gp_saved'')" and "outside p 36 (symbol pf ''kernel_tp_saved'')"
  shows "context_of (exec pf restore_user_frame_code (exec pf user_trap_entry_code s)) = context_of s
    \<and> csrs (exec pf restore_user_frame_code (exec pf user_trap_entry_code s)) Sscratch = p + 288"
proof -
  let ?t = "exec pf user_trap_entry_code s"
  have t: "regs ?t r_sp = p" "csrs ?t Scause = csrs s Scause" "csrs ?t Stval = csrs s Stval"
    by (subst user_trap_entry_state [OF assms], simp)+
  have zero: "(tf_x (context_of s))[0 := 0] = tf_x (context_of s)"
    by (simp add: context_of_def rget_def registers_32)
  have "context_of (exec pf restore_user_frame_code ?t) = (context_of s)\<lparr>
      tf_x := (tf_x (context_of s))[0 := 0], tf_scause := csrs s Scause, tf_stval := csrs s Stval\<rparr>"
    using restore_user_frame_context [OF t(2,3), of pf] user_trap_entry_frame [OF assms(1,2), of pf] t
    by simp
  also have "\<dots> = context_of s" using zero by (simp add: context_of_def)
  finally have "context_of (exec pf restore_user_frame_code ?t) = context_of s" .
  moreover have "csrs (exec pf restore_user_frame_code ?t) Sscratch = p + 288"
    by (subst restore_user_frame_state, simp add: t)
  ultimately show ?thesis by simp
qed

end
