(* ===== verification/User_Code.thy ===== *)
theory User_Code
  imports Riscv
begin

unbundle bit_operations_syntax

text \<open>
  The user programs in \<^verbatim>\<open>src/user.S\<close>, \<^verbatim>\<open>src/user10.S\<close>, \<^verbatim>\<open>src/user_api.S\<close> and
  \<^verbatim>\<open>src/user_scheduler.S\<close> as listings, and what the hart does with them in user mode
  between an \<^verbatim>\<open>sret\<close> and the next trap.

  Where the assembler puts an instruction, and what it expands \<^verbatim>\<open>li\<close> and \<^verbatim>\<open>call\<close> to, is
  not fixed by the sources: the assembled text is a map from the address of an instruction
  to the instruction and the address of the next one, and \<open>assembled\<close> says that it holds a
  listing.  Interrupts are not part of this semantics: it serves the lessons that run with
  every interrupt disabled.
\<close>

section \<open>Instructions of the user programs\<close>

datatype uinstr =
    LOADI nat usize         \<comment> \<open>\<^verbatim>\<open>li rd, imm\<close>\<close>
  | ADDIMM nat nat usize    \<comment> \<open>\<^verbatim>\<open>addi rd, rs, imm\<close>, \<^verbatim>\<open>mv rd, rs\<close>\<close>
  | ADD nat nat nat         \<comment> \<open>\<^verbatim>\<open>add rd, rs1, rs2\<close>\<close>
  | MUL nat nat nat         \<comment> \<open>\<^verbatim>\<open>mul rd, rs1, rs2\<close>\<close>
  | SRLI nat nat nat        \<comment> \<open>\<^verbatim>\<open>srli rd, rs, shift\<close>\<close>
  | STORE nat usize nat     \<comment> \<open>\<^verbatim>\<open>sd rs, off(rb)\<close>\<close>
  | LOAD nat usize nat      \<comment> \<open>\<^verbatim>\<open>ld rd, off(rb)\<close>\<close>
  | BEQ nat nat string      \<comment> \<open>\<^verbatim>\<open>beq rs1, rs2, label\<close>, \<^verbatim>\<open>beqz\<close>\<close>
  | BNE nat nat string      \<comment> \<open>\<^verbatim>\<open>bne rs1, rs2, label\<close>, \<^verbatim>\<open>bnez\<close>\<close>
  | BLTU nat nat string     \<comment> \<open>\<^verbatim>\<open>bltu rs1, rs2, label\<close>\<close>
  | JUMP string             \<comment> \<open>\<^verbatim>\<open>j label\<close>\<close>
  | CALL string             \<comment> \<open>\<^verbatim>\<open>call label\<close>\<close>
  | RETURN                  \<comment> \<open>\<^verbatim>\<open>ret\<close>\<close>
  | ECALL
  | ILLEGAL                 \<comment> \<open>\<^verbatim>\<open>.4byte 0\<close>\<close>

datatype line = Lbl string | Ins uinstr

type_synonym uregs = "nat \<Rightarrow> usize"

type_synonym utext = "usize \<Rightarrow> (uinstr \<times> usize) option"

definition uget :: "uregs \<Rightarrow> nat \<Rightarrow> usize" where
  "uget x r = (if r = 0 then 0 else x r)"

definition uset :: "nat \<Rightarrow> usize \<Rightarrow> uregs \<Rightarrow> uregs" where
  "uset r v x = (if r = 0 then x else x(r := v))"

text \<open>
  One instruction, given the address of the next one: it goes on with new registers,
  program counter and memory, or traps with a cause and a trap value.
\<close>

datatype ueffect = Goes_On uregs usize memory | Traps usize usize

fun ustep :: "(string \<Rightarrow> usize) \<Rightarrow> uinstr \<Rightarrow> usize \<Rightarrow> uregs \<Rightarrow> memory \<Rightarrow> ueffect" where
  "ustep adr (LOADI rd imm) pc x m = Goes_On (uset rd imm x) pc m"
| "ustep adr (ADDIMM rd rs imm) pc x m = Goes_On (uset rd (uget x rs + imm) x) pc m"
| "ustep adr (ADD rd r1 r2) pc x m = Goes_On (uset rd (uget x r1 + uget x r2) x) pc m"
| "ustep adr (MUL rd r1 r2) pc x m = Goes_On (uset rd (uget x r1 * uget x r2) x) pc m"
| "ustep adr (SRLI rd rs n) pc x m = Goes_On (uset rd (drop_bit n (uget x rs)) x) pc m"
| "ustep adr (STORE rs off rb) pc x m =
     (if aligned8 (uget x rb + off) then Goes_On x pc (store64 m (uget x rb + off) (uget x rs))
      else Traps 6 (uget x rb + off))"
| "ustep adr (LOAD rd off rb) pc x m =
     (if aligned8 (uget x rb + off) then Goes_On (uset rd (load64 m (uget x rb + off)) x) pc m
      else Traps 4 (uget x rb + off))"
| "ustep adr (BEQ r1 r2 l) pc x m = Goes_On x (if uget x r1 = uget x r2 then adr l else pc) m"
| "ustep adr (BNE r1 r2 l) pc x m = Goes_On x (if uget x r1 \<noteq> uget x r2 then adr l else pc) m"
| "ustep adr (BLTU r1 r2 l) pc x m = Goes_On x (if uget x r1 < uget x r2 then adr l else pc) m"
| "ustep adr (JUMP l) pc x m = Goes_On x (adr l) m"
| "ustep adr (CALL l) pc x m = Goes_On (uset r_ra pc x) (adr l) m"
| "ustep adr RETURN pc x m = Goes_On x (uget x r_ra) m"
| "ustep adr ECALL pc x m = Traps 8 0"
| "ustep adr ILLEGAL pc x m = Traps 2 0"

text \<open>
  Running to the next trap: its cause and value, with the registers, program counter and
  memory there.  \<open>None\<close> is a program that never traps again.  Where the text holds no
  instruction the fetch itself traps.
\<close>

partial_function (option) urun ::
  "utext \<Rightarrow> (string \<Rightarrow> usize) \<Rightarrow> uregs \<Rightarrow> usize \<Rightarrow> memory
   \<Rightarrow> ((usize \<times> usize) \<times> uregs \<times> usize \<times> memory) option" where
  "urun tx adr x pc m =
     (case tx pc of
        None \<Rightarrow> Some ((1, pc), x, pc, m)
      | Some (i, next_pc) \<Rightarrow>
          (case ustep adr i next_pc x m of
             Goes_On x' pc' m' \<Rightarrow> urun tx adr x' pc' m'
           | Traps cause tval \<Rightarrow> Some ((cause, tval), x, pc, m)))"

text \<open>
  The same between trap frames.  An \<^verbatim>\<open>sret\<close> followed by a trap out of user mode clears
  \<^verbatim>\<open>SPP\<close> and \<^verbatim>\<open>SIE\<close> and leaves \<^verbatim>\<open>SPIE\<close> as it was.
\<close>

definition regs_of :: "TrapFrame \<Rightarrow> uregs" where
  "regs_of f = (\<lambda>r. if 0 < r \<and> r < 32 then tf_x f ! r else 0)"

definition user_frame :: "usize \<Rightarrow> usize \<Rightarrow> usize \<Rightarrow> uregs \<Rightarrow> usize \<Rightarrow> TrapFrame" where
  "user_frame sst cause tval x pc =
     \<lparr>tf_x = map x [0..<32], tf_sstatus = sst, tf_sepc = pc, tf_scause = cause, tf_stval = tval\<rparr>"

definition user_mode ::
  "utext \<Rightarrow> (string \<Rightarrow> usize) \<Rightarrow> nat \<Rightarrow> TrapFrame \<Rightarrow> memory \<Rightarrow> (TrapFrame \<times> memory) option" where
  "user_mode tx adr n f m =
     (case urun tx adr (regs_of f) (tf_sepc f) m of
        None \<Rightarrow> None
      | Some ((cause, tval), x, pc, m') \<Rightarrow>
          Some (user_frame (tf_sstatus f AND NOT 0x102) cause tval x pc, m'))"

section \<open>Assembled listings\<close>

text \<open>The address after the instruction at \<open>a\<close>.\<close>

definition after_at :: "utext \<Rightarrow> usize \<Rightarrow> usize" where
  "after_at tx a = (case tx a of None \<Rightarrow> a | Some (_, b) \<Rightarrow> b)"

text \<open>
  The text holds a listing from address \<open>a\<close> on: instructions follow each other upwards, an
  \<^verbatim>\<open>ecall\<close> is four bytes long (it has no compressed form), and a label is the address of
  what follows it.
\<close>

fun assembled :: "utext \<Rightarrow> (string \<Rightarrow> usize) \<Rightarrow> usize \<Rightarrow> line list \<Rightarrow> bool" where
  "assembled tx adr a [] = True"
| "assembled tx adr a (Lbl l # ls) \<longleftrightarrow> adr l = a \<and> assembled tx adr a ls"
| "assembled tx adr a (Ins i # ls) \<longleftrightarrow> tx a = Some (i, after_at tx a)
     \<and> a < after_at tx a \<and> (i = ECALL \<longrightarrow> after_at tx a = a + 4) \<and> assembled tx adr (after_at tx a) ls"

text \<open>The address of the \<open>k\<close>-th instruction of a listing that starts at \<open>a\<close>.\<close>

fun site :: "utext \<Rightarrow> usize \<Rightarrow> nat \<Rightarrow> usize" where
  "site tx a 0 = a"
| "site tx a (Suc k) = after_at tx (site tx a k)"

definition user07_text :: "line list" where
  "user07_text =
    [Lbl ''user_start'', Lbl ''user_entry'', Ins (LOADI r_a7 1), Ins (LOADI r_a0 85),
     Lbl ''user_ecall'', Ins ECALL, Lbl ''user_after_ecall'', Ins (JUMP ''user_after_ecall''),
     Lbl ''user_end'']"

definition user08_text :: "line list" where
  "user08_text =
    [Lbl ''user08_start'', Lbl ''user08_entry'', Ins (LOADI r_s2 0x2222333344445555),
     Ins (LOADI r_s3 0x6666777788889999), Ins (LOADI r_t1 0x1122334455667788),
     Ins (STORE r_t1 0 r_sp), Ins (LOADI r_a7 999), Ins (LOADI r_a0 0),
     Lbl ''user08_ecall_unknown'', Ins ECALL, Ins (LOADI r_t0 (- 1)),
     Ins (BNE r_a0 r_t0 ''user08_fail''), Ins (LOADI r_a7 1), Ins (LOADI r_a0 256),
     Lbl ''user08_ecall_invalid'', Ins ECALL, Ins (LOADI r_t0 (- 2)),
     Ins (BNE r_a0 r_t0 ''user08_fail''), Ins (LOADI r_t0 0x2222333344445555),
     Ins (BNE r_s2 r_t0 ''user08_fail''), Ins (LOADI r_t0 0x6666777788889999),
     Ins (BNE r_s3 r_t0 ''user08_fail''), Ins (LOAD r_t1 0 r_sp),
     Ins (LOADI r_t0 0x1122334455667788), Ins (BNE r_t1 r_t0 ''user08_fail''),
     Ins (LOADI r_a7 1), Ins (LOADI r_a0 79), Lbl ''user08_ecall_o'', Ins ECALL,
     Ins (BNE r_a0 0 ''user08_fail''), Ins (LOADI r_a7 1), Ins (LOADI r_a0 75),
     Lbl ''user08_ecall_k'', Ins ECALL, Ins (BNE r_a0 0 ''user08_fail''), Ins (LOADI r_a7 1),
     Ins (LOADI r_a0 10), Lbl ''user08_ecall_newline'', Ins ECALL,
     Ins (BNE r_a0 0 ''user08_fail''), Ins (LOADI r_t0 0x2222333344445555),
     Ins (BNE r_s2 r_t0 ''user08_fail''), Ins (LOADI r_t0 0x6666777788889999),
     Ins (BNE r_s3 r_t0 ''user08_fail''), Ins (LOAD r_t1 0 r_sp),
     Ins (LOADI r_t0 0x1122334455667788), Ins (BNE r_t1 r_t0 ''user08_fail''),
     Lbl ''user08_done'', Ins (JUMP ''user08_done''), Lbl ''user08_fail'', Ins (LOADI r_a7 1),
     Ins (LOADI r_a0 70), Ins ECALL, Lbl ''user08_fail_loop'', Ins (JUMP ''user08_fail_loop''),
     Lbl ''user08_end'']"

definition user09_text :: "line list" where
  "user09_text =
    [Lbl ''user09_start'', Lbl ''user09_entry'', Ins (LOADI r_a7 2), Ins (LOADI r_a0 256),
     Lbl ''user09_ecall_invalid_exit'', Ins ECALL, Ins (LOADI r_t0 (- 2)),
     Ins (BNE r_a0 r_t0 ''user09_fail''), Ins (LOADI r_a7 2), Ins (LOADI r_a0 7),
     Lbl ''user09_ecall_exit7'', Ins ECALL, Ins (LOADI r_a7 1), Ins (LOADI r_a0 66), Ins ECALL,
     Ins (LOADI r_a7 1), Ins (LOADI r_a0 65), Ins ECALL, Ins (LOADI r_a7 1), Ins (LOADI r_a0 68),
     Ins ECALL, Ins (LOADI r_a7 1), Ins (LOADI r_a0 95), Ins ECALL, Ins (LOADI r_a7 1),
     Ins (LOADI r_a0 65), Ins ECALL, Ins (LOADI r_a7 1), Ins (LOADI r_a0 70), Ins ECALL,
     Ins (LOADI r_a7 1), Ins (LOADI r_a0 84), Ins ECALL, Ins (LOADI r_a7 1), Ins (LOADI r_a0 69),
     Ins ECALL, Ins (LOADI r_a7 1), Ins (LOADI r_a0 82), Ins ECALL, Ins (LOADI r_a7 1),
     Ins (LOADI r_a0 95), Ins ECALL, Ins (LOADI r_a7 1), Ins (LOADI r_a0 69), Ins ECALL,
     Ins (LOADI r_a7 1), Ins (LOADI r_a0 88), Ins ECALL, Ins (LOADI r_a7 1), Ins (LOADI r_a0 73),
     Ins ECALL, Ins (LOADI r_a7 1), Ins (LOADI r_a0 84), Ins ECALL, Ins (LOADI r_a7 1),
     Ins (LOADI r_a0 10), Ins ECALL, Lbl ''user09_fail'', Ins (JUMP ''user09_fail''),
     Lbl ''user09_end'']"

definition user09_stress_text :: "line list" where
  "user09_stress_text =
    [Lbl ''user09_stress_start'', Lbl ''user09_stress_entry'', Ins (LOADI r_a7 2),
     Ins (LOADI r_a0 0), Lbl ''user09_stress_ecall'', Ins ECALL,
     Lbl ''user09_stress_after_exit'', Ins (JUMP ''user09_stress_after_exit''),
     Lbl ''user09_stress_end'']"

definition user10_fault_text :: "line list" where
  "user10_fault_text =
    [Lbl ''user10_fault_start'', Lbl ''user10_fault_entry'', Lbl ''user10_fault_instruction'',
     Ins ILLEGAL, Lbl ''user10_fault_after'', Ins (JUMP ''user10_fault_after''),
     Lbl ''user10_fault_end'']"

definition user10_normal_text :: "line list" where
  "user10_normal_text =
    [Lbl ''user10_normal_start'', Lbl ''user10_normal_entry'', Ins (CALL ''user10_normal_main''),
     Ins (CALL ''user_api_exit''), Ins (LOADI r_a0 66), Ins (CALL ''user_api_putchar''),
     Ins (LOADI r_a0 65), Ins (CALL ''user_api_putchar''), Ins (LOADI r_a0 68),
     Ins (CALL ''user_api_putchar''), Ins (LOADI r_a0 95), Ins (CALL ''user_api_putchar''),
     Ins (LOADI r_a0 69), Ins (CALL ''user_api_putchar''), Ins (LOADI r_a0 88),
     Ins (CALL ''user_api_putchar''), Ins (LOADI r_a0 73), Ins (CALL ''user_api_putchar''),
     Ins (LOADI r_a0 84), Ins (CALL ''user_api_putchar''), Ins (LOADI r_a0 95),
     Ins (CALL ''user_api_putchar''), Ins (LOADI r_a0 82), Ins (CALL ''user_api_putchar''),
     Ins (LOADI r_a0 69), Ins (CALL ''user_api_putchar''), Ins (LOADI r_a0 84),
     Ins (CALL ''user_api_putchar''), Ins (LOADI r_a0 85), Ins (CALL ''user_api_putchar''),
     Ins (LOADI r_a0 82), Ins (CALL ''user_api_putchar''), Ins (LOADI r_a0 78),
     Ins (CALL ''user_api_putchar''), Ins (LOADI r_a0 10), Ins (CALL ''user_api_putchar''),
     Lbl ''user10_normal_1'', Ins (JUMP ''user10_normal_1''), Lbl ''user10_normal_main'',
     Ins (ADDIMM r_sp r_sp (- 16)), Ins (STORE r_ra 8 r_sp), Ins (LOADI r_a7 999),
     Ins (LOADI r_a0 0), Ins ECALL, Ins (LOADI r_t0 (- 1)),
     Ins (BNE r_a0 r_t0 ''user10_failed''), Ins (LOADI r_a0 256),
     Ins (CALL ''user_api_putchar''), Ins (LOADI r_t0 (- 2)),
     Ins (BNE r_a0 r_t0 ''user10_failed''), Ins (LOADI r_a0 79), Ins (CALL ''user_api_putchar''),
     Ins (LOADI r_a0 75), Ins (CALL ''user_api_putchar''), Ins (LOADI r_a0 10),
     Ins (CALL ''user_api_putchar''), Ins (LOADI r_a0 65), Ins (CALL ''user_api_putchar''),
     Ins (LOADI r_a0 70), Ins (CALL ''user_api_putchar''), Ins (LOADI r_a0 84),
     Ins (CALL ''user_api_putchar''), Ins (LOADI r_a0 69), Ins (CALL ''user_api_putchar''),
     Ins (LOADI r_a0 82), Ins (CALL ''user_api_putchar''), Ins (LOADI r_a0 95),
     Ins (CALL ''user_api_putchar''), Ins (LOADI r_a0 70), Ins (CALL ''user_api_putchar''),
     Ins (LOADI r_a0 65), Ins (CALL ''user_api_putchar''), Ins (LOADI r_a0 85),
     Ins (CALL ''user_api_putchar''), Ins (LOADI r_a0 76), Ins (CALL ''user_api_putchar''),
     Ins (LOADI r_a0 84), Ins (CALL ''user_api_putchar''), Ins (LOADI r_a0 95),
     Ins (CALL ''user_api_putchar''), Ins (LOADI r_a0 79), Ins (CALL ''user_api_putchar''),
     Ins (LOADI r_a0 75), Ins (CALL ''user_api_putchar''), Ins (LOADI r_a0 10),
     Ins (CALL ''user_api_putchar''), Ins (LOADI r_a0 0), Ins (LOAD r_ra 8 r_sp),
     Ins (ADDIMM r_sp r_sp 16), Ins RETURN, Lbl ''user10_failed'', Ins (LOADI r_a0 99),
     Ins (CALL ''user_api_exit''), Ins (JUMP ''user10_failed''), Lbl ''user10_normal_end'']"

definition user_api_text :: "line list" where
  "user_api_text =
    [Lbl ''user_api_start'', Lbl ''user_api_putchar'', Ins (LOADI r_a7 1),
     Lbl ''user_api_putchar_ecall'', Ins ECALL, Ins RETURN, Lbl ''user_api_exit'',
     Ins (LOADI r_a7 2), Lbl ''user_api_exit_ecall'', Ins ECALL, Ins RETURN, Lbl ''user_api_end'']"

definition sched_text :: "line list" where
  "sched_text =
    [Lbl ''sched_code_start'', Lbl ''sched_entry'', Ins (LOADI r_a3 0x12345678),
     Ins (ADD r_t0 r_a3 r_s0), Ins (STORE r_t0 0 r_sp), Ins (LOADI r_s2 0), Ins (LOADI r_s3 0),
     Lbl ''sched_loop'', Ins (LOADI r_t0 0x12345678), Ins (BNE r_a3 r_t0 ''sched_fail''),
     Ins (ADD r_t0 r_a3 r_s0), Ins (LOAD r_t1 0 r_sp), Ins (BNE r_t0 r_t1 ''sched_fail''),
     Ins (ADDIMM r_s2 r_s2 1), Ins (ADD r_s3 r_s3 r_s2), Ins (LOADI r_t0 1),
     Ins (BEQ r_s4 r_t0 ''sched_next''), Ins (LOADI r_t0 4),
     Ins (BEQ r_s4 r_t0 ''sched_timer_wait''), Ins (LOADI r_t0 3),
     Ins (BEQ r_s4 r_t0 ''sched_syscall''), Ins (LOADI r_t0 2),
     Ins (BEQ r_s4 r_t0 ''sched_yield''), Ins (ADDIMM r_a0 r_s0 0), Ins (LOADI r_a7 1),
     Ins ECALL, Ins (BNE r_a0 0 ''sched_fail''), Lbl ''sched_yield'', Ins (LOADI r_t2 10000),
     Lbl ''sched_1'', Ins (ADDIMM r_t2 r_t2 (- 1)), Ins (BNE r_t2 0 ''sched_1''),
     Ins (LOADI r_a7 3), Ins ECALL, Ins (BNE r_a0 0 ''sched_fail''), Ins (JUMP ''sched_next''),
     Lbl ''sched_syscall'', Ins (LOADI r_t2 1000), Lbl ''sched_2'', Ins (ADDIMM r_t2 r_t2 (- 1)),
     Ins (BNE r_t2 0 ''sched_2''), Ins (LOADI r_a7 999), Ins ECALL, Ins (LOADI r_t0 (- 1)),
     Ins (BNE r_a0 r_t0 ''sched_fail''), Lbl ''sched_next'', Ins (BLTU r_s2 r_s1 ''sched_loop''),
     Ins (ADDIMM r_t0 r_s1 1), Ins (MUL r_t0 r_t0 r_s1), Ins (SRLI r_t0 r_t0 1),
     Ins (BNE r_s3 r_t0 ''sched_fail''), Ins (LOADI r_a0 0), Ins (LOADI r_a7 2), Ins ECALL,
     Ins (JUMP ''sched_fail''), Lbl ''sched_timer_wait'', Ins (LOAD r_t0 0 r_s5),
     Ins (BEQ r_t0 0 ''sched_loop''), Ins (LOADI r_t0 0x12345678),
     Ins (BNE r_a3 r_t0 ''sched_fail''), Ins (ADD r_t0 r_a3 r_s0), Ins (LOAD r_t1 0 r_sp),
     Ins (BNE r_t0 r_t1 ''sched_fail''), Ins (LOADI r_a0 0), Ins (LOADI r_a7 2), Ins ECALL,
     Lbl ''sched_fail'', Ins (LOADI r_a0 99), Ins (LOADI r_a7 2), Ins ECALL,
     Ins (JUMP ''sched_fail''), Lbl ''sched_fault'', Ins ILLEGAL, Ins (JUMP ''sched_fail''),
     Lbl ''sched_code_end'']"

section \<open>Running assembled text\<close>

fun code_of :: "line list \<Rightarrow> uinstr list" where
  "code_of [] = []"
| "code_of (Lbl l # ls) = code_of ls"
| "code_of (Ins i # ls) = i # code_of ls"

fun labels_of :: "nat \<Rightarrow> line list \<Rightarrow> (string \<times> nat) list" where
  "labels_of k [] = []"
| "labels_of k (Lbl l # ls) = (l, k) # labels_of k ls"
| "labels_of k (Ins i # ls) = labels_of (Suc k) ls"

lemma site_after: "site tx (after_at tx a) k = site tx a (Suc k)"
  by (induction k) simp_all

lemma assembled_fetch:
  "assembled tx adr a ls \<Longrightarrow> k < length (code_of ls) \<Longrightarrow>
   tx (site tx a k) = Some (code_of ls ! k, site tx a (Suc k))
   \<and> site tx a k < site tx a (Suc k) \<and> (code_of ls ! k = ECALL \<longrightarrow> site tx a (Suc k) = site tx a k + 4)"
proof (induction tx adr a ls arbitrary: k rule: assembled.induct)
  case (3 tx adr a i ls)
  then show ?case
  proof (cases k)
    case (Suc j)
    have "assembled tx adr (after_at tx a) ls" "j < length (code_of ls)" using 3 Suc by simp_all
    from "3.IH" [OF this] show ?thesis unfolding Suc site_after by simp
  qed simp
qed auto

lemma assembled_label:
  "assembled tx adr a ls \<Longrightarrow> (l, n) \<in> set (labels_of k ls) \<Longrightarrow> k \<le> n \<and> adr l = site tx a (n - k)"
proof (induction tx adr a ls arbitrary: k rule: assembled.induct)
  case (2 tx adr a l' ls)
  then show ?case by (cases "(l, n) = (l', k)") auto
next
  case (3 tx adr a i ls)
  then have "Suc k \<le> n" "adr l = site tx (after_at tx a) (n - Suc k)" by auto
  then show ?case unfolding site_after by (simp add: Suc_diff_Suc Suc_le_eq)
qed auto

lemma assembled_increasing:
  "assembled tx adr a ls \<Longrightarrow> i < j \<Longrightarrow> j \<le> length (code_of ls) \<Longrightarrow> site tx a i < site tx a j"
proof (induction j)
  case (Suc j)
  then show ?case using assembled_fetch [of tx adr a ls j] by (cases "i = j") (auto intro: less_trans)
qed simp

lemma urun_site:
  assumes "assembled tx adr a ls" and "k < length (code_of ls)"
  shows "urun tx adr x (site tx a k) m =
     (case ustep adr (code_of ls ! k) (site tx a (Suc k)) x m of
        Goes_On x' pc' m' \<Rightarrow> urun tx adr x' pc' m'
      | Traps cause tval \<Rightarrow> Some ((cause, tval), x, site tx a k, m))"
  by (subst urun.simps) (simp add: assembled_fetch [OF assms] del: site.simps)

text \<open>A jump to itself never traps.\<close>

lemma urun_spins:
  assumes "tx pc = Some (JUMP l, b)" and "adr l = pc"
  shows "urun tx adr x pc m = None"
proof -
  have "\<not> (tx' = tx \<and> adr' = adr \<and> pc' = pc)" if "urun tx' adr' x' pc' m' = Some r" for tx' adr' x' pc' m' r
  proof (rule urun.raw_induct [where P = "\<lambda>tx' adr' x' pc' m' r. \<not> (tx' = tx \<and> adr' = adr \<and> pc' = pc)"
        and xa = "((((tx', adr'), x'), pc'), m')", unfolded prod.case, OF _ that])
    fix run tx' adr' x' pc' m' r
    assume IH: "\<And>t a x p m y. run t a x p m = Some y \<Longrightarrow> \<not> (t = tx \<and> a = adr \<and> p = pc)"
      and eq: "(case tx' pc' of None \<Rightarrow> Some ((1, pc'), x', pc', m')
        | Some (i, next_pc) \<Rightarrow> (case ustep adr' i next_pc x' m' of
             Goes_On x pc m \<Rightarrow> run tx' adr' x pc m
           | Traps cause tval \<Rightarrow> Some ((cause, tval), x', pc', m'))) = Some r"
    show "\<not> (tx' = tx \<and> adr' = adr \<and> pc' = pc)"
    proof
      assume "tx' = tx \<and> adr' = adr \<and> pc' = pc"
      with eq assms have "run tx adr x' pc m' = Some r" by simp
      with IH show False by blast
    qed
  qed
  then show ?thesis by (metis option.exhaust)
qed

lemma assembled_spins:
  assumes "assembled tx adr a ls" and "k < length (code_of ls)" and "code_of ls ! k = JUMP l"
    and "adr l = site tx a k"
  shows "urun tx adr x (site tx a k) m = None"
  using assembled_fetch [OF assms(1,2)] assms(3,4) by (auto intro: urun_spins)

lemma site_inject:
  assumes "assembled tx adr a ls" and "i \<le> length (code_of ls)" and "j \<le> length (code_of ls)"
  shows "site tx a i = site tx a j \<longleftrightarrow> i = j"
  using assembled_increasing [OF assms(1), of i j] assembled_increasing [OF assms(1), of j i] assms(2,3)
  by (cases i j rule: linorder_cases) auto

lemma unat_add_4: "a < a + 4 \<Longrightarrow> unat (a + 4) = unat a + 4" for a :: usize
  by (simp add: word_less_nat_alt unat_plus_if' split: if_splits)

lemma ecall_site:
  assumes asm: "assembled tx adr a ls" and k: "k < length (code_of ls)" "code_of ls ! k = ECALL"
  shows "a \<le> site tx a k" "site tx a k < site tx a (length (code_of ls))"
    "unat (site tx a k) + 4 \<le> unat (site tx a (length (code_of ls)))"
    "site tx a k + 4 = site tx a (Suc k)"
proof -
  note f = assembled_fetch [OF asm k(1)]
  show "a \<le> site tx a k"
    using assembled_increasing [OF asm, of 0 k] k by (cases k) (auto intro: less_imp_le)
  show "site tx a k < site tx a (length (code_of ls))"
    using assembled_increasing [OF asm, of k "length (code_of ls)"] k by simp
  show eq: "site tx a k + 4 = site tx a (Suc k)" using f k by simp
  have "site tx a k < site tx a k + 4" using f k eq by simp
  then have "unat (site tx a k + 4) = unat (site tx a k) + 4" by (rule unat_add_4)
  moreover have "site tx a (Suc k) \<le> site tx a (length (code_of ls))"
    using assembled_increasing [OF asm, of "Suc k" "length (code_of ls)"] k
    by (cases "Suc k = length (code_of ls)") (auto intro: less_imp_le)
  ultimately show "unat (site tx a k) + 4 \<le> unat (site tx a (length (code_of ls)))"
    using eq by (simp add: word_le_nat_alt)
qed

text \<open>Rewriting rules that run assembled text instruction by instruction.\<close>

lemmas usteps = uset_def uget_def numeral_2_eq_2 [symmetric]

end
