(* ===== verification/User_Session.thy ===== *)
theory User_Session
  imports User_Laws User_Code
begin

unbundle bit_operations_syntax

text \<open>
  A user program and a trap handler in conversation: the program runs to a trap, the handler
  answers, the program goes on with the answer.  \<open>talks\<close> describes such a conversation from
  the user's side alone (registers, program counter, its own memory); the theorems of the
  locale say that the assembly, the trap frames and the handler together carry it out.
\<close>

section \<open>Conversations\<close>

text \<open>The handler's answer to a trap: a result to resume with, or the end of the program.\<close>

datatype reply = Resume isize "u8 list" | Finish RunOutcome "u8 list" | Refuse

text \<open>Registers as the hardware has them: \<^verbatim>\<open>x0\<close> is zero and there are 32.\<close>

definition hart_regs :: "uregs \<Rightarrow> bool" where
  "hart_regs x \<longleftrightarrow> x 0 = 0 \<and> (\<forall>r \<ge> 32. x r = 0)"

text \<open>
  The program, started with \<open>P\<close> true of memory, traps with \<open>P'\<close> true and only its own bytes
  changed; a condition is private when it looks at those bytes only.
\<close>

definition pauses ::
  "utext \<Rightarrow> (string \<Rightarrow> usize) \<Rightarrow> (usize \<Rightarrow> bool) \<Rightarrow> (memory \<Rightarrow> bool) \<Rightarrow> uregs \<Rightarrow> usize
   \<Rightarrow> usize \<times> usize \<Rightarrow> uregs \<Rightarrow> usize \<Rightarrow> (memory \<Rightarrow> bool) \<Rightarrow> bool" where
  "pauses tx adr own P x pc c x' pc' P' \<longleftrightarrow> hart_regs x' \<and>
     (\<forall>m. P m \<longrightarrow> (\<exists>m'. urun tx adr x pc m = Some (c, x', pc', m') \<and> P' m' \<and> (\<forall>b. \<not> own b \<longrightarrow> m' b = m b)))"

definition private_to :: "(usize \<Rightarrow> bool) \<Rightarrow> (memory \<Rightarrow> bool) \<Rightarrow> bool" where
  "private_to own P \<longleftrightarrow> (\<forall>m m'. (\<forall>b. own b \<longrightarrow> m' b = m b) \<longrightarrow> P m \<longrightarrow> P m')"

lemma pausesI:
  "hart_regs x' \<Longrightarrow> (\<And>m. urun tx adr x pc m = Some (c, x', pc', m)) \<Longrightarrow>
   pauses tx adr own (\<lambda>_. True) x pc c x' pc' (\<lambda>_. True)"
  by (simp add: pauses_def)

lemma private_True [simp]: "private_to own (\<lambda>_. True)"
  by (simp add: private_to_def)

inductive talks ::
  "utext \<Rightarrow> (string \<Rightarrow> usize) \<Rightarrow> (usize \<Rightarrow> bool) \<Rightarrow> (usize \<times> usize \<Rightarrow> uregs \<Rightarrow> usize \<Rightarrow> reply)
   \<Rightarrow> (memory \<Rightarrow> bool) \<Rightarrow> uregs \<Rightarrow> usize \<Rightarrow> u8 list \<Rightarrow> RunOutcome option \<Rightarrow> nat \<Rightarrow> bool"
  for tx adr own reply where
  resume: "pauses tx adr own P x pc c x' pc' P' \<Longrightarrow> private_to own P' \<Longrightarrow> reply c x' pc' = Resume v out \<Longrightarrow>
    talks tx adr own reply P' (x'(10 := v)) (pc' + 4) outs verdict n \<Longrightarrow>
    talks tx adr own reply P x pc (out @ outs) verdict (Suc n)"
| finish: "pauses tx adr own P x pc c x' pc' P' \<Longrightarrow> reply c x' pc' = Finish res out \<Longrightarrow>
    talks tx adr own reply P x pc out (Some res) (Suc 0)"
| spin: "(\<And>m. P m \<Longrightarrow> urun tx adr x pc m = None) \<Longrightarrow> talks tx adr own reply P x pc [] None (Suc 0)"

section \<open>Carrying a conversation out\<close>

definition ready_to_serve :: "platform \<Rightarrow> usize \<Rightarrow> AddressRange \<Rightarrow> machine \<Rightarrow> bool" where
  "ready_to_serve pf p rng s \<longleftrightarrow> csrs s Stvec = symbol pf ''trap_entry''
     \<and> expected_trap_frame s \<in> {0, p} \<and> act_code (active s) = rng"

text \<open>The hart about to enter user mode, from the program's point of view.\<close>

definition enters :: "machine \<Rightarrow> usize \<Rightarrow> (memory \<Rightarrow> bool) \<Rightarrow> uregs \<Rightarrow> usize \<Rightarrow> bool" where
  "enters s p P x pc \<longleftrightarrow> hart_regs x \<and> (\<forall>r. 0 < r \<and> r < 32 \<longrightarrow> regs s r = x r) \<and> csrs s Sepc = pc
     \<and> csrs s Sstatus AND 256 = 0 \<and> csrs s Sscratch = p + 288 \<and> P (mem s)"

lemma hart_regs_set [simp]: "hart_regs x \<Longrightarrow> 0 < r \<Longrightarrow> r < 32 \<Longrightarrow> hart_regs (x(r := v))"
  by (simp add: hart_regs_def)

lemma regs_of_context:
  assumes "enters s p P x pc"
  shows "regs_of (context_of s) = x"
proof
  fix r
  show "regs_of (context_of s) r = x r"
    using assms by (cases "r < 32") (auto simp: enters_def hart_regs_def regs_of_def context_of_def rget_def)
qed

lemma trap_context_user_frame: "hart_regs x \<Longrightarrow> trap_context (user_frame sst c t x pc) = user_frame sst c t x pc"
  by (auto simp: trap_context_def user_frame_def hart_regs_def intro!: map_cong)

lemma saved_context_own:
  assumes clear: "\<And>b. own b \<Longrightarrow> clear_of_saves pf b" and same: "\<And>b. \<not> own b \<Longrightarrow> m' b = m b"
  shows "saved_context pf m' = saved_context pf m"
proof (rule saved_context_eqI)
  fix off assume off: "off \<in> set slots16"
  let ?a = "symbol pf ''kernel_context'' + off"
  have "m' (?a + of_nat j) = m (?a + of_nat j)" if "j < 8" for j
  proof (rule same, rule notI)
    assume "own (?a + of_nat j)"
    then have "clear_of (?a + of_nat j) ?a" using clear off by (auto simp: clear_of_saves_def list_all_iff)
    moreover have "unat (of_nat j :: usize) = j" using that by (simp add: unat_of_nat take_bit_eq_mod)
    ultimately show False using that by (simp add: clear_of_def)
  qed
  then have "map (\<lambda>j. m' (?a + of_nat j)) [0..<8] = map (\<lambda>j. m (?a + of_nat j)) [0..<8]"
    by (intro map_cong) auto
  then show "load64 m' ?a = load64 m ?a" by (simp only: load64_def)
qed

text \<open>Where a conversation takes place: trap vector, frame slot, and the program's bytes.\<close>

definition stage_ok :: "platform \<Rightarrow> usize \<Rightarrow> (usize \<Rightarrow> bool) \<Rightarrow> utext \<Rightarrow> (string \<Rightarrow> usize) \<Rightarrow> bool" where
  "stage_ok pf p own tx adr \<longleftrightarrow> frame_slot_ok pf p
     \<and> stvec_keeps pf (symbol pf ''trap_entry'') = symbol pf ''trap_entry''
     \<and> user_code pf = user_mode tx adr
     \<and> (\<forall>b. own b \<longrightarrow> clear_of_saves pf b \<and> clear_of_frame b p)"

text \<open>What a conversation leaves alone.\<close>

definition undisturbed :: "platform \<Rightarrow> usize \<Rightarrow> (usize \<Rightarrow> bool) \<Rightarrow> machine \<Rightarrow> machine \<Rightarrow> bool" where
  "undisturbed pf p own s s' \<longleftrightarrow> csrs s' Sie = csrs s Sie \<and> csrs s' Sstatus AND 256 = 0
     \<and> sbi_log s' = sbi_log s \<and> time_reads s' = time_reads s \<and> exchange s' = exchange s
     \<and> saved_context pf (mem s') = saved_context pf (mem s)
     \<and> (\<forall>b. clear_of_frame b p \<and> \<not> own b \<longrightarrow> mem s' b = mem s b)"

lemma user_pause:
  assumes stage: "stage_ok pf p own tx adr" and at: "enters s p P x pc"
    and pause: "pauses tx adr own P x pc c x' pc' P'"
  obtains st sst where
    "\<And>n h. user_loop (Suc n) pf h s = kbind (h p) (\<lambda>action.
       if action = 1 then kthen (kmodify (exec pf terminate_process_code)) (kret action)
       else kthen (kmodify (exec pf restore_user_frame_code)) (user_loop n pf h)) st"
    and "load_frame (mem st) p = user_frame sst (fst c) (snd c) x' pc'" and "regs st r_sp = p"
    and "sst AND 256 = 0" and "csrs st Sstatus = sst" and "csrs st Stvec = symbol pf ''trap_entry''"
    and "kernel_data st = kernel_data s" and "undisturbed pf p own s st"
    and "\<exists>m. P' m \<and> (\<forall>b. own b \<longrightarrow> mem st b = m b)"
proof -
  have slot: "frame_slot_ok pf p" and keep: "stvec_keeps pf (symbol pf ''trap_entry'') = symbol pf ''trap_entry''"
    and own: "\<And>b. own b \<Longrightarrow> clear_of_saves pf b" "\<And>b. own b \<Longrightarrow> clear_of_frame b p"
    using stage by (auto simp: stage_ok_def)
  obtain m where m: "urun tx adr x pc (mem s) = Some (c, x', pc', m)" "P' m" "\<And>b. \<not> own b \<Longrightarrow> m b = mem s b"
    using pause at by (auto simp: pauses_def enters_def)
  define sst where "sst = csrs s Sstatus AND NOT 0x102"
  have "csrs s Sstatus AND 256 = 0" using at by (simp add: enters_def)
  then have spp: "sst AND 256 = 0"
    by (simp add: sst_def and.assoc)
  have user: "user_code pf (user_entries s) (context_of s) (mem s) = Some (user_frame sst (fst c) (snd c) x' pc', m)"
    using stage m(1) at regs_of_context [OF at]
    by (cases c) (simp add: stage_ok_def user_mode_def enters_def context_of_def sst_def)
  have sc: "csrs s Sscratch = p + 288" using at by (simp add: enters_def)
  have regs: "hart_regs x'" using pause by (simp add: pauses_def)
  show thesis
  proof (rule user_trap_state [OF slot sc user])
    fix st
    assume loop: "\<And>n h. user_loop (Suc n) pf h s = kbind (h p) (\<lambda>action.
         if action = 1 then kthen (kmodify (exec pf terminate_process_code)) (kret action)
         else kthen (kmodify (exec pf restore_user_frame_code)) (user_loop n pf h)) st"
      and frame: "load_frame (mem st) p = trap_context (user_frame sst (fst c) (snd c) x' pc')"
      and sp: "regs st r_sp = p"
      and cs: "csrs st = (csrs s)(Sstatus := tf_sstatus (user_frame sst (fst c) (snd c) x' pc'),
        Sepc := tf_sepc (user_frame sst (fst c) (snd c) x' pc'), Scause := tf_scause (user_frame sst (fst c) (snd c) x' pc'),
        Stval := tf_stval (user_frame sst (fst c) (snd c) x' pc'),
        Sscratch := tf_x (user_frame sst (fst c) (snd c) x' pc') ! 2, Stvec := stvec_keeps pf (symbol pf ''trap_entry''))"
      and data: "kernel_data st = kernel_data s" and saved: "saved_context pf (mem st) = saved_context pf m"
      and bytes: "\<And>b. clear_of_frame b p \<Longrightarrow> mem st b = m b"
    have "saved_context pf m = saved_context pf (mem s)" using own(1) m(3) by (rule saved_context_own)
    then have "undisturbed pf p own s st"
      using cs data saved bytes m(3) spp by (auto simp: undisturbed_def kernel_data_def user_frame_def)
    moreover have "load_frame (mem st) p = user_frame sst (fst c) (snd c) x' pc'"
      using frame trap_context_user_frame [OF regs] by simp
    moreover have "csrs st Sstatus = sst" "csrs st Stvec = symbol pf ''trap_entry''"
      using cs keep by (simp_all add: user_frame_def)
    moreover have "\<exists>m. P' m \<and> (\<forall>b. own b \<longrightarrow> mem st b = m b)" using m(2) bytes own(2) by blast
    ultimately show thesis using that loop sp spp data by blast
  qed
qed

text \<open>
  The handlers of lessons 09 and 10 remember the frame's address in \<^verbatim>\<open>EXPECTED_TRAP_FRAME\<close>,
  that of lesson 08 does not.
\<close>

definition noted :: "bool \<Rightarrow> usize \<Rightarrow> machine \<Rightarrow> usize" where
  "noted records p s = (if records then p else expected_trap_frame s)"

locale user_service =
  fixes pf :: platform and p :: usize and rng :: AddressRange
    and handler :: "usize \<Rightarrow> TrapFrame \<Rightarrow> (usize \<times> TrapFrame) K"
    and reply :: "usize \<times> usize \<Rightarrow> uregs \<Rightarrow> usize \<Rightarrow> reply"
    and records :: bool
    and settle :: "RunOutcome \<Rightarrow> usize \<times> Active \<Rightarrow> usize \<times> Active"
  assumes resumes: "ready_to_serve pf p rng s \<Longrightarrow> sst AND 256 = 0 \<Longrightarrow> reply c x pc = Resume v out \<Longrightarrow>
      handler p (user_frame sst (fst c) (snd c) x pc) s =
        Ret (0, (past_ecall v (user_frame sst (fst c) (snd c) x pc))\<lparr>tf_sstatus := sst AND NOT 0x122\<rparr>)
          (s\<lparr>expected_trap_frame := noted records p s, uart := uart s @ out\<rparr>)"
    and finishes: "ready_to_serve pf p rng s \<Longrightarrow> sst AND 256 = 0 \<Longrightarrow> reply c x pc = Finish res out \<Longrightarrow>
      handler p (user_frame sst (fst c) (snd c) x pc) s =
        Ret (1, user_frame sst (fst c) (snd c) x pc)
          (s\<lparr>expected_trap_frame := noted records p s, uart := uart s @ out,
             last_exit_code := fst (settle res (last_exit_code s, active s)),
             active := snd (settle res (last_exit_code s, active s))\<rparr>)"
begin

abbreviation loop :: "nat \<Rightarrow> usize K" where
  "loop n \<equiv> user_loop n pf (on_frame handler)"

abbreviation serving_state :: "machine \<Rightarrow> bool" where
  "serving_state s \<equiv> expected_trap_frame s \<in> {0, p} \<and> act_code (active s) = rng"

lemma resumed:
  assumes stage: "stage_ok pf p own tx adr" and at: "enters s p P x pc"
    and pause: "pauses tx adr own P x pc c x' pc' P'" and priv: "private_to own P'"
    and reply: "reply c x' pc' = Resume v out" and served: "serving_state s"
  obtains s' where "\<And>n. loop (Suc n) s = loop n s'" and "enters s' p P' (x'(10 := v)) (pc' + 4)"
    and "undisturbed pf p own s s'" and "uart s' = uart s @ out" and "expected_trap_frame s' = noted records p s"
    and "last_exit_code s' = last_exit_code s" and "active s' = active s"
proof (rule user_pause [OF stage at pause])
  fix st sst
  assume loop: "\<And>n h. user_loop (Suc n) pf h s = kbind (h p) (\<lambda>action.
       if action = 1 then kthen (kmodify (exec pf terminate_process_code)) (kret action)
       else kthen (kmodify (exec pf restore_user_frame_code)) (user_loop n pf h)) st"
    and frame: "load_frame (mem st) p = user_frame sst (fst c) (snd c) x' pc'"
    and sp: "regs st r_sp = p" and spp: "sst AND 256 = 0"
    and cs: "csrs st Sstatus = sst" "csrs st Stvec = symbol pf ''trap_entry''"
    and data: "kernel_data st = kernel_data s" and calm: "undisturbed pf p own s st"
    and own: "\<exists>m. P' m \<and> (\<forall>b. own b \<longrightarrow> mem st b = m b)"
  have slot: "frame_slot_ok pf p" "aligned8 p" and clear: "\<And>b. own b \<Longrightarrow> clear_of_frame b p"
    using stage by (auto simp: stage_ok_def frame_slot_ok_def)
  define f where "f = (past_ecall v (user_frame sst (fst c) (snd c) x' pc'))\<lparr>tf_sstatus := sst AND NOT 0x122\<rparr>"
  define s1 where "s1 = st\<lparr>expected_trap_frame := noted records p st, uart := uart st @ out, mem := store_frame (mem st) p f\<rparr>"
  define s2 where "s2 = exec pf restore_user_frame_code s1"
  have len: "length (tf_x f) = 32" by (simp add: f_def past_ecall_def user_frame_def)
  have ready: "ready_to_serve pf p rng st"
    using cs data served by (auto simp: ready_to_serve_def kernel_data_def)
  have h: "on_frame handler p st = Ret 0 s1"
    using resumes [OF ready spp reply] frame by (simp add: on_frame_def krun s1_def f_def)
  have loop2: "loop (Suc n) s = loop n s2" for n
    unfolding loop s2_def using h by (simp add: krun)
  have mem2: "mem s2 = mem s1" "csrs s2 = (csrs s1)(Sepc := load64 (mem s1) (regs s1 r_sp + 264),
       Sstatus := load64 (mem s1) (regs s1 r_sp + 256), Sscratch := regs s1 r_sp + 288,
       Stvec := stvec_keeps pf (symbol pf ''user_trap_entry''))"
    unfolding s2_def by (subst restore_user_frame_state, simp)+
  have ctx: "context_of s2 = f\<lparr>tf_x := (tf_x f)[0 := 0], tf_scause := csrs s1 Scause, tf_stval := csrs s1 Stval\<rparr>"
    unfolding s2_def using sp load_store_frame [OF slot(2) len]
    by (subst restore_user_frame_context [OF refl refl]) (simp add: s1_def)
  have regs: "regs s2 r = (x'(10 := v)) r" if "0 < r" "r < 32" for r
  proof -
    have "regs s2 r = tf_x (context_of s2) ! r" using that by (simp add: context_of_def rget_def)
    then show ?thesis using that by (simp add: ctx f_def past_ecall_def user_frame_def nth_list_update)
  qed
  have csr2: "csrs s2 Sepc = pc' + 4" "csrs s2 Sstatus = sst AND NOT 0x122" "csrs s2 Sscratch = p + 288"
    using ctx mem2 sp by (simp_all add: context_of_def f_def past_ecall_def user_frame_def s1_def)
  have same: "mem s1 b = mem st b" if "clear_of_frame b p" for b
    using store_frame_clear [OF len that] by (simp add: s1_def)
  obtain m where "P' m" "\<And>b. own b \<Longrightarrow> mem st b = m b" using own by blast
  then have "P' (mem s2)" using priv same clear mem2 unfolding private_to_def by metis
  moreover have "hart_regs x'" using pause by (simp add: pauses_def)
  moreover have "(sst AND NOT 0x122) AND 256 = 0" by (simp add: and.assoc)
  ultimately have "enters s2 p P' (x'(10 := v)) (pc' + 4)"
    using regs csr2 by (simp add: enters_def)
  moreover have "undisturbed pf p own s s2"
    using calm csr2 same saved_context_store_frame [OF slot(1) len] mem2
    by (auto simp: undisturbed_def s1_def s2_def exec_frame_rule and.assoc)
  moreover have "kernel_data s2 = kernel_data (st\<lparr>expected_trap_frame := noted records p st, uart := uart st @ out\<rparr>)"
    by (simp add: s2_def) (simp add: s1_def kernel_data_def)
  ultimately show thesis using that [OF loop2] data by (simp add: kernel_data_def noted_def del: user_loop.simps)
qed

lemma finished:
  assumes stage: "stage_ok pf p own tx adr" and at: "enters s p P x pc"
    and pause: "pauses tx adr own P x pc c x' pc' P'"
    and reply: "reply c x' pc' = Finish res out" and served: "serving_state s"
  obtains s' where "\<And>n. loop (Suc n) s = Ret 1 s'" and "undisturbed pf p own s s'"
    and "callee_saved s' = saved_context pf (mem s)" and "uart s' = uart s @ out"
    and "expected_trap_frame s' = noted records p s"
    and "(last_exit_code s', active s') = settle res (last_exit_code s, active s)"
proof (rule user_pause [OF stage at pause])
  fix st sst
  assume loop: "\<And>n h. user_loop (Suc n) pf h s = kbind (h p) (\<lambda>action.
       if action = 1 then kthen (kmodify (exec pf terminate_process_code)) (kret action)
       else kthen (kmodify (exec pf restore_user_frame_code)) (user_loop n pf h)) st"
    and frame: "load_frame (mem st) p = user_frame sst (fst c) (snd c) x' pc'"
    and spp: "sst AND 256 = 0" and cs: "csrs st Sstatus = sst" "csrs st Stvec = symbol pf ''trap_entry''"
    and data: "kernel_data st = kernel_data s" and calm: "undisturbed pf p own s st"
  define f where "f = user_frame sst (fst c) (snd c) x' pc'"
  define s1 where "s1 = st\<lparr>expected_trap_frame := noted records p st, uart := uart st @ out,
      last_exit_code := fst (settle res (last_exit_code st, active st)),
      active := snd (settle res (last_exit_code st, active st)), mem := store_frame (mem st) p f\<rparr>"
  define s2 where "s2 = exec pf terminate_process_code s1"
  have slot: "frame_slot_ok pf p" using stage by (simp add: stage_ok_def)
  have len: "length (tf_x f) = 32" by (simp add: f_def user_frame_def)
  have ready: "ready_to_serve pf p rng st"
    using cs data served by (auto simp: ready_to_serve_def kernel_data_def)
  have h: "on_frame handler p st = Ret 1 s1"
    using finishes [OF ready spp reply] frame by (simp add: on_frame_def krun s1_def f_def)
  have "loop (Suc n) s = Ret 1 s2" for n
    unfolding loop s2_def using h by (simp add: krun)
  moreover have mem2: "mem s2 = mem s1" "csrs s2 = (csrs s1)(Sscratch := 0)"
    unfolding s2_def by (subst terminate_process_state, simp)+
  have saved: "saved_context pf (mem s1) = saved_context pf (mem st)"
    using saved_context_store_frame [OF slot len] by (simp add: s1_def)
  moreover have "callee_saved s2 = saved_context pf (mem s)"
    using saved calm by (simp add: s2_def terminate_process_regs undisturbed_def)
  moreover have "undisturbed pf p own s s2"
    using calm saved mem2 store_frame_clear [OF len]
    by (auto simp: undisturbed_def s1_def s2_def exec_frame_rule)
  moreover have "kernel_data s2 = kernel_data s1" by (simp add: s2_def)
  ultimately show thesis using that [of s2] data by (simp add: kernel_data_def s1_def noted_def)
qed

lemma undisturbed_trans:
  "undisturbed pf p own s s' \<Longrightarrow> undisturbed pf p own s' s'' \<Longrightarrow> undisturbed pf p own s s''"
  by (auto simp: undisturbed_def)

text \<open>
  A conversation that ends is carried out and ends the call, with the kernel registers that
  \<open>kernel_context\<close> holds; one that never traps again leaves the hart in the program, after
  all the output.
\<close>

theorem conversation:
  assumes "talks tx adr own reply P x pc out verdict n" and "stage_ok pf p own tx adr"
    and "enters s p P x pc" and "serving_state s"
  shows "case verdict of
      None \<Rightarrow> \<exists>s'. loop (n + k) s = Halted s' \<and> uart s' = uart s @ out
    | Some res \<Rightarrow> \<exists>s'. loop (n + k) s = Ret 1 s' \<and> undisturbed pf p own s s'
        \<and> callee_saved s' = saved_context pf (mem s) \<and> uart s' = uart s @ out
        \<and> expected_trap_frame s' = noted records p s
        \<and> (last_exit_code s', active s') = settle res (last_exit_code s, active s)"
  using assms
proof (induction arbitrary: s rule: talks.induct)
  case (resume P x pc c x' pc' P' v out outs verdict n)
  obtain s1 where s1: "\<And>n. loop (Suc n) s = loop n s1" "enters s1 p P' (x'(10 := v)) (pc' + 4)"
    "undisturbed pf p own s s1" "uart s1 = uart s @ out" "expected_trap_frame s1 = noted records p s"
    "last_exit_code s1 = last_exit_code s" "active s1 = active s"
    using resumed [OF resume.prems(1,2) resume.hyps(1-3) resume.prems(3)] by blast
  have step: "loop (Suc n + k) s = loop (n + k) s1" using s1(1) [of "n + k"] by (simp del: user_loop.simps)
  have served: "serving_state s1" using resume.prems(3) s1 by (auto simp: noted_def)
  note IH = resume.IH [OF resume.prems(1) s1(2) served]
  show ?case
  proof (cases verdict)
    case None
    then show ?thesis using IH s1(4) unfolding step by simp
  next
    case (Some res)
    have saved: "saved_context pf (mem s1) = saved_context pf (mem s)" using s1(3) by (simp add: undisturbed_def)
    obtain s' where "loop (n + k) s1 = Ret 1 s'" "undisturbed pf p own s1 s'"
      "callee_saved s' = saved_context pf (mem s1)" "uart s' = uart s1 @ outs" "expected_trap_frame s' = noted records p s1"
      "(last_exit_code s', active s') = settle res (last_exit_code s1, active s1)"
      using IH Some by auto
    then show ?thesis
      unfolding step Some option.case using undisturbed_trans [OF s1(3)] saved s1(4-7)
      by (intro exI [of _ s']) (auto simp: noted_def)
  qed
next
  case (finish P x pc c x' pc' P' res out)
  obtain s' where "\<And>n. loop (Suc n) s = Ret 1 s'" "undisturbed pf p own s s'"
    "callee_saved s' = saved_context pf (mem s)" "uart s' = uart s @ out" "expected_trap_frame s' = noted records p s"
    "(last_exit_code s', active s') = settle res (last_exit_code s, active s)"
    using finished [OF finish.prems(1,2) finish.hyps finish.prems(3)] by blast
  then show ?case
    unfolding option.case add_Suc plus_nat.add_0 by (intro exI [of _ s']) (simp del: user_loop.simps)
next
  case (spin P x pc)
  have "user_code pf (user_entries s) (context_of s) (mem s) = None"
    using spin regs_of_context [OF spin.prems(2)] by (simp add: stage_ok_def user_mode_def enters_def context_of_def)
  then show ?case by (simp add: krun sret_until_trap_def)
qed

end

end
