(* ===== verification/User_Setup.thy ===== *)
theory User_Setup
  imports User_Session
begin

unbundle bit_operations_syntax

text \<open>
  From a linked image to a program in user mode: what \<^verbatim>\<open>prepare_process\<close> accepts and builds,
  and how \<^verbatim>\<open>run_user\<close> and \<^verbatim>\<open>enter_user_mode\<close> start a conversation with it.
\<close>

section \<open>Preparing a process\<close>

definition boot_stack :: "platform \<Rightarrow> AddressRange" where
  "boot_stack pf = \<lparr>ar_start = symbol pf ''sboot_stack'', ar_end = symbol pf ''eboot_stack''\<rparr>"

definition process_ok :: "platform \<Rightarrow> Program \<Rightarrow> AddressRange \<Rightarrow> AddressRange \<Rightarrow> usize \<Rightarrow> bool" where
  "process_ok pf program us ts sie \<longleftrightarrow>
     AddressRange_extent us = 0x4000 \<and> AddressRange_extent ts = 0x4000
     \<and> \<not> AddressRange_overlaps us ts \<and> \<not> AddressRange_overlaps us (boot_stack pf)
     \<and> \<not> AddressRange_overlaps ts (boot_stack pf)
     \<and> ar_end us AND 15 = 0 \<and> ar_end ts AND 15 = 0 \<and> pr_entry program AND 1 = 0 \<and> sie = 0"

definition prepared :: "u64 \<Rightarrow> Program \<Rightarrow> AddressRange \<Rightarrow> AddressRange \<Rightarrow> usize \<Rightarrow> Process" where
  "prepared pid program us ts sstatus =
     \<lparr>pc_id = pid, pc_program = program, pc_state = Running,
      pc_user = Some \<lparr>ur_user_stack = us, ur_trap_stack = ts,
        ur_context = UserContext_new (pr_entry program) (ar_end us - 16) (sstatus AND NOT 0x122)\<rparr>\<rparr>"

lemma unat_and_15: "unat (x AND 15) = unat x mod 16" for x :: usize
proof -
  have "x AND 15 = x mod 16" using take_bit_eq_mask [of 4 x] by (simp add: mask_eq_exp_minus_1 take_bit_eq_mod)
  then show ?thesis by (simp only: unat_mod) simp
qed

lemma and_15_minus_16: "(a - 16) AND 15 = a AND 15" for a :: usize
proof -
  have "unat (x + 16) mod 16 = unat x mod 16" for x :: usize
    by (simp add: unat_word_ariths mod_mod_cancel)
  from this [of "a - 16"] have "unat a mod 16 = unat (a - 16) mod 16" by simp
  then show ?thesis by (simp add: word_unat_eq_iff unat_and_15)
qed

lemma stack_pointer_inside:
  assumes "ar_start us < ar_end us" and "AddressRange_extent us = 0x4000"
  shows "16 \<le> ar_end us" and "AddressRange_contains us (ar_end us - 16)"
proof -
  have "unat (ar_end us) - unat (ar_start us) = 0x4000"
    using assms unat_sub_le [of "ar_start us" "ar_end us"] by (simp add: AddressRange_extent_def)
  then have far: "unat (ar_start us) + 0x4000 = unat (ar_end us)" using assms(1) by (simp add: word_less_nat_alt)
  then show le: "16 \<le> ar_end us" by (simp add: word_le_nat_alt)
  then have "unat (ar_end us - 16) = unat (ar_end us) - 16" by (simp add: unat_sub_le)
  then show "AddressRange_contains us (ar_end us - 16)"
    using far by (simp add: AddressRange_contains_def word_le_nat_alt word_less_nat_alt)
qed

lemma prepare_process_cases:
  assumes ranges: "stacks_ordered pf" "ar_start us < ar_end us" "ar_start ts < ar_end ts"
  shows "if process_ok pf program us ts (csrs s Sie)
    then prepare_process pf pid program us ts s = Ret (prepared pid program us ts (csrs s Sstatus)) s
    else \<exists>e. prepare_process pf pid program us ts s = Panicked e s"
proof -
  have size: "AddressRange_size pf us t = Ret (AddressRange_extent us) t"
    "AddressRange_size pf ts t = Ret (AddressRange_extent ts) t" for t
    using ranges by (simp_all add: AddressRange_size_run)
  let ?checks = "AddressRange_extent us = 0x4000 \<and> AddressRange_extent ts = 0x4000
     \<and> \<not> AddressRange_overlaps us ts \<and> \<not> AddressRange_overlaps us (boot_stack pf)
     \<and> \<not> AddressRange_overlaps ts (boot_stack pf)"
  have checks: "if ?checks then validate_runtime_ranges pf us ts s = Ret () s
      else \<exists>e. validate_runtime_ranges pf us ts s = Panicked e s"
    by (auto simp: validate_runtime_ranges_def krun stack_ranges_run(1) [OF ranges(1)] size boot_stack_def
        STACK_BYTES_def)
  show ?thesis
  proof (cases ?checks)
    case False
    then show ?thesis using checks by (auto simp: process_ok_def prepare_process_def krun)
  next
    case True
    then have v: "validate_runtime_ranges pf us ts s = Ret () s" using checks by simp
    have sp: "16 \<le> ar_end us" "AddressRange_contains us (ar_end us - 16)"
      using stack_pointer_inside ranges(2) True by blast+
    have sst: "trusted_user_sstatus s = Ret (csrs s Sstatus AND NOT 0x122) s"
      by (simp add: trusted_user_sstatus_def krun csrr_def user_consts)
    have "(csrs s Sstatus AND NOT 0x122) AND 256 = 0" by (simp add: and.assoc)
    then show ?thesis
      using True sp
      by (auto simp: process_ok_def prepare_process_def krun v sst read_sie_def csrr_def SSTATUS_SPP_def
          initial_user_sp_def and_15_minus_16 Let_def attach_user_runtime_def Process_new_def
          Process_start_def prepared_def)
  qed
qed

text \<open>
  C18: a process is prepared exactly when both stacks are 16 KiB, the two and the boot stack are
  pairwise disjoint, both tops are 16-byte aligned, the entry point is even and every interrupt
  source is disabled; it is then running on its program, with its stack pointer 16 bytes below
  the top of the user stack, every other register zero, the program's entry as program
  counter, and a status in which user mode is next and interrupts stay off.  Otherwise the
  kernel panics; the machine is unchanged either way.
\<close>

theorem prepare_process_iff:
  assumes "stacks_ordered pf" and "ar_start us < ar_end us" and "ar_start ts < ar_end ts"
  shows "if process_ok pf program us ts (csrs s Sie)
    then prepare_process pf pid program us ts s = Ret (prepared pid program us ts (csrs s Sstatus)) s
    else \<exists>e. prepare_process pf pid program us ts s = Panicked e s"
  using assms by (rule prepare_process_cases)

section \<open>Starting a conversation\<close>

text \<open>The registers user mode starts with.\<close>

definition fresh_regs :: "usize \<Rightarrow> uregs" where
  "fresh_regs usp = (\<lambda>_. 0)(2 := usp)"

lemma hart_regs_fresh [simp]: "hart_regs (fresh_regs usp)"
  by (simp add: fresh_regs_def hart_regs_def)

lemma enter_user_mode_context:
  "context_of (exec pf enter_user_mode_code s) =
     \<lparr>tf_x = (replicate 32 0)[2 := regs s r_a0], tf_sstatus = regs s r_a2, tf_sepc = regs s r_a1,
      tf_scause = csrs s Scause, tf_stval = csrs s Stval\<rparr>"
  "csrs (exec pf enter_user_mode_code s) Sscratch = regs s r_a3"
  by (simp_all add: enter_user_mode_code_def exec_append build_user_state_context save_kernel_env_code_def exec_simps)
    (simp add: build_user_state_code_def exec_simps)

lemma enters_context:
  assumes "context_of s = \<lparr>tf_x = (replicate 32 0)[2 := usp], tf_sstatus = sst, tf_sepc = pc,
      tf_scause = c, tf_stval = t\<rparr>" and "csrs s Sscratch = p + 288" and "sst AND 256 = 0"
  shows "enters s p (\<lambda>_. True) (fresh_regs usp) pc"
proof -
  have "regs s r = fresh_regs usp r" if "0 < r" "r < 32" for r
  proof -
    have "regs s r = tf_x (context_of s) ! r" using that by (simp add: context_of_def rget_def)
    then show ?thesis using that by (simp add: assms(1) fresh_regs_def nth_list_update)
  qed
  then show ?thesis using assms by (simp add: enters_def context_of_def)
qed

lemma enter_user_mode_starts:
  assumes spp: "sst AND 256 = 0"
  obtains s1 where "\<And>fuel h. enter_user_mode fuel pf h usp entry sst (p + 288) s = user_loop fuel pf h s1"
    and "enters s1 p (\<lambda>_. True) (fresh_regs usp) entry" and "kernel_data s1 = kernel_data s"
proof -
  let ?args = "pass_arguments [usp, entry, sst, p + 288] s"
  define s1 where "s1 = exec pf enter_user_mode_code ?args"
  have args: "regs ?args r_a0 = usp" "regs ?args r_a1 = entry" "regs ?args r_a2 = sst" "regs ?args r_a3 = p + 288"
    "kernel_data ?args = kernel_data s" by (simp_all add: pass_arguments_def kernel_data_def)
  show thesis
  proof
    show "enter_user_mode fuel pf h usp entry sst (p + 288) s = user_loop fuel pf h s1" for fuel h
      by (simp add: enter_user_mode_def krun s1_def del: user_loop.simps)
    show "enters s1 p (\<lambda>_. True) (fresh_regs usp) entry"
      using spp by (intro enters_context) (simp_all add: s1_def enter_user_mode_context args)
    show "kernel_data s1 = kernel_data s" by (simp add: s1_def args)
  qed
qed

context user_service
begin

lemma process_finishes:
  assumes talk: "talks tx adr own reply (\<lambda>_. True) (fresh_regs usp) entry out (Some res) n"
    and stage: "stage_ok pf p own tx adr" and areas: "kernel_areas_ok pf" and spp: "sst AND 256 = 0"
    and served: "serving_state s"
  obtains s' where "run_user (n + k) pf (on_frame handler) usp entry sst (p + 288) s = Ret 1 s'"
    and "callee_saved s' = callee_saved s" and "uart s' = uart s @ out" and "expected_trap_frame s' = noted records p s"
    and "(last_exit_code s', active s') = settle res (last_exit_code s, active s)"
    and "csrs s' Sie = csrs s Sie"
proof -
  let ?args = "pass_arguments [usp, entry, sst, p + 288] s"
  define s1 where "s1 = exec pf run_user_code ?args"
  have args: "regs ?args r_a0 = usp" "regs ?args r_a1 = entry" "regs ?args r_a2 = sst" "regs ?args r_a3 = p + 288"
    "callee_saved ?args = callee_saved s" "kernel_data ?args = kernel_data s" "csrs ?args = csrs s"
    by (simp_all add: pass_arguments_def callee_saved_def kernel_regs_def kernel_data_def)
  have data: "kernel_data s1 = kernel_data s" by (simp add: s1_def args)
  have "enters s1 p (\<lambda>_. True) (fresh_regs usp) entry"
    using spp by (intro enters_context) (simp_all add: s1_def run_user_context run_user_csrs args)
  moreover have "serving_state s1" using served data by (simp add: kernel_data_def)
  ultimately obtain s' where s': "loop (n + k) s1 = Ret 1 s'" "undisturbed pf p own s1 s'"
      "callee_saved s' = saved_context pf (mem s1)" "uart s' = uart s1 @ out" "expected_trap_frame s' = noted records p s1"
      "(last_exit_code s', active s') = settle res (last_exit_code s1, active s1)"
    using conversation [OF talk stage] by auto
  have "run_user (n + k) pf (on_frame handler) usp entry sst (p + 288) s = Ret 1 s'"
    using s'(1) by (simp add: run_user_def krun s1_def del: user_loop.simps)
  moreover have "callee_saved s' = callee_saved s"
    using s'(3) run_user_saves_context [OF areas, of ?args] by (simp add: s1_def args)
  moreover have "csrs s1 Sie = csrs s Sie" by (simp add: s1_def run_user_csrs args)
  ultimately show thesis using that [of s'] s' data by (simp add: kernel_data_def undisturbed_def noted_def)
qed

lemma process_spins:
  assumes talk: "talks tx adr own reply (\<lambda>_. True) (fresh_regs usp) entry out None n"
    and stage: "stage_ok pf p own tx adr" and spp: "sst AND 256 = 0" and served: "serving_state s"
  shows "\<exists>s'. enter_user_mode (n + k) pf (on_frame handler) usp entry sst (p + 288) s = Halted s'
    \<and> uart s' = uart s @ out"
proof (rule enter_user_mode_starts [OF spp, where pf = pf and usp = usp and entry = entry and p = p and s = s])
  fix s1
  assume start: "\<And>fuel h. enter_user_mode fuel pf h usp entry sst (p + 288) s = user_loop fuel pf h s1"
    and at: "enters s1 p (\<lambda>_. True) (fresh_regs usp) entry" and data: "kernel_data s1 = kernel_data s"
  have "serving_state s1" using served data by (simp add: kernel_data_def)
  then show ?thesis
    using conversation [OF talk stage at] data by (auto simp: start kernel_data_def simp del: user_loop.simps)
qed

end

end
