(* ===== verification/Lesson_Services.thy ===== *)
theory Lesson_Services
  imports User_Setup
begin

unbundle bit_operations_syntax

text \<open>
  The trap handlers of lessons 08, 09 and 10 as services: what each answers to a trap, as a
  function of cause, registers and program counter, and the proof that the handler gives that
  answer, on every trap the function does not refuse.
\<close>

section \<open>Lesson 08\<close>

definition printed :: "bool \<Rightarrow> string \<Rightarrow> u8 list" where
  "printed b line = (if b then as_bytes line @ [10] else [])"

lemma println_when: "kwhen b (println line) s = Ret () (s\<lparr>uart := uart s @ printed b line\<rparr>)"
  by (simp add: krun printed_def)

definition trap_ok :: "platform \<Rightarrow> usize \<Rightarrow> usize \<times> usize \<Rightarrow> uregs \<Rightarrow> usize \<Rightarrow> usize \<Rightarrow> usize \<Rightarrow> bool" where
  "trap_ok pf p c x pc lo hi \<longleftrightarrow>
     user_trap_ok pf p (user_frame 0 (fst c) (snd c) x pc) lo hi (symbol pf ''trap_entry'')
     \<and> unat pc + 4 \<le> unat hi"

definition reply08 :: "platform \<Rightarrow> usize \<Rightarrow> usize \<times> usize \<Rightarrow> uregs \<Rightarrow> usize \<Rightarrow> reply" where
  "reply08 pf p c x pc =
     (if trap_ok pf p c x pc (symbol pf ''user08_start'') (symbol pf ''user08_end'') \<and> user08_known_ecall pf pc
      then case dispatch_outcome (x 17) (x 10) of
          Sys_Return v \<Rightarrow> Resume v (dispatch_output (x 17) (x 10) @ printed (sint v < 0)
            (''[syscall] number='' @ fmt_dec (x 17) @ '' arg0='' @ fmt_dec (x 10) @ '' result=''
              @ fmt_int v @ '' sepc='' @ fmt_hex pc @ '' next='' @ fmt_hex (pc + 4)))
        | Sys_Exit _ \<Rightarrow> Refuse
      else Refuse)"

lemma user_frame_fields [simp]:
  "tf_sepc (user_frame sst c t x pc) = pc" "tf_scause (user_frame sst c t x pc) = c"
  "tf_stval (user_frame sst c t x pc) = t" "tf_sstatus (user_frame sst c t x pc) = sst"
  "tf_x (user_frame sst c t x pc) ! 2 = x 2" "tf_x (user_frame sst c t x pc) ! 10 = x 10"
  "tf_x (user_frame sst c t x pc) ! 17 = x 17"
  by (simp_all add: user_frame_def numeral_2_eq_2)

lemma trap_ok_frame:
  "trap_ok pf p c x pc lo hi \<Longrightarrow> sst AND 256 = 0 \<Longrightarrow> ready_to_serve pf p rng s \<Longrightarrow>
   user_trap_ok pf p (user_frame sst (fst c) (snd c) x pc) lo hi (csrs s Stvec)"
  by (simp add: trap_ok_def user_trap_ok_def ready_to_serve_def)

lemma trap_ok_room:
  "trap_ok pf p c x pc lo hi \<Longrightarrow> unat (tf_sepc (user_frame sst (fst c) (snd c) x pc)) + 4 \<le> unat hi"
  by (simp add: trap_ok_def)

text \<open>What \<open>resume08\<close> to \<open>finish10\<close> return to.\<close>

definition resumed_frame :: "isize \<Rightarrow> usize \<Rightarrow> usize \<times> usize \<Rightarrow> uregs \<Rightarrow> usize \<Rightarrow> TrapFrame" where
  "resumed_frame v sst c x pc =
     (past_ecall v (user_frame sst (fst c) (snd c) x pc))\<lparr>tf_sstatus := sst AND NOT 0x122\<rparr>"

lemma apply_return_frame:
  "trap_ok pf p c x pc lo hi \<Longrightarrow>
   apply_return (user_frame sst (fst c) (snd c) x pc) v hi s = Ret (resumed_frame v sst c x pc) s"
  using apply_return_run(1) [of "user_frame sst (fst c) (snd c) x pc" hi v s]
  by (simp add: trap_ok_def resumed_frame_def)

lemma resumed_frame_pc [simp]: "tf_sepc (resumed_frame v sst c x pc) = pc + 4"
  by (simp add: resumed_frame_def past_ecall_def)

lemma service08:
  assumes ready: "ready_to_serve pf p rng s" and spp: "sst AND 256 = 0"
    and reply: "reply08 pf p c x pc = Resume v out"
  shows "resume_lesson08 pf p (user_frame sst (fst c) (snd c) x pc) s =
    Ret (0, resumed_frame v sst c x pc) (s\<lparr>uart := uart s @ out\<rparr>)"
proof -
  let ?f = "user_frame sst (fst c) (snd c) x pc"
  have ok: "trap_ok pf p c x pc (symbol pf ''user08_start'') (symbol pf ''user08_end'')"
    "user08_known_ecall pf pc"
    and outcome: "dispatch_outcome (x 17) (x 10) = Sys_Return v"
    and out: "out = dispatch_output (x 17) (x 10) @ printed (sint v < 0)
            (''[syscall] number='' @ fmt_dec (x 17) @ '' arg0='' @ fmt_dec (x 10) @ '' result=''
              @ fmt_int v @ '' sepc='' @ fmt_hex pc @ '' next='' @ fmt_hex (pc + 4))"
    using reply by (auto simp: reply08_def simp del: append_Cons split: if_splits SyscallOutcome.splits)
  have accept: "validate_user_trap pf p ?f (symbol pf ''user08_start'') (symbol pf ''user08_end'') s = Ret p s"
    using validate_user_trap_accepts [of pf p ?f] trap_ok_frame [OF ok(1) spp ready] by simp
  show ?thesis
    using accept ok(2) outcome
    by (simp add: resume_lesson08_def handle_lesson08_def user08_code_addresses_def kbind_run kthen_run kret_run
        panic_if_run dispatch_run Let_def apply_return_frame [OF ok(1)] println_when out ACTION_RESUME_USER_def
        del: append_Cons)
qed

interpretation lesson08: user_service pf p rng "resume_lesson08 pf" "reply08 pf p" False "\<lambda>_ d. d" for pf p rng
proof unfold_locales
  fix s :: machine and sst c x pc v out
  assume "ready_to_serve pf p rng s" "(sst :: usize) AND 256 = 0" "reply08 pf p c x pc = Resume v out"
  from service08 [OF this]
  show "resume_lesson08 pf p (user_frame sst (fst c) (snd c) x pc) s =
        Ret (0, (past_ecall v (user_frame sst (fst c) (snd c) x pc))\<lparr>tf_sstatus := sst AND NOT 0x122\<rparr>)
          (s\<lparr>expected_trap_frame := noted False p s, uart := uart s @ out\<rparr>)"
    by (simp add: noted_def resumed_frame_def)
next
  fix s :: machine and sst c x pc res out
  assume "reply08 pf p c x pc = Finish res out"
  then have False by (auto simp: reply08_def split: if_splits SyscallOutcome.splits)
  then show "resume_lesson08 pf p (user_frame sst (fst c) (snd c) x pc) s =
        Ret (1, user_frame sst (fst c) (snd c) x pc)
          (s\<lparr>expected_trap_frame := noted False p s, uart := uart s @ out, last_exit_code := fst (last_exit_code s, active s),
             active := snd (last_exit_code s, active s)\<rparr>)" ..
qed

section \<open>Lesson 09\<close>

definition reply09 :: "platform \<Rightarrow> usize \<Rightarrow> usize \<times> usize \<Rightarrow> uregs \<Rightarrow> usize \<Rightarrow> reply" where
  "reply09 pf p c x pc =
     (case (lesson09_range pf pc, user09_ecall_kind pf pc) of
        (Some (lo, hi), Some kind) \<Rightarrow>
          if trap_ok pf p c x pc lo hi then
            (case dispatch_outcome (x 17) (x 10) of
               Sys_Return v \<Rightarrow> Resume v (dispatch_output (x 17) (x 10) @ printed (kind = ''invalid'')
                 (''[exit] invalid code='' @ fmt_dec (x 10) @ '' result='' @ fmt_int v
                   @ '' sepc='' @ fmt_hex pc @ '' next='' @ fmt_hex (pc + 4)))
             | Sys_Exit code \<Rightarrow> Finish (Run_Exited code) (dispatch_output (x 17) (x 10) @ printed (kind = ''exit7'')
                 (''[exit] code='' @ fmt_dec code @ '' terminate sepc='' @ fmt_hex pc)))
          else Refuse
      | _ \<Rightarrow> Refuse)"

text \<open>Lesson 09 keeps the exit code in \<^verbatim>\<open>LAST_EXIT_CODE\<close>.\<close>

definition settle09 :: "RunOutcome \<Rightarrow> usize \<times> Active \<Rightarrow> usize \<times> Active" where
  "settle09 res d = (case res of Run_Exited code \<Rightarrow> (ucast code, snd d) | _ \<Rightarrow> d)"

lemma service09:
  assumes ready: "ready_to_serve pf p rng s" and spp: "sst AND 256 = 0"
    and f: "f = user_frame sst (fst c) (snd c) x pc"
  shows "reply09 pf p c x pc = Resume v out \<Longrightarrow> handle_lesson09 pf p f s =
      Ret (0, resumed_frame v sst c x pc) (s\<lparr>expected_trap_frame := p, uart := uart s @ out\<rparr>)"
    and "reply09 pf p c x pc = Finish res out \<Longrightarrow> handle_lesson09 pf p f s =
      Ret (1, f) (s\<lparr>expected_trap_frame := p, uart := uart s @ out,
        last_exit_code := fst (settle09 res (last_exit_code s, active s)),
        active := snd (settle09 res (last_exit_code s, active s))\<rparr>)"
proof -
  have enter: "handle_lesson09 pf p f s =
     (case dispatch_outcome (x 17) (x 10) of
        Sys_Return result \<Rightarrow>
          kbind (apply_return f result hi) (\<lambda>f'.
          kthen (kwhen (kind = ''invalid'')
            (println (''[exit] invalid code='' @ fmt_dec (x 10) @ '' result='' @ fmt_int result
              @ '' sepc='' @ fmt_hex pc @ '' next='' @ fmt_hex (tf_sepc f'))))
          (kret (ACTION_RESUME_USER, f')))
      | Sys_Exit c \<Rightarrow>
          kthen (kmodify (\<lambda>s. s\<lparr>last_exit_code := ucast c\<rparr>)) (
          kthen (kwhen (kind = ''exit7'')
            (println (''[exit] code='' @ fmt_dec c @ '' terminate sepc='' @ fmt_hex pc)))
          (kret (ACTION_TERMINATE_PROCESS, f))))
     (s\<lparr>expected_trap_frame := p, uart := uart s @ dispatch_output (x 17) (x 10)\<rparr>)"
    if "lesson09_range pf pc = Some (lo, hi)" "user09_ecall_kind pf pc = Some kind"
      "trap_ok pf p c x pc lo hi" for lo hi kind
    using handle_lesson09_enter [of pf f lo hi p s kind] that trap_ok_frame [OF that(3) spp ready] ready
    unfolding f user_frame_fields by (simp add: ready_to_serve_def Let_def del: append_Cons)
  have ret: "apply_return f v hi t = Ret (resumed_frame v sst c x pc) t" if "trap_ok pf p c x pc lo hi" for lo hi v t
    using apply_return_frame [OF that] by (simp add: f)
  show "reply09 pf p c x pc = Resume v out \<Longrightarrow> handle_lesson09 pf p f s =
      Ret (0, resumed_frame v sst c x pc) (s\<lparr>expected_trap_frame := p, uart := uart s @ out\<rparr>)"
    by (auto simp: reply09_def enter kbind_run kthen_run kret_run ret println_when ACTION_RESUME_USER_def
        simp del: append_Cons split: option.splits if_splits SyscallOutcome.splits)
  show "reply09 pf p c x pc = Finish res out \<Longrightarrow> handle_lesson09 pf p f s =
      Ret (1, f) (s\<lparr>expected_trap_frame := p, uart := uart s @ out,
        last_exit_code := fst (settle09 res (last_exit_code s, active s)),
        active := snd (settle09 res (last_exit_code s, active s))\<rparr>)"
    by (auto simp: reply09_def enter kthen_run kmodify_run kret_run println_when ACTION_TERMINATE_PROCESS_def
        settle09_def simp del: append_Cons split: option.splits if_splits SyscallOutcome.splits)
qed

interpretation lesson09: user_service pf p rng "handle_lesson09 pf" "reply09 pf p" True settle09 for pf p rng
  by unfold_locales (simp_all add: service09 [OF _ _ refl] noted_def resumed_frame_def)

section \<open>Lesson 10\<close>

text \<open>The program's own code is the range \<open>rng\<close>; it may also trap in the shared library.\<close>

definition lesson10_site :: "platform \<Rightarrow> AddressRange \<Rightarrow> usize \<Rightarrow> usize option" where
  "lesson10_site pf rng pc =
     (if in_code pf ''user_api_start'' ''user_api_end'' pc then Some (symbol pf ''user_api_end'')
      else if AddressRange_contains rng pc then Some (ar_end rng) else None)"

definition lesson10_stage :: "platform \<Rightarrow> usize \<Rightarrow> bool" where
  "lesson10_stage pf p \<longleftrightarrow> stacks_ordered pf \<and> symbol pf ''user_api_start'' < symbol pf ''user_api_end''
     \<and> unat p + 288 = unat (symbol pf ''user_trap_stack_end'') \<and> \<not> feature pf ''lesson10-kernel-fault''"

definition reply10 :: "platform \<Rightarrow> usize \<Rightarrow> AddressRange \<Rightarrow> usize \<times> usize \<Rightarrow> uregs \<Rightarrow> usize \<Rightarrow> reply" where
  "reply10 pf p rng c x pc =
     (case lesson10_site pf rng pc of
        None \<Rightarrow> Refuse
      | Some hi \<Rightarrow>
          if \<not> lesson10_stage pf p then Refuse
          else if fst c = 2 then Finish (Run_Faulted 2 pc (snd c)) []
          else if fst c = 8 then
            (case dispatch_outcome (x 17) (x 10) of
               Sys_Return v \<Rightarrow>
                 if unat pc + 4 \<le> unat hi then
                   Resume v (dispatch_output (x 17) (x 10) @ printed (sint v < 0)
                     (''[user error] syscall='' @ fmt_dec (x 17) @ '' arg='' @ fmt_dec (x 10)
                       @ '' result='' @ fmt_int v))
                 else Refuse
             | Sys_Exit code \<Rightarrow> Finish (Run_Exited code) (dispatch_output (x 17) (x 10)))
          else Refuse)"

definition settle10 :: "RunOutcome \<Rightarrow> usize \<times> Active \<Rightarrow> usize \<times> Active" where
  "settle10 res d = (fst d, (snd d)\<lparr>act_outcome := Some res\<rparr>)"

lemma service10:
  assumes ready: "ready_to_serve pf p rng s" and spp: "sst AND 256 = 0"
    and f: "f = user_frame sst (fst c) (snd c) x pc"
  shows "reply10 pf p rng c x pc = Resume v out \<Longrightarrow> lesson10_handle pf p f s =
      Ret (0, resumed_frame v sst c x pc) (s\<lparr>expected_trap_frame := p, uart := uart s @ out\<rparr>)"
    and "reply10 pf p rng c x pc = Finish res out \<Longrightarrow> lesson10_handle pf p f s =
      Ret (1, f) (s\<lparr>expected_trap_frame := p, uart := uart s @ out,
        last_exit_code := fst (settle10 res (last_exit_code s, active s)),
        active := snd (settle10 res (last_exit_code s, active s))\<rparr>)"
proof -
  have ok: "lesson10_trap_ok pf p f s" "lesson10_end pf f s = hi"
    if "lesson10_site pf rng pc = Some hi" "lesson10_stage pf p" "fst c \<in> {2, 8}" for hi
    using that ready spp
    by (auto simp: lesson10_site_def lesson10_stage_def lesson10_trap_ok_def lesson10_end_def f
        ready_to_serve_def split: if_splits)
  show "reply10 pf p rng c x pc = Resume v out \<Longrightarrow> lesson10_handle pf p f s =
      Ret (0, resumed_frame v sst c x pc) (s\<lparr>expected_trap_frame := p, uart := uart s @ out\<rparr>)"
    using ok by (auto simp: reply10_def lesson10_enter kbind_run kthen_run kret_run dispatch_run apply_return_run(1) resumed_frame_def println_when
        f ACTION_RESUME_USER_def simp del: append_Cons split: option.splits if_splits SyscallOutcome.splits)
  show "reply10 pf p rng c x pc = Finish res out \<Longrightarrow> lesson10_handle pf p f s =
      Ret (1, f) (s\<lparr>expected_trap_frame := p, uart := uart s @ out,
        last_exit_code := fst (settle10 res (last_exit_code s, active s)),
        active := snd (settle10 res (last_exit_code s, active s))\<rparr>)"
    using ok by (auto simp: reply10_def lesson10_enter kbind_run kthen_run kret_run kmodify_run dispatch_run
        f ACTION_TERMINATE_PROCESS_def settle10_def simp del: append_Cons
        split: option.splits if_splits SyscallOutcome.splits)
qed

interpretation lesson10: user_service pf p rng "lesson10_handle pf" "reply10 pf p rng" True settle10 for pf p rng
  by unfold_locales (simp_all add: service10 [OF _ _ refl] noted_def resumed_frame_def)

end
