(* ===== verification/Lesson_Image.thy ===== *)
theory Lesson_Image
  imports Lesson_Services
begin

unbundle bit_operations_syntax

text \<open>
  Images in which user programs can run: the runtime stacks as the lessons require them, the
  kernel's save areas and the trap frame apart from the user stack, and a hart that executes
  the assembled text in user mode.
\<close>

definition user_stack_of :: "platform \<Rightarrow> AddressRange" where
  "user_stack_of pf = \<lparr>ar_start = symbol pf ''user_stack_start'', ar_end = symbol pf ''user_stack_end''\<rparr>"

definition trap_stack_of :: "platform \<Rightarrow> AddressRange" where
  "trap_stack_of pf = \<lparr>ar_start = symbol pf ''user_trap_stack_start'', ar_end = symbol pf ''user_trap_stack_end''\<rparr>"

definition trap_slot :: "platform \<Rightarrow> usize" where
  "trap_slot pf = symbol pf ''user_trap_stack_end'' - 288"

abbreviation on_user_stack :: "platform \<Rightarrow> usize \<Rightarrow> bool" where
  "on_user_stack pf \<equiv> AddressRange_contains (user_stack_of pf)"

definition stacks_ok :: "platform \<Rightarrow> bool" where
  "stacks_ok pf \<longleftrightarrow> stacks_ordered pf
     \<and> AddressRange_extent (user_stack_of pf) = 0x4000 \<and> AddressRange_extent (trap_stack_of pf) = 0x4000
     \<and> \<not> AddressRange_overlaps (user_stack_of pf) (trap_stack_of pf)
     \<and> \<not> AddressRange_overlaps (user_stack_of pf) (boot_stack pf)
     \<and> \<not> AddressRange_overlaps (trap_stack_of pf) (boot_stack pf)
     \<and> symbol pf ''user_stack_end'' AND 15 = 0 \<and> symbol pf ''user_trap_stack_end'' AND 15 = 0"

definition user_image_ok :: "platform \<Rightarrow> utext \<Rightarrow> bool" where
  "user_image_ok pf tx \<longleftrightarrow> stacks_ok pf \<and> kernel_areas_ok pf \<and> frame_slot_ok pf (trap_slot pf)
     \<and> (\<forall>b. on_user_stack pf b \<longrightarrow> clear_of_saves pf b)
     \<and> stvec_keeps pf (symbol pf ''trap_entry'') = symbol pf ''trap_entry''
     \<and> user_code pf = user_mode tx (symbol pf)"

lemma stacks_okD:
  assumes "stacks_ok pf"
  shows "stacks_ordered pf" "ar_start (user_stack_of pf) < ar_end (user_stack_of pf)"
    "ar_start (trap_stack_of pf) < ar_end (trap_stack_of pf)"
    "stack_ranges pf s = Ret (user_stack_of pf, trap_stack_of pf, boot_stack pf) s"
  using assms stack_ranges_run(1) [of pf s]
  by (simp_all add: stacks_ok_def stacks_ordered_def user_stack_of_def trap_stack_of_def boot_stack_def)

lemma unat_trap_slot:
  assumes "stacks_ok pf"
  shows "unat (trap_slot pf) + 288 = unat (symbol pf ''user_trap_stack_end'')"
    and "unat (symbol pf ''user_trap_stack_start'') \<le> unat (trap_slot pf)"
proof -
  let ?lo = "symbol pf ''user_trap_stack_start''" and ?hi = "symbol pf ''user_trap_stack_end''"
  have "?lo < ?hi" "?hi - ?lo = 0x4000"
    using assms stacks_okD(3) [OF assms] by (simp_all add: stacks_ok_def trap_stack_of_def AddressRange_extent_def)
  then have far: "unat ?hi = unat ?lo + 0x4000"
    using unat_sub_le [of ?lo ?hi] by (simp add: word_less_nat_alt word_le_nat_alt)
  then have "unat (trap_slot pf) = unat ?hi - 288"
    by (simp add: trap_slot_def unat_sub_le word_le_nat_alt)
  then show "unat (trap_slot pf) + 288 = unat ?hi" "unat ?lo \<le> unat (trap_slot pf)" using far by simp_all
qed

lemma user_stack_clear_of_slot:
  assumes ok: "stacks_ok pf" and b: "on_user_stack pf b"
  shows "clear_of_frame b (trap_slot pf)"
proof -
  have "clear_of b (trap_slot pf + off)" if off: "off \<in> set slots36" for off
  proof -
    have o: "unat off \<le> 280" using off by (auto simp: slots36_def)
    note slot = unat_trap_slot [OF ok]
    have last: "unat (symbol pf ''user_trap_stack_end'') < 18446744073709551616" by simp
    have p: "unat (trap_slot pf + off) = unat (trap_slot pf) + unat off"
    proof -
      have "unat (trap_slot pf) + unat off < 2 ^ LENGTH(64)" 
        using o slot(1) last by (simp del: unat_bound64)
      then show ?thesis by (simp add: unat_add_no_overflow)
    qed
    have "unat b < unat (symbol pf ''user_trap_stack_start'')
        \<or> unat (symbol pf ''user_trap_stack_end'') \<le> unat b"
      using ok b by (auto simp: stacks_ok_def AddressRange_overlaps_def AddressRange_contains_def
          user_stack_of_def trap_stack_of_def word_less_nat_alt word_le_nat_alt)
    then show ?thesis
    proof
      assume "unat b < unat (symbol pf ''user_trap_stack_start'')"
      then show ?thesis using slot last o p by (intro clear_below) (simp_all del: unat_bound64)
    next
      assume "unat (symbol pf ''user_trap_stack_end'') \<le> unat b"
      then show ?thesis using slot o p by (intro clear_above) simp
    qed
  qed
  then show ?thesis by (simp add: clear_of_frame_def list_all_iff)
qed

lemma user_image_stage:
  "user_image_ok pf tx \<Longrightarrow> stage_ok pf (trap_slot pf) (on_user_stack pf) tx (symbol pf)"
  using user_stack_clear_of_slot by (auto simp: user_image_ok_def stage_ok_def)

text \<open>A system call from \<open>[lo, hi)\<close> with a good stack pointer is accepted.\<close>

definition good_sp :: "platform \<Rightarrow> usize \<Rightarrow> bool" where
  "good_sp pf sp \<longleftrightarrow> on_user_stack pf sp \<and> sp AND 15 = 0"

lemma trap_ok_ecall:
  assumes ok: "stacks_ok pf"
  shows "trap_ok pf (trap_slot pf) (8, t) x pc lo hi \<longleftrightarrow>
    lo \<le> pc \<and> pc < hi \<and> unat pc + 4 \<le> unat hi \<and> good_sp pf (x 2)"
proof -
  note slot = unat_trap_slot [OF ok] and ord = stacks_okD(1) [OF ok]
  have "symbol pf ''user_trap_stack_start'' \<le> trap_slot pf" using slot(2) by (simp add: word_le_nat_alt)
  then show ?thesis
    using slot(1) ord
    by (auto simp: trap_ok_def user_trap_ok_def good_sp_def AddressRange_contains_def user_stack_of_def)
qed

text \<open>The stack pointer a process starts with.\<close>

definition first_sp :: "platform \<Rightarrow> usize" where
  "first_sp pf = symbol pf ''user_stack_end'' - 16"

lemma good_first_sp: "stacks_ok pf \<Longrightarrow> good_sp pf (first_sp pf)"
  using stack_pointer_inside(2) [of "user_stack_of pf"] stacks_okD(2) [of pf]
  by (simp add: good_sp_def first_sp_def stacks_ok_def and_15_minus_16) (simp add: user_stack_of_def)

lemma prepare_in_image:
  assumes ok: "stacks_ok pf" and "csrs s Sie = 0" and "pr_entry program AND 1 = 0"
  shows "prepare_process pf pid program (user_stack_of pf) (trap_stack_of pf) s
    = Ret (prepared pid program (user_stack_of pf) (trap_stack_of pf) (csrs s Sstatus)) s"
proof -
  have "process_ok pf program (user_stack_of pf) (trap_stack_of pf) (csrs s Sie)"
    using assms by (simp add: stacks_ok_def process_ok_def) (simp add: user_stack_of_def trap_stack_of_def)
  then show ?thesis
    using prepare_process_cases [OF stacks_okD(1-3) [OF ok], of program s pid] by simp
qed

text \<open>What \<^verbatim>\<open>run_process\<close> and \<^verbatim>\<open>enter_process\<close> pass on.\<close>

lemma run_prepared:
  "run_process fuel pf h (prepared pid program (user_stack_of pf) (trap_stack_of pf) sst) s
    = run_user fuel pf h (first_sp pf) (pr_entry program) (sst AND NOT 0x122) (trap_slot pf + 288) s"
  by (simp add: run_process_def user_runtime_def krun prepared_def UserContext_new_def first_sp_def
      trap_slot_def user_stack_of_def trap_stack_of_def)

lemma clear_stacks_run:
  assumes ok: "stacks_ok pf" and sp: "\<not> on_user_stack pf (regs s 2)" "\<not> AddressRange_contains (trap_stack_of pf) (regs s 2)"
  shows "\<exists>m. clear_runtime_stacks pf (user_stack_of pf) (trap_stack_of pf) s = Ret () (s\<lparr>mem := m\<rparr>)"
  using sp stacks_okD(2,3) [OF ok]
  by (auto simp: clear_runtime_stacks_def krun read_sp_def)

section \<open>The manager between processes\<close>

text \<open>The machine while the kernel manages processes: its stack pointer is outside theirs.\<close>

definition managing :: "platform \<Rightarrow> usize \<Rightarrow> u8 list \<Rightarrow> machine \<Rightarrow> bool" where
  "managing pf sp out s \<longleftrightarrow> regs s 2 = sp \<and> \<not> on_user_stack pf sp
     \<and> \<not> AddressRange_contains (trap_stack_of pf) sp \<and> csrs s Sie = 0
     \<and> expected_trap_frame s \<in> {0, trap_slot pf} \<and> uart s = out"

lemma managing_output [simp]:
  "managing pf sp out (s\<lparr>uart := uart s @ added\<rparr>) \<longleftrightarrow> (\<exists>o'. out = o' @ added \<and> managing pf sp o' s)"
  by (auto simp: managing_def)

lemma managing_mailbox [simp]:
  "managing pf sp out (s\<lparr>last_exit_code := c\<rparr>) = managing pf sp out s"
  "managing pf sp out (s\<lparr>mem := m\<rparr>) = managing pf sp out s"
  by (simp_all add: managing_def)

lemma wp_prepare:
  assumes "stacks_ok pf" and "managing pf sp out s" and "pr_entry program AND 1 = 0"
    and "Q (prepared pid program (user_stack_of pf) (trap_stack_of pf) (csrs s Sstatus)) s"
  shows "wp (prepare_process pf pid program (user_stack_of pf) (trap_stack_of pf)) Q H s"
  using assms prepare_in_image [OF assms(1), of s program pid] by (simp add: managing_def wp_def)

lemma wp_clear_stacks:
  assumes "stacks_ok pf" and "managing pf sp out s" and "\<And>m. managing pf sp out (s\<lparr>mem := m\<rparr>) \<Longrightarrow> Q () (s\<lparr>mem := m\<rparr>)"
  shows "wp (clear_runtime_stacks pf (user_stack_of pf) (trap_stack_of pf)) Q H s"
  using clear_stacks_run [OF assms(1), of s] assms(2,3) by (auto simp: managing_def wp_def)

lemma managing_uart:
  "managing pf sp out s \<Longrightarrow> managing pf sp (out @ added) (s\<lparr>uart := uart s @ added\<rparr>)"
  by (simp add: managing_def)

lemma output_lines_Cons: "output_lines (l # ls) = as_bytes l @ [10] @ output_lines ls"
  "output_lines [] = []" "output_lines (ls @ ls') = output_lines ls @ output_lines ls'"
  by (simp_all add: output_lines_def)


lemma enter_prepared:
  "enter_process fuel pf h (prepared pid program (user_stack_of pf) (trap_stack_of pf) sst) s
    = kthen (enter_user_mode fuel pf h (first_sp pf) (pr_entry program) (sst AND NOT 0x122) (trap_slot pf + 288)) (kpanic ''enter_user_mode unexpectedly returned'') s"
  by (simp add: enter_process_def user_runtime_def krun prepared_def UserContext_new_def first_sp_def
      trap_slot_def user_stack_of_def trap_stack_of_def)

lemma wp_user_runtime_prepared:
  "wp (user_runtime (prepared pid program us ts sst)) Q H s =
    Q \<lparr>ur_user_stack = us, ur_trap_stack = ts,
        ur_context = UserContext_new (pr_entry program) (ar_end us - 16) (sst AND NOT 0x122)\<rparr> s"
  by (simp add: user_runtime_def wps prepared_def)

lemma wp_stack_ranges:
  "stacks_ok pf \<Longrightarrow> wp (stack_ranges pf) Q H s = Q (user_stack_of pf, trap_stack_of pf, boot_stack pf) s"
  by (rule wp_Ret, rule stacks_okD)

lemma wp_prepare_image:
  "stacks_ok pf \<Longrightarrow> csrs s Sie = 0 \<Longrightarrow> pr_entry program AND 1 = 0 \<Longrightarrow>
   wp (prepare_process pf pid program (user_stack_of pf) (trap_stack_of pf)) Q H s
     = Q (prepared pid program (user_stack_of pf) (trap_stack_of pf) (csrs s Sstatus)) s"
  by (rule wp_Ret, rule prepare_in_image)

lemma store64_inside:
  assumes "\<And>i. i < 8 \<Longrightarrow> own (a + of_nat i)" and "\<not> own b"
  shows "store64 m a v b = m b"
proof -
  have "clear_of b a"
    using assms(1) [of "unat (b - a)"] assms(2) by (force simp: clear_of_def not_le)
  then show ?thesis by (rule store64_clear)
qed


section \<open>What a program keeps on its stack\<close>

definition word_at :: "usize \<Rightarrow> u64 \<Rightarrow> memory \<Rightarrow> bool" where
  "word_at a v m \<longleftrightarrow> load64 m a = v"

lemma private_word:
  assumes "\<And>i. i < 8 \<Longrightarrow> own (a + of_nat i)"
  shows "private_to own (word_at a v)"
  unfolding private_to_def word_at_def
proof (intro allI impI)
  fix m m' :: memory
  assume same: "\<forall>b. own b \<longrightarrow> m' b = m b" and m: "load64 m a = v"
  have "map (\<lambda>i. m' (a + of_nat i)) [0..<8] = map (\<lambda>i. m (a + of_nat i)) [0..<8]"
    using same assms by (intro map_cong) auto
  with m show "load64 m' a = v" by (simp only: load64_def)
qed

lemma pauses_keep:
  "hart_regs x' \<Longrightarrow> (\<And>m. P m \<Longrightarrow> urun tx adr x pc m = Some (c, x', pc', m)) \<Longrightarrow>
   pauses tx adr own P x pc c x' pc' P"
  by (simp add: pauses_def)

text \<open>The doubleword at the stack pointer a process starts with, and the one below it.\<close>

lemma first_sp_words:
  assumes ok: "stacks_ok pf" and d: "d = 0 \<or> d = 8"
  shows "aligned8 (first_sp pf - d)" and "i < 8 \<Longrightarrow> on_user_stack pf (first_sp pf - d + of_nat i)"
proof -
  let ?us = "user_stack_of pf"
  have e: "first_sp pf = ar_end ?us - 16" by (simp add: first_sp_def user_stack_of_def)
  have ext: "AddressRange_extent ?us = 0x4000" using ok by (simp add: stacks_ok_def)
  have ord: "ar_start ?us < ar_end ?us" by (rule stacks_okD(2) [OF ok])
  then have far: "unat (ar_end ?us) - unat (ar_start ?us) = 0x4000" "unat (ar_start ?us) < unat (ar_end ?us)"
    using ext unat_sub_le [OF less_imp_le [OF ord]]
    by (simp_all add: AddressRange_extent_def word_less_nat_alt)
  note sp = stack_pointer_inside [OF stacks_okD(2) [OF ok] ext]
  have u: "unat (first_sp pf) + 16 = unat (ar_end ?us)"
    using sp(1) by (simp add: e unat_sub_le word_le_nat_alt)
  have "first_sp pf AND 15 = 0" using good_first_sp [OF ok] by (simp add: good_sp_def)
  then have even: "unat (first_sp pf) mod 16 = 0" using unat_and_15 [of "first_sp pf"] by simp
  have dn: "unat d = 0 \<or> unat d = 8" using d by auto
  then have le: "unat d \<le> unat (first_sp pf)" using u far by auto
  then have w: "unat (first_sp pf - d) = unat (first_sp pf) - unat d" by (simp add: unat_sub_le word_le_nat_alt)
  have "(unat (first_sp pf) - unat d) mod 8 = 0" using even dn le by presburger
  then show "aligned8 (first_sp pf - d)" by (simp add: aligned8_def w)
  assume i: "i < 8"
  have "unat (ar_end ?us) < 18446744073709551616" by simp
  then have "unat (first_sp pf - d) + i < 2 ^ LENGTH(64)" using u i w by (simp del: unat_bound64)
  then have "unat (first_sp pf - d + of_nat i) = unat (first_sp pf - d) + i"
    using i by (simp add: unat_word_ariths unat_of_nat take_bit_eq_mod)
  then show "on_user_stack pf (first_sp pf - d + of_nat i)"
    using u i far dn by (auto simp: AddressRange_contains_def word_le_nat_alt word_less_nat_alt w)
qed

lemmas first_sp_word = first_sp_words [where d = 0, simplified]


section \<open>Running a process to its end\<close>

context user_service
begin

text \<open>A process whose conversation ends gives the manager back its stack pointer and no more.\<close>

lemma wp_run_process:
  assumes image: "user_image_ok pf tx" and p: "p = trap_slot pf" and rng: "rng = act_code (active s)"
    and talk: "talks tx (symbol pf) (on_user_stack pf) reply (\<lambda>_. True)
      (fresh_regs (first_sp pf)) (pr_entry program) added (Some res) n"
    and fuel: "n \<le> fuel" and s: "managing pf sp out s"
    and Q: "\<And>s'. managing pf sp (out @ added) s' \<Longrightarrow>
      (last_exit_code s', active s') = settle res (last_exit_code s, active s) \<Longrightarrow> Q 1 s'"
  shows "wp (run_process fuel pf (on_frame handler)
      (prepared pid program (user_stack_of pf) (trap_stack_of pf) sst)) Q H s"
proof -
  have areas: "kernel_areas_ok pf" using image by (simp add: user_image_ok_def)
  have spp: "(sst AND NOT 0x122) AND 256 = 0" by (simp add: and.assoc)
  have served: "serving_state s" using s p rng by (simp add: managing_def)
  obtain s' where run: "run_user (n + (fuel - n)) pf (on_frame handler) (first_sp pf)
      (pr_entry program) (sst AND NOT 0x122) (p + 288) s = Ret 1 s'"
    and s': "callee_saved s' = callee_saved s" "uart s' = uart s @ added"
      "expected_trap_frame s' = noted records p s"
      "(last_exit_code s', active s') = settle res (last_exit_code s, active s)"
      "csrs s' Sie = csrs s Sie"
    using process_finishes [OF talk user_image_stage [OF image, folded p] areas spp served] by blast
  have "managing pf sp (out @ added) s'"
    using s s' p by (auto simp: managing_def noted_def callee_saved_def kernel_regs_def)
  moreover have "run_process fuel pf (on_frame handler)
      (prepared pid program (user_stack_of pf) (trap_stack_of pf) sst) s = Ret 1 s'"
    using run fuel p by (simp add: run_prepared)
  ultimately show ?thesis using Q s'(4) by (simp add: wp_def)
qed

end


end
