(* ===== verification/Lesson07_Run.thy ===== *)
theory Lesson07_Run
  imports Lesson_Image
begin

unbundle bit_operations_syntax

text \<open>
  Lesson 07 from \<^verbatim>\<open>run_lesson07\<close> to its end: one system call from user mode, whose trap
  the kernel reports with every fact that shows where it came from, and shuts down.
\<close>

definition lesson07_text :: "platform \<Rightarrow> utext \<Rightarrow> bool" where
  "lesson07_text pf tx \<longleftrightarrow> assembled tx (symbol pf) (symbol pf ''user_start'') user07_text
     \<and> symbol pf ''user_start'' AND 1 = 0"

lemma user07_labels:
  assumes asm: "assembled tx adr (adr ''user_start'') user07_text"
  shows "adr ''user_entry'' = site tx (adr ''user_start'') 0"
    "adr ''user_ecall'' = site tx (adr ''user_start'') 2"
    "adr ''user_end'' = site tx (adr ''user_start'') (length (code_of user07_text))"
  using assembled_label [OF asm, of "''user_entry''" 0 0] assembled_label [OF asm, of "''user_ecall''" 2 0]
    assembled_label [OF asm, of "''user_end''" "length (code_of user07_text)" 0]
  by (simp_all add: user07_text_def del: site.simps)

lemma user07_pause:
  assumes asm: "assembled tx adr a user07_text"
  shows "pauses tx adr own (\<lambda>_. True) (fresh_regs sp) (site tx a 0) (8, 0)
    ((fresh_regs sp)(17 := 1, 10 := 85)) (site tx a 2) (\<lambda>_. True)"
  by (rule pausesI) (simp_all add: urun_site [OF asm] user07_text_def usteps fresh_regs_def hart_regs_def del: site.simps)

definition range_text :: "AddressRange \<Rightarrow> string" where
  "range_text r = ''['' @ fmt_hex (ar_start r) @ '', '' @ fmt_hex (ar_end r) @ '')''"

definition lesson07_setup :: "platform \<Rightarrow> u64 \<Rightarrow> string list" where
  "lesson07_setup pf pid =
     [''[user setup] pid='' @ fmt_dec pid @ '' program=user-ecall'',
      ''[user setup] code=['' @ fmt_hex (symbol pf ''user_start'') @ '', '' @ fmt_hex (symbol pf ''user_end'') @ '')'',
      ''[user setup] user_stack='' @ range_text (user_stack_of pf) @ '' size=16384'',
      ''[user setup] trap_stack='' @ range_text (trap_stack_of pf) @ '' size=16384'',
      ''[user setup] sepc='' @ fmt_hex (symbol pf ''user_entry''),
      ''[user setup] user_sp='' @ fmt_hex (first_sp pf),
      ''[user setup] sscratch='' @ fmt_hex (symbol pf ''user_trap_stack_end''),
      ''[user setup] spp=0'',
      ''[user setup] process=Running'',
      ''[user setup] expected_ecall='' @ fmt_hex (symbol pf ''user_ecall''),
      ''[user enter]'']"

definition lesson07_report :: "platform \<Rightarrow> string list" where
  "lesson07_report pf =
     [''[user trap]'',
      ''origin_spp=0'',
      ''scause=0x8'',
      ''cause_code=8'',
      ''sepc='' @ fmt_hex (symbol pf ''user_ecall''),
      ''expected_ecall='' @ fmt_hex (symbol pf ''user_ecall''),
      ''stval=0x0'',
      ''saved_user_sp='' @ fmt_hex (first_sp pf),
      ''user_stack='' @ range_text (user_stack_of pf),
      ''trap_frame='' @ fmt_hex (trap_slot pf),
      ''trap_stack='' @ range_text (trap_stack_of pf),
      ''a0=85'',
      ''a7=1'',
      ''frame_in_trap_stack=true'',
      ''saved_user_sp_ok=true'',
      ''sepc_in_user_code=true'',
      ''ecall_match=true'',
      ''kernel_stvec_restored=true'',
      ''user_mode_evidence=true'']"

lemma numbers07 [simp]: "fmt_dec (85 :: 64 word) = ''85''" "fmt_dec (8 :: 64 word) = ''8''"
  "fmt_dec (1 :: 64 word) = ''1''" "fmt_dec (0 :: 64 word) = ''0''" "fmt_hex (8 :: 64 word) = ''0x8''"
  "fmt_hex (0 :: 64 word) = ''0x0''" "fmt_dec (0x4000 :: 64 word) = ''16384''"
  by (simp_all add: fmt_dec_def fmt_hex_def fmt_nat_def fmt_radix.simps digit_char_def) code_simp+

lemma slot_in_trap_stack:
  assumes "stacks_ok pf"
  shows "ar_start (trap_stack_of pf) \<le> trap_slot pf" "trap_frame_end (trap_slot pf) \<le> ar_end (trap_stack_of pf)"
  using unat_trap_slot [OF assms] by (simp_all only: trap_frame_end_le) (simp_all add: trap_stack_of_def word_le_nat_alt)

lemma handle07_report:
  assumes tx: "lesson07_text pf tx" and ok: "stacks_ok pf" and stvec: "csrs s Stvec = symbol pf ''trap_entry''"
    and spp: "sst AND 256 = 0"
    and f: "f = user_frame sst 8 0 ((fresh_regs (first_sp pf))(17 := 1, 10 := 85)) (symbol pf ''user_ecall'')"
  shows "handle_lesson07 pf (trap_slot pf) f s
    = Halted (s\<lparr>uart := uart s @ output_lines (lesson07_report pf)\<rparr>)"
proof -
  have asm: "assembled tx (symbol pf) (symbol pf ''user_start'') user07_text" using tx by (simp add: lesson07_text_def)
  note labels = user07_labels [OF asm]
  have code: "2 < length (code_of user07_text)" "code_of user07_text ! 2 = ECALL" by (simp_all add: user07_text_def)
  have at: "symbol pf ''user_start'' \<le> symbol pf ''user_ecall''" "symbol pf ''user_ecall'' < symbol pf ''user_end''"
    using ecall_site [OF asm code] unfolding labels by simp_all
  have sp: "AddressRange_contains (user_stack_of pf) (first_sp pf)" "first_sp pf AND 15 = 0"
    using good_first_sp [OF ok] by (simp_all add: good_sp_def)
  have mode: "drop_bit 8 sst AND drop_bit 8 SSTATUS_SPP = 0" "8 AND interrupt_bit = 0" "8 AND NOT interrupt_bit = 8"
    using spp drop_bit_and [of 8 sst 256] by (simp_all add: SSTATUS_SPP_def interrupt_bit_def)
  have "wp (handle_lesson07 pf (trap_slot pf) f) (\<lambda>_ _. False)
      (\<lambda>s'. s' = s\<lparr>uart := uart s @ output_lines (lesson07_report pf)\<rparr>) s"
    using mode stvec at sp slot_in_trap_stack [OF ok]
    apply (simp add: handle_lesson07_def user07_code_addresses_def wps csrr_def kernel_trap_entry_address_def wp_stack_ranges [OF ok] read_stvec_def f
        lesson07_evidence_def fresh_regs_def del: append_Cons)
    apply (simp add: lesson07_report_def output_lines_Cons range_text_def fmt_bool_def)
    done
  then show ?thesis by (auto simp: wp_def split: outcome.splits)
qed

lemma user07_programs:
  assumes "lesson07_text pf tx"
  shows "symbol pf ''user_start'' \<le> symbol pf ''user_entry''" "symbol pf ''user_entry'' < symbol pf ''user_end''"
    "symbol pf ''user_entry'' AND 1 = 0"
    "symbol pf ''user_start'' \<le> symbol pf ''user_ecall''" "symbol pf ''user_ecall'' < symbol pf ''user_end''"
proof -
  have asm: "assembled tx (symbol pf) (symbol pf ''user_start'') user07_text"
    and even: "symbol pf ''user_start'' AND 1 = 0" using assms by (simp_all add: lesson07_text_def)
  have code: "2 < length (code_of user07_text)" "code_of user07_text ! 2 = ECALL" "0 < length (code_of user07_text)"
    by (simp_all add: user07_text_def)
  then have "site tx (symbol pf ''user_start'') 0 < site tx (symbol pf ''user_start'') (length (code_of user07_text))"
    using assembled_increasing [OF asm] by blast
  then show "symbol pf ''user_start'' \<le> symbol pf ''user_entry''" "symbol pf ''user_entry'' < symbol pf ''user_end''"
    "symbol pf ''user_entry'' AND 1 = 0"
    "symbol pf ''user_start'' \<le> symbol pf ''user_ecall''" "symbol pf ''user_ecall'' < symbol pf ''user_end''"
    using even ecall_site [OF asm code(1,2)] unfolding user07_labels [OF asm] by simp_all
qed

lemma enter_lesson07:
  assumes image: "user_image_ok pf tx" and tx: "lesson07_text pf tx"
    and h: "rust_user_trap_handler pf = (\<lambda>addr. kthen (kthen (on_frame (handle_lesson07 pf) addr) (kret ())) (kpanic msg))"
    and spp: "sst AND 256 = 0"
  shows "\<exists>s'. enter_user_mode (Suc fuel) pf (rust_user_trap_handler pf) (first_sp pf) (symbol pf ''user_entry'') sst
      (trap_slot pf + 288) s = Halted s' \<and> uart s' = uart s @ output_lines (lesson07_report pf)"
proof -
  have ok: "stacks_ok pf" using image by (simp add: user_image_ok_def)
  have asm: "assembled tx (symbol pf) (symbol pf ''user_start'') user07_text" using tx by (simp add: lesson07_text_def)
  note labels = user07_labels [OF asm]
  let ?p = "trap_slot pf"
  obtain s1 where start: "\<And>fuel h. enter_user_mode fuel pf h (first_sp pf) (symbol pf ''user_entry'') sst (?p + 288) s
        = user_loop fuel pf h s1"
    and at: "enters s1 ?p (\<lambda>_. True) (fresh_regs (first_sp pf)) (symbol pf ''user_entry'')"
    and data: "kernel_data s1 = kernel_data s"
    by (rule enter_user_mode_starts [OF spp, where pf = pf and usp = "first_sp pf" and entry = "symbol pf ''user_entry''"
          and p = ?p and s = s]) (rule that, assumption+)
  have "\<exists>s'. user_loop (Suc fuel) pf (rust_user_trap_handler pf) s1 = Halted s'
      \<and> uart s' = uart s1 @ output_lines (lesson07_report pf)"
  proof (rule user_pause [OF user_image_stage [OF image] at])
    show "pauses tx (symbol pf) (on_user_stack pf) (\<lambda>_. True) (fresh_regs (first_sp pf)) (symbol pf ''user_entry'') (8, 0)
        ((fresh_regs (first_sp pf))(17 := 1, 10 := 85)) (symbol pf ''user_ecall'') (\<lambda>_. True)"
      unfolding labels by (rule user07_pause [OF asm])
    fix st sst'
    assume loop: "\<And>n h. user_loop (Suc n) pf h s1 = kbind (h ?p) (\<lambda>action.
         if action = 1 then kthen (kmodify (exec pf terminate_process_code)) (kret action)
         else kthen (kmodify (exec pf restore_user_frame_code)) (user_loop n pf h)) st"
      and frame: "load_frame (mem st) ?p = user_frame sst' (fst (8, 0)) (snd (8, 0))
        ((fresh_regs (first_sp pf))(17 := 1, 10 := 85)) (symbol pf ''user_ecall'')"
      and spp': "sst' AND 256 = 0" and stvec: "csrs st Stvec = symbol pf ''trap_entry''"
      and kd: "kernel_data st = kernel_data s1"
    have "handle_lesson07 pf ?p (load_frame (mem st) ?p) st
        = Halted (st\<lparr>uart := uart st @ output_lines (lesson07_report pf)\<rparr>)"
      using handle07_report [OF tx ok stvec spp'] frame by simp
    then show ?thesis
      unfolding loop h using kd by (simp add: krun on_frame_def kernel_data_def)
  qed
  then show ?thesis using data by (simp add: start kernel_data_def del: user_loop.simps)
qed

text \<open>
  C19: on an image with the program text of \<^verbatim>\<open>src/user.S\<close>, lesson 07 reports the set-up of
  its process, enters user mode, and the program's system call comes back as a trap of which
  the kernel shows, line by line, that it came from user mode, by an environment call, at the
  expected instruction, with the program's stack pointer and arguments, in a frame on the trap
  stack and with the kernel's vector restored; the final verdict is \<open>true\<close> and the machine is
  shut down.
\<close>

theorem lesson07_run:
  assumes image: "user_image_ok pf tx" and tx: "lesson07_text pf tx"
    and "feature pf ''lesson07-user-mode''" and "\<not> feature pf ''lesson08-syscalls''" and "\<not> feature pf ''lesson09-exit''"
    and "\<not> feature pf ''lesson10-user-errors''" and "\<not> feature pf ''scheduling''"
    and "0 < fuel" and "csrs s Sie = 0"
  shows "\<exists>s'. run_lesson07 fuel pf (rust_user_trap_handler pf) pid s = Halted s'
    \<and> uart s' = uart s @ output_lines (lesson07_setup pf pid @ lesson07_report pf)"
proof -
  have ok: "stacks_ok pf" using image by (simp add: user_image_ok_def)
  note pr = user07_programs [OF tx] and ord = stacks_okD(2,3) [OF ok]
  have ext: "AddressRange_extent (user_stack_of pf) = 0x4000" "AddressRange_extent (trap_stack_of pf) = 0x4000"
    using ok by (simp_all add: stacks_ok_def)
  have size: "wp (AddressRange_size pf (user_stack_of pf)) Q H t = Q 0x4000 t"
    "wp (AddressRange_size pf (trap_stack_of pf)) Q H t = Q 0x4000 t" for Q H t
    using ord ext by (simp_all add: wp_def AddressRange_size_run)
  obtain k where fuel: "fuel = Suc k" using \<open>0 < fuel\<close> gr0_implies_Suc by blast
  have h: "rust_user_trap_handler pf = (\<lambda>addr. kthen (kthen (on_frame (handle_lesson07 pf) addr) (kret ()))
      (kpanic ''unexpected user trap without an active user-mode checkpoint''))"
    using assms by (simp add: fun_eq_iff rust_user_trap_handler_def krun)
  have enter: "wp (enter_process fuel pf (rust_user_trap_handler pf)
      (prepared pid program (user_stack_of pf) (trap_stack_of pf) (csrs s Sstatus))) Q H s1"
    if "pr_entry program = symbol pf ''user_entry''"
      and "\<And>s'. uart s' = uart s1 @ output_lines (lesson07_report pf) \<Longrightarrow> H s'" for program Q H s1
  proof -
    have spp: "(csrs s Sstatus AND NOT 0x122) AND 256 = 0" by (simp add: and.assoc)
    show ?thesis
      using enter_lesson07 [OF image tx h spp, of k s1] that by (auto simp: fuel wp_def enter_prepared krun)
  qed
  have "wp (run_lesson07 fuel pf (rust_user_trap_handler pf) pid) (\<lambda>_ _. False)
      (\<lambda>s'. uart s' = uart s @ output_lines (lesson07_setup pf pid @ lesson07_report pf)) s"
    unfolding run_lesson07_def
    apply (simp add: wps user07_code_addresses_def pr wp_stack_ranges [OF ok] wp_prepare_image [OF ok]
        \<open>csrs s Sie = 0\<close> wp_user_runtime_prepared code_range_def AddressRange_contains_def size del: append_Cons)
    apply (rule enter)
     apply simp
    apply (simp add: lesson07_setup_def output_lines_Cons prepared_def UserContext_new_def code_range_def
        range_text_def first_sp_def user_stack_of_def trap_stack_of_def)
    done
  then show ?thesis by (simp add: wp_def split: outcome.splits)
qed

end
