(* ===== verification/Lesson08_Run.thy ===== *)
theory Lesson08_Run
  imports Lesson_Image
begin

unbundle bit_operations_syntax

text \<open>
  Lesson 08 from \<^verbatim>\<open>run_lesson08\<close> to the loop its program ends in: two refused system calls
  and three that print, each resumed behind the call with the registers and the stack of the
  program as they were, which the program checks itself.
\<close>

section \<open>The program\<close>

definition lesson08_text :: "platform \<Rightarrow> utext \<Rightarrow> bool" where
  "lesson08_text pf tx \<longleftrightarrow> assembled tx (symbol pf) (symbol pf ''user08_start'') user08_text
     \<and> symbol pf ''user08_start'' AND 1 = 0"

lemma user08_labels:
  assumes asm: "assembled tx adr (adr ''user08_start'') user08_text"
  shows "adr ''user08_entry'' = site tx (adr ''user08_start'') 0"
    "adr ''user08_ecall_unknown'' = site tx (adr ''user08_start'') 6"
    "adr ''user08_ecall_invalid'' = site tx (adr ''user08_start'') 11"
    "adr ''user08_ecall_o'' = site tx (adr ''user08_start'') 23"
    "adr ''user08_ecall_k'' = site tx (adr ''user08_start'') 27"
    "adr ''user08_ecall_newline'' = site tx (adr ''user08_start'') 31"
    "adr ''user08_done'' = site tx (adr ''user08_start'') 40"
    "adr ''user08_end'' = site tx (adr ''user08_start'') (length (code_of user08_text))"
  using assembled_label [OF asm, of "''user08_entry''" 0 0]
    assembled_label [OF asm, of "''user08_ecall_unknown''" 6 0]
    assembled_label [OF asm, of "''user08_ecall_invalid''" 11 0]
    assembled_label [OF asm, of "''user08_ecall_o''" 23 0]
    assembled_label [OF asm, of "''user08_ecall_k''" 27 0]
    assembled_label [OF asm, of "''user08_ecall_newline''" 31 0]
    assembled_label [OF asm, of "''user08_done''" 40 0]
    assembled_label [OF asm, of "''user08_end''" "length (code_of user08_text)" 0]
  by (simp_all add: user08_text_def del: site.simps)

text \<open>What the program keeps between its calls: two callee-saved registers and a word on its stack.\<close>

definition keeps08 :: "usize \<Rightarrow> uregs \<Rightarrow> bool" where
  "keeps08 sp x \<longleftrightarrow> hart_regs x \<and> x 2 = sp \<and> x 18 = 0x2222333344445555 \<and> x 19 = 0x6666777788889999"

abbreviation word08 :: "usize \<Rightarrow> memory \<Rightarrow> bool" where
  "word08 sp \<equiv> word_at sp 0x1122334455667788"

lemma user08_invalid:
  assumes asm: "assembled tx adr a user08_text" and x: "keeps08 sp x" "x 10 = - 1"
  shows "pauses tx adr own (word08 sp) x (site tx a 7) (8, 0) (x(5 := - 1, 17 := 1, 10 := 256)) (site tx a 11) (word08 sp)"
  using x by (intro pauses_keep) (simp_all add: urun_site [OF asm] user08_text_def usteps keeps08_def hart_regs_def word_at_def del: site.simps)

lemma user08_o:
  assumes asm: "assembled tx adr a user08_text" and x: "keeps08 sp x" "x 10 = - 2" and sp: "aligned8 sp"
  shows "pauses tx adr own (word08 sp) x (site tx a 12) (8, 0)
    (x(5 := 0x1122334455667788, 6 := 0x1122334455667788, 17 := 1, 10 := 79)) (site tx a 23) (word08 sp)"
  using x sp by (intro pauses_keep)
    (simp_all add: urun_site [OF asm] user08_text_def usteps keeps08_def hart_regs_def word_at_def fun_eq_iff del: site.simps)

lemma user08_k:
  assumes asm: "assembled tx adr a user08_text" and x: "keeps08 sp x" "x 10 = 0"
  shows "pauses tx adr own (word08 sp) x (site tx a 24) (8, 0) (x(17 := 1, 10 := 75)) (site tx a 27) (word08 sp)"
  using x by (intro pauses_keep) (simp_all add: urun_site [OF asm] user08_text_def usteps keeps08_def hart_regs_def del: site.simps)

lemma user08_newline:
  assumes asm: "assembled tx adr a user08_text" and x: "keeps08 sp x" "x 10 = 0"
  shows "pauses tx adr own (word08 sp) x (site tx a 28) (8, 0) (x(17 := 1, 10 := 10)) (site tx a 31) (word08 sp)"
  using x by (intro pauses_keep) (simp_all add: urun_site [OF asm] user08_text_def usteps keeps08_def hart_regs_def del: site.simps)

lemma user08_spins:
  assumes asm: "assembled tx adr a user08_text" and loop: "adr ''user08_done'' = site tx a 40"
    and x: "keeps08 sp x" "x 10 = 0" and sp: "aligned8 sp" and m: "word08 sp m"
  shows "urun tx adr x (site tx a 32) m = None"
proof -
  have "urun tx adr x' (site tx a 40) m' = None" for x' m'
    by (rule assembled_spins [OF asm _ _ loop]) (simp_all add: user08_text_def)
  then show ?thesis
    using x sp m
    by (simp add: urun_site [OF asm] user08_text_def usteps keeps08_def hart_regs_def word_at_def del: site.simps)
qed

lemma user08_first:
  assumes asm: "assembled tx adr a user08_text" and sp: "aligned8 sp" and own: "\<And>i. i < 8 \<Longrightarrow> own (sp + of_nat i)"
  shows "pauses tx adr own (\<lambda>_. True) (fresh_regs sp) (site tx a 0) (8, 0)
    ((fresh_regs sp)(18 := 0x2222333344445555, 19 := 0x6666777788889999, 6 := 0x1122334455667788,
      17 := 999, 10 := 0)) (site tx a 6) (word08 sp)"
  unfolding pauses_def
proof (intro conjI allI impI exI [of _ "store64 m sp 0x1122334455667788" for m])
  show "hart_regs ((fresh_regs sp)(18 := 0x2222333344445555, 19 := 0x6666777788889999, 6 := 0x1122334455667788,
      17 := 999, 10 := 0))" by (simp add: hart_regs_def fresh_regs_def)
  show "urun tx adr (fresh_regs sp) (site tx a 0) m = Some ((8, 0), (fresh_regs sp)(18 := 0x2222333344445555,
      19 := 0x6666777788889999, 6 := 0x1122334455667788, 17 := 999, 10 := 0), site tx a 6,
      store64 m sp 0x1122334455667788)" for m
    using sp by (simp add: urun_site [OF asm] user08_text_def usteps fresh_regs_def del: site.simps)
  show "word08 sp (store64 m sp 0x1122334455667788)" for m by (simp add: word_at_def)
  show "store64 m sp 0x1122334455667788 b = m b" if "\<not> own b" for m b
    using own that by (rule store64_inside)
qed

section \<open>What it says to the kernel\<close>

definition refused08 :: "platform \<Rightarrow> string \<Rightarrow> usize \<Rightarrow> usize \<Rightarrow> isize \<Rightarrow> string" where
  "refused08 pf label number arg result =
     ''[syscall] number='' @ fmt_dec number @ '' arg0='' @ fmt_dec arg @ '' result='' @ fmt_int result
     @ '' sepc='' @ fmt_hex (symbol pf label) @ '' next='' @ fmt_hex (symbol pf label + 4)"

definition user08_output :: "platform \<Rightarrow> u8 list" where
  "user08_output pf = output_lines
     [refused08 pf ''user08_ecall_unknown'' 999 0 (- 1), refused08 pf ''user08_ecall_invalid'' 1 256 (- 2), ''OK'']"

lemma user08_sites:
  assumes tx: "lesson08_text pf tx" and k: "k \<in> {6, 11, 23, 27, 31}"
  shows "site tx (symbol pf ''user08_start'') k + 4 = site tx (symbol pf ''user08_start'') (Suc k)"
    and "stacks_ok pf \<Longrightarrow> x 2 = first_sp pf \<Longrightarrow>
      reply08 pf (trap_slot pf) (8, 0) x (site tx (symbol pf ''user08_start'') k) =
      (case dispatch_outcome (x 17) (x 10) of
          Sys_Return v \<Rightarrow> Resume v (dispatch_output (x 17) (x 10) @ printed (sint v < 0)
            (''[syscall] number='' @ fmt_dec (x 17) @ '' arg0='' @ fmt_dec (x 10) @ '' result=''
              @ fmt_int v @ '' sepc='' @ fmt_hex (site tx (symbol pf ''user08_start'') k)
              @ '' next='' @ fmt_hex (site tx (symbol pf ''user08_start'') k + 4)))
        | Sys_Exit _ \<Rightarrow> Refuse)"
proof -
  let ?a = "symbol pf ''user08_start''"
  have asm: "assembled tx (symbol pf) ?a user08_text" using tx by (simp add: lesson08_text_def)
  have code: "k < length (code_of user08_text)" "code_of user08_text ! k = ECALL"
    using k by (auto simp: user08_text_def)
  note at = ecall_site [OF asm code]
  show "site tx ?a k + 4 = site tx ?a (Suc k)" using at by simp
  assume "stacks_ok pf" "x 2 = first_sp pf"
  moreover have "user08_known_ecall pf (site tx ?a k)"
    using k unfolding user08_known_ecall_def user08_labels [OF asm] by auto
  ultimately show "reply08 pf (trap_slot pf) (8, 0) x (site tx ?a k) =
      (case dispatch_outcome (x 17) (x 10) of
          Sys_Return v \<Rightarrow> Resume v (dispatch_output (x 17) (x 10) @ printed (sint v < 0)
            (''[syscall] number='' @ fmt_dec (x 17) @ '' arg0='' @ fmt_dec (x 10) @ '' result=''
              @ fmt_int v @ '' sepc='' @ fmt_hex (site tx ?a k) @ '' next='' @ fmt_hex (site tx ?a k + 4)))
        | Sys_Exit _ \<Rightarrow> Refuse)"
    using at good_first_sp [of pf]
    by (simp add: reply08_def trap_ok_ecall user08_labels(8) [OF asm] del: site.simps append_Cons)
qed

lemma user08_round:
  assumes tx: "lesson08_text pf tx" and ok: "stacks_ok pf" and k: "k \<in> {6, 11, 23, 27, 31}"
    and own: "private_to own (word08 sp)"
    and pause: "pauses tx (symbol pf) own P x pc (8, 0) x' (site tx (symbol pf ''user08_start'') k) (word08 sp)"
    and x': "x' 2 = first_sp pf" "dispatch_outcome (x' 17) (x' 10) = Sys_Return v"
    and rest: "talks tx (symbol pf) own (reply08 pf (trap_slot pf)) (word08 sp) (x'(10 := v))
      (site tx (symbol pf ''user08_start'') j) outs verdict n" "j = Suc k" "n' = Suc n"
    and out: "out = dispatch_output (x' 17) (x' 10) @ printed (sint v < 0)
      (''[syscall] number='' @ fmt_dec (x' 17) @ '' arg0='' @ fmt_dec (x' 10) @ '' result=''
        @ fmt_int v @ '' sepc='' @ fmt_hex (site tx (symbol pf ''user08_start'') k)
        @ '' next='' @ fmt_hex (site tx (symbol pf ''user08_start'') k + 4))"
  shows "talks tx (symbol pf) own (reply08 pf (trap_slot pf)) P x pc (out @ outs) verdict n'"
  unfolding rest(3) by (rule talks.resume [OF pause own])
    (use user08_sites(2) [OF tx k ok, where x = x'] x'(1) user08_sites(1) [OF tx k] rest in
      \<open>simp_all add: x'(2) out del: site.simps append_Cons\<close>)

lemma calls08 [simp]:
  "dispatch_outcome 1 10 = Sys_Return 0" "dispatch_output 1 10 = [10]"
  "dispatch_outcome 1 75 = Sys_Return 0" "dispatch_output 1 75 = [75]"
  "dispatch_outcome 1 79 = Sys_Return 0" "dispatch_output 1 79 = [79]"
  "dispatch_outcome 1 256 = Sys_Return (- 2)" "dispatch_output 1 256 = []"
  "dispatch_outcome 999 0 = Sys_Return (- 1)" "dispatch_output 999 0 = []"
  "printed False l = []" "printed True l = as_bytes l @ [10]"
  "as_bytes ''OK'' = [79, 75]"
  by (simp_all add: dispatch_outcome_def dispatch_output_def printed_def as_bytes_def)

lemma user08_talks:
  assumes tx: "lesson08_text pf tx" and ok: "stacks_ok pf"
  shows "talks tx (symbol pf) (on_user_stack pf) (reply08 pf (trap_slot pf)) (\<lambda>_. True)
    (fresh_regs (first_sp pf)) (symbol pf ''user08_entry'') (user08_output pf) None 6"
proof -
  let ?a = "symbol pf ''user08_start''" and ?sp = "first_sp pf"
  let ?talks = "talks tx (symbol pf) (on_user_stack pf) (reply08 pf (trap_slot pf)) (word08 ?sp)"
  have asm: "assembled tx (symbol pf) ?a user08_text" using tx by (simp add: lesson08_text_def)
  note labels = user08_labels [OF asm] and sp = first_sp_word [OF ok]
  have own: "private_to (on_user_stack pf) (word08 ?sp)" by (rule private_word) (rule sp(2))
  note round = user08_round [OF tx ok _ own]
  have spins: "?talks x (site tx ?a 32) [] None 1" if "keeps08 ?sp x" "x 10 = 0" for x
    unfolding One_nat_def by (rule talks.spin, rule user08_spins [OF asm labels(7) that sp(1)])
  note regs = keeps08_def hart_regs_def
  have newline: "?talks x (site tx ?a 28) ([10] @ []) None 2" if x: "keeps08 ?sp x" "x 10 = 0" for x
    by (rule round [where v = 0, OF _ user08_newline [OF asm x] _ _ spins]) (use x in \<open>simp_all add: regs del: site.simps\<close>)
  have k: "?talks x (site tx ?a 24) ([75] @ [10] @ []) None 3" if x: "keeps08 ?sp x" "x 10 = 0" for x
    by (rule round [where v = 0, OF _ user08_k [OF asm x] _ _ newline]) (use x in \<open>simp_all add: regs del: site.simps\<close>)
  have o': "?talks x (site tx ?a 12) ([79] @ [75] @ [10] @ []) None 4" if x: "keeps08 ?sp x" "x 10 = - 2" for x
    by (rule round [where v = 0, OF _ user08_o [OF asm x sp(1)] _ _ k]) (use x in \<open>simp_all add: regs del: site.simps\<close>)
  have invalid: "?talks x (site tx ?a 7) ((as_bytes (refused08 pf ''user08_ecall_invalid'' 1 256 (- 2)) @ [10])
      @ [79] @ [75] @ [10] @ []) None 5" if x: "keeps08 ?sp x" "x 10 = - 1" for x
    by (rule round [where v = "- 2", OF _ user08_invalid [OF asm x] _ _ o'])
      (use x in \<open>simp_all add: regs refused08_def labels del: site.simps append_Cons\<close>)
  have "talks tx (symbol pf) (on_user_stack pf) (reply08 pf (trap_slot pf)) (\<lambda>_. True) (fresh_regs ?sp) (site tx ?a 0)
      ((as_bytes (refused08 pf ''user08_ecall_unknown'' 999 0 (- 1)) @ [10])
        @ (as_bytes (refused08 pf ''user08_ecall_invalid'' 1 256 (- 2)) @ [10]) @ [79] @ [75] @ [10] @ []) None 6"
    by (rule round [where v = "- 1", OF _ user08_first [where own = "on_user_stack pf", OF asm sp] _ _ invalid])
      (simp_all add: regs fresh_regs_def refused08_def labels del: site.simps append_Cons)
  then show ?thesis
    unfolding labels(1) by (simp add: user08_output_def output_lines_Cons del: site.simps)
qed

section \<open>The lesson\<close>

definition lesson08_lines :: "platform \<Rightarrow> u64 \<Rightarrow> string list" where
  "lesson08_lines pf pid =
     [''[syscall setup] pid='' @ fmt_dec pid @ '' program=user-syscalls'',
      ''[syscall setup] abi=a7:number,a0:arg0/result'',
      ''[syscall setup] spp=0'',
      ''[syscall setup] sepc='' @ fmt_hex (symbol pf ''user08_entry''),
      ''[syscall enter]'',
      refused08 pf ''user08_ecall_unknown'' 999 0 (- 1),
      refused08 pf ''user08_ecall_invalid'' 1 256 (- 2),
      ''OK'']"

lemma user08_programs:
  assumes "lesson08_text pf tx"
  shows "symbol pf ''user08_start'' \<le> symbol pf ''user08_entry''" "symbol pf ''user08_entry'' < symbol pf ''user08_end''"
    "symbol pf ''user08_entry'' AND 1 = 0"
proof -
  have asm: "assembled tx (symbol pf) (symbol pf ''user08_start'') user08_text"
    and even: "symbol pf ''user08_start'' AND 1 = 0" using assms by (simp_all add: lesson08_text_def)
  have "0 < length (code_of user08_text)" by (simp add: user08_text_def)
  then have "site tx (symbol pf ''user08_start'') 0 < site tx (symbol pf ''user08_start'') (length (code_of user08_text))"
    using assembled_increasing [OF asm] by blast
  then show "symbol pf ''user08_start'' \<le> symbol pf ''user08_entry''" "symbol pf ''user08_entry'' < symbol pf ''user08_end''"
    "symbol pf ''user08_entry'' AND 1 = 0"
    using even unfolding user08_labels [OF asm] by simp_all
qed

text \<open>
  C8: on an image with the program text of \<^verbatim>\<open>src/user.S\<close>, the program of lesson 08 makes its
  five system calls and ends in its success loop: the unknown number is refused with -1, the
  argument 256 with -2, and the three others print \<open>OK\<close> and a newline; after every call the
  program goes on with its registers and its stack unchanged, as its own checks require, for
  one failing would print \<open>F\<close>.  The console shows exactly these lines.
\<close>

theorem lesson08_run:
  assumes image: "user_image_ok pf tx" and tx: "lesson08_text pf tx"
    and "feature pf ''lesson08-syscalls''" and "\<not> feature pf ''lesson09-exit''"
    and "\<not> feature pf ''lesson10-user-errors''" and "\<not> feature pf ''scheduling''"
    and "6 \<le> fuel" and "csrs s Sie = 0" and "expected_trap_frame s \<in> {0, trap_slot pf}"
  shows "\<exists>s'. run_lesson08 fuel pf (rust_user_trap_handler pf) pid s = Halted s'
    \<and> uart s' = uart s @ output_lines (lesson08_lines pf pid)"
proof -
  have ok: "stacks_ok pf" using image by (simp add: user_image_ok_def)
  note pr = user08_programs [OF tx]
  have h: "rust_user_trap_handler pf = on_frame (resume_lesson08 pf)"
    using assms rust_user_trap_handler_selects(4) by blast
  have enter: "wp (enter_process fuel pf (on_frame (resume_lesson08 pf))
      (prepared pid program (user_stack_of pf) (trap_stack_of pf) (csrs s Sstatus))) Q H s1"
    if "pr_entry program = symbol pf ''user08_entry''" and "expected_trap_frame s1 = expected_trap_frame s"
      and "\<And>s'. uart s' = uart s1 @ user08_output pf \<Longrightarrow> H s'" for program Q H s1
  proof -
    have spp: "(csrs s Sstatus AND NOT 0x122) AND 256 = 0" by (simp add: and.assoc)
    have served: "expected_trap_frame s1 \<in> {0, trap_slot pf} \<and> act_code (active s1) = act_code (active s1)"
      using assms that by simp
    obtain s' where "enter_user_mode (6 + (fuel - 6)) pf (on_frame (resume_lesson08 pf)) (first_sp pf)
        (symbol pf ''user08_entry'') (csrs s Sstatus AND NOT 0x122) (trap_slot pf + 288) s1 = Halted s'"
        "uart s' = uart s1 @ user08_output pf"
      using lesson08.process_spins [OF user08_talks [OF tx ok] user_image_stage [OF image] spp served] by blast
    then show ?thesis using \<open>6 \<le> fuel\<close> that by (simp add: wp_def enter_prepared krun)
  qed
  have "wp (run_lesson08 fuel pf (rust_user_trap_handler pf) pid) (\<lambda>_ _. False)
      (\<lambda>s'. uart s' = uart s @ output_lines (lesson08_lines pf pid)) s"
    unfolding h run_lesson08_def
    apply (simp add: wps user08_code_addresses_def pr wp_stack_ranges [OF ok] wp_prepare_image [OF ok]
        \<open>csrs s Sie = 0\<close> wp_user_runtime_prepared del: append_Cons)
    apply (rule enter)
      apply simp
     apply simp
    apply (simp add: lesson08_lines_def user08_output_def output_lines_Cons prepared_def UserContext_new_def)
    done
  then show ?thesis by (simp add: wp_def split: outcome.splits)
qed

end
