(* ===== verification/Lesson09_Run.thy ===== *)
theory Lesson09_Run
  imports Lesson_Image
begin

unbundle bit_operations_syntax

text \<open>
  Lesson 09 from \<^verbatim>\<open>run_lesson09\<close> to the last line it prints: the demonstration program of
  \<^verbatim>\<open>src/user.S\<close> makes one invalid exit and one valid one, the kernel gets control back with
  the code, and then runs the stress program a hundred times.
\<close>

section \<open>The programs\<close>

text \<open>
  The assembled text holds both programs, the stress program after the other and both at even
  addresses, as \<^verbatim>\<open>.balign 4\<close> puts them.
\<close>

definition lesson09_text :: "platform \<Rightarrow> utext \<Rightarrow> bool" where
  "lesson09_text pf tx \<longleftrightarrow> assembled tx (symbol pf) (symbol pf ''user09_start'') user09_text
     \<and> assembled tx (symbol pf) (symbol pf ''user09_stress_start'') user09_stress_text
     \<and> symbol pf ''user09_end'' \<le> symbol pf ''user09_stress_start''
     \<and> symbol pf ''user09_start'' AND 1 = 0 \<and> symbol pf ''user09_stress_start'' AND 1 = 0"

lemma user09_labels:
  assumes asm: "assembled tx adr (adr ''user09_start'') user09_text"
  shows "adr ''user09_entry'' = site tx (adr ''user09_start'') 0"
    "adr ''user09_ecall_invalid_exit'' = site tx (adr ''user09_start'') 2"
    "adr ''user09_ecall_exit7'' = site tx (adr ''user09_start'') 7"
    "adr ''user09_end'' = site tx (adr ''user09_start'') (length (code_of user09_text))"
  using assembled_label [OF asm, of "''user09_entry''" 0 0]
    assembled_label [OF asm, of "''user09_ecall_invalid_exit''" 2 0]
    assembled_label [OF asm, of "''user09_ecall_exit7''" 7 0]
    assembled_label [OF asm, of "''user09_end''" "length (code_of user09_text)" 0]
  by (simp_all add: user09_text_def del: site.simps)

lemma user09_first:
  assumes asm: "assembled tx adr a user09_text"
  shows "pauses tx adr own (\<lambda>_. True) (fresh_regs sp) (site tx a 0) (8, 0)
    ((fresh_regs sp)(17 := 2, 10 := 256)) (site tx a 2) (\<lambda>_. True)"
  by (rule pausesI) (simp_all add: urun_site [OF asm] user09_text_def usteps fresh_regs_def hart_regs_def del: site.simps)

lemma user09_second:
  assumes asm: "assembled tx adr a user09_text" and x: "hart_regs x" "x 10 = - 2"
  shows "pauses tx adr own (\<lambda>_. True) x (site tx a 3) (8, 0)
    (x(5 := - 2, 17 := 2, 10 := 7)) (site tx a 7) (\<lambda>_. True)"
  using x by (intro pausesI) (simp_all add: urun_site [OF asm] user09_text_def usteps hart_regs_def del: site.simps)

lemma user09_stress_labels:
  assumes asm: "assembled tx adr (adr ''user09_stress_start'') user09_stress_text"
  shows "adr ''user09_stress_entry'' = site tx (adr ''user09_stress_start'') 0"
    "adr ''user09_stress_ecall'' = site tx (adr ''user09_stress_start'') 2"
    "adr ''user09_stress_end'' = site tx (adr ''user09_stress_start'') (length (code_of user09_stress_text))"
  using assembled_label [OF asm, of "''user09_stress_entry''" 0 0]
    assembled_label [OF asm, of "''user09_stress_ecall''" 2 0]
    assembled_label [OF asm, of "''user09_stress_end''" "length (code_of user09_stress_text)" 0]
  by (simp_all add: user09_stress_text_def del: site.simps)

lemma user09_stress_pause:
  assumes asm: "assembled tx adr a user09_stress_text"
  shows "pauses tx adr own (\<lambda>_. True) (fresh_regs sp) (site tx a 0) (8, 0)
    ((fresh_regs sp)(17 := 2, 10 := 0)) (site tx a 2) (\<lambda>_. True)"
  by (rule pausesI)
    (simp_all add: urun_site [OF asm] user09_stress_text_def usteps fresh_regs_def hart_regs_def del: site.simps)

section \<open>What they say to the kernel\<close>

definition exit_demo_lines :: "platform \<Rightarrow> string list" where
  "exit_demo_lines pf =
     [''[exit] invalid code=256 result=-2 sepc='' @ fmt_hex (symbol pf ''user09_ecall_invalid_exit'')
        @ '' next='' @ fmt_hex (symbol pf ''user09_ecall_invalid_exit'' + 4),
      ''[exit] code=7 terminate sepc='' @ fmt_hex (symbol pf ''user09_ecall_exit7'')]"

lemma exit_numbers [simp]: "fmt_dec (256 :: 64 word) = ''256''" "fmt_int (- 2 :: 64 word) = ''-2''"
  "fmt_dec (7 :: 8 word) = ''7''"
  by code_simp+

lemma exit_demo_talks:
  assumes tx: "lesson09_text pf tx" and ok: "stacks_ok pf"
  shows "talks tx (symbol pf) (on_user_stack pf) (reply09 pf (trap_slot pf)) (\<lambda>_. True)
    (fresh_regs (first_sp pf)) (symbol pf ''user09_entry'') (output_lines (exit_demo_lines pf))
    (Some (Run_Exited 7)) 2"
proof -
  let ?a = "symbol pf ''user09_start''" and ?x = "(fresh_regs (first_sp pf))(17 := 2, 10 := 256)"
  let ?y = "(?x(10 := - 2))(5 := - 2, 17 := 2, 10 := 7)"
  have asm: "assembled tx (symbol pf) ?a user09_text" using tx by (simp add: lesson09_text_def)
  note labels = user09_labels [OF asm]
  have code: "code_of user09_text ! 2 = ECALL" "code_of user09_text ! 7 = ECALL"
    "2 < length (code_of user09_text)" "7 < length (code_of user09_text)" by (simp_all add: user09_text_def)
  note site2 = ecall_site [OF asm code(3) code(1)] and site7 = ecall_site [OF asm code(4) code(2)]
  have sp: "good_sp pf (first_sp pf)" by (rule good_first_sp [OF ok])
  have kind: "user09_ecall_kind pf (site tx ?a 2) = Some ''invalid''"
    "user09_ecall_kind pf (site tx ?a 7) = Some ''exit7''"
    using site_inject [OF asm, of 2 7] code by (simp_all add: user09_ecall_kind_def labels)
  have range: "lesson09_range pf (site tx ?a k) = Some (?a, symbol pf ''user09_end'')" if "k = 2 \<or> k = 7" for k
    using that site2(1,2) site7(1,2) by (auto simp: lesson09_range_def in_code_def labels)
  have accepted: "trap_ok pf (trap_slot pf) (8, 0) x (site tx ?a k) ?a (symbol pf ''user09_end'')"
    if "k = 2 \<or> k = 7" "x 2 = first_sp pf" for k x
    using that sp site2(1-3) site7(1-3) by (auto simp: trap_ok_ecall [OF ok] labels)
  have first: "reply09 pf (trap_slot pf) (8, 0) ?x (site tx ?a 2) = Resume (- 2)
      (output_lines [exit_demo_lines pf ! 0])"
    using kind(1) range [of 2] accepted [of 2 ?x]
    by (simp add: reply09_def fresh_regs_def dispatch_outcome_def dispatch_output_def printed_def
        output_lines_def exit_demo_lines_def labels del: site.simps)
  have second: "reply09 pf (trap_slot pf) (8, 0) ?y (site tx ?a 7) = Finish (Run_Exited 7)
      (output_lines [exit_demo_lines pf ! 1])"
    using kind(2) range [of 7] accepted [of 7 ?y]
    by (simp add: reply09_def fresh_regs_def dispatch_outcome_def dispatch_output_def printed_def
        output_lines_def exit_demo_lines_def labels del: site.simps)
  have pause: "pauses tx (symbol pf) (on_user_stack pf) (\<lambda>_. True) (?x(10 := - 2)) (site tx ?a 2 + 4) (8, 0)
      ?y (site tx ?a 7) (\<lambda>_. True)"
    using user09_second [OF asm, of "?x(10 := - 2)"] site2(4) by (simp add: eval_nat_numeral del: site.simps)
  have "talks tx (symbol pf) (on_user_stack pf) (reply09 pf (trap_slot pf)) (\<lambda>_. True)
      (fresh_regs (first_sp pf)) (site tx ?a 0)
      (output_lines [exit_demo_lines pf ! 0] @ output_lines [exit_demo_lines pf ! 1]) (Some (Run_Exited 7)) (Suc (Suc 0))"
    by (rule talks.resume, rule user09_first [OF asm], rule private_True, rule first,
        rule talks.finish, rule pause, rule second)
  moreover have "output_lines [exit_demo_lines pf ! 0] @ output_lines [exit_demo_lines pf ! 1]
      = output_lines (exit_demo_lines pf)"
    by (simp add: output_lines_def exit_demo_lines_def)
  ultimately show ?thesis unfolding labels(1) numeral_2_eq_2 by (simp only:)
qed

lemma stress_talks:
  assumes tx: "lesson09_text pf tx" and ok: "stacks_ok pf"
  shows "talks tx (symbol pf) (on_user_stack pf) (reply09 pf (trap_slot pf)) (\<lambda>_. True)
    (fresh_regs (first_sp pf)) (symbol pf ''user09_stress_entry'') [] (Some (Run_Exited 0)) (Suc 0)"
proof -
  let ?a = "symbol pf ''user09_stress_start''" and ?x = "(fresh_regs (first_sp pf))(17 := 2, 10 := 0)"
  have asm: "assembled tx (symbol pf) ?a user09_stress_text"
    and asm9: "assembled tx (symbol pf) (symbol pf ''user09_start'') user09_text"
    and order: "symbol pf ''user09_end'' \<le> ?a" using tx by (simp_all add: lesson09_text_def)
  note labels = user09_stress_labels [OF asm] and labels9 = user09_labels [OF asm9]
  have code: "code_of user09_stress_text ! 2 = ECALL" "2 < length (code_of user09_stress_text)"
    by (simp_all add: user09_stress_text_def)
  note site2 = ecall_site [OF asm code(2,1)]
  have len: "7 < length (code_of user09_text)" by (simp add: user09_text_def)
  have beyond: "symbol pf ''user09_end'' \<le> site tx ?a 2" using order site2(1) by (rule order_trans)
  have "site tx (symbol pf ''user09_start'') k < symbol pf ''user09_end''" if "k \<le> 7" for k
    using assembled_increasing [OF asm9, of k "length (code_of user09_text)"] that len by (simp add: labels9)
  then have apart: "site tx ?a 2 \<noteq> site tx (symbol pf ''user09_start'') k" if "k \<le> 7" for k
    using that beyond by (metis leD)
  have kind: "user09_ecall_kind pf (site tx ?a 2) = Some ''stress''"
    using apart [of 2] apart [of 7] by (simp add: user09_ecall_kind_def labels labels9)
  have range: "lesson09_range pf (site tx ?a 2) = Some (?a, symbol pf ''user09_stress_end'')"
    using beyond site2(1,2) by (auto simp: lesson09_range_def in_code_def labels)
  have "reply09 pf (trap_slot pf) (8, 0) ?x (site tx ?a 2) = Finish (Run_Exited 0) []"
    using kind range good_first_sp [OF ok] site2(1-3)
    by (simp add: reply09_def trap_ok_ecall [OF ok] fresh_regs_def dispatch_outcome_def dispatch_output_def
        printed_def labels del: site.simps)
  then show ?thesis unfolding labels(1) by (intro talks.finish [OF user09_stress_pause [OF asm]])
qed

section \<open>One process of lesson 09\<close>

lemma wp_run_exit:
  assumes image: "user_image_ok pf tx"
    and talk: "talks tx (symbol pf) (on_user_stack pf) (reply09 pf (trap_slot pf)) (\<lambda>_. True)
      (fresh_regs (first_sp pf)) (pr_entry program) added (Some (Run_Exited code)) n"
    and fuel: "n \<le> fuel" and s: "managing pf sp out s"
    and Q: "\<And>s'. managing pf sp (out @ added) s' \<Longrightarrow> last_exit_code s' = ucast code \<Longrightarrow> Q 1 s'"
  shows "wp (run_process fuel pf (on_frame (handle_lesson09 pf))
      (prepared pid program (user_stack_of pf) (trap_stack_of pf) sst)) Q H s"
  by (rule lesson09.wp_run_process [OF image refl refl talk fuel s])
    (rule Q, simp_all add: settle09_def)

section \<open>The hundred runs\<close>

lemma take_exit_code_wp:
  "last_exit_code s = ucast (code :: u8) \<Longrightarrow>
   wp take_exit_code Q H s = Q code (s\<lparr>last_exit_code := NO_EXIT_CODE\<rparr>)"
proof -
  assume "last_exit_code s = ucast code"
  moreover have "unat code < 2 ^ LENGTH(8)" by (rule unsigned_less)
  then have "unat (ucast code :: usize) < 256" by (simp add: unsigned_ucast_eq take_bit_eq_mod)
  then have "\<not> ucast code > (255 :: usize)" by (simp add: word_less_nat_alt)
  moreover have "ucast (ucast code :: usize) = code"
    by (simp add: ucast_down_ucast_id is_down)
  ultimately show ?thesis by (simp add: take_exit_code_def wps)
qed

lemma take_exit_code_wp0 [simp]:
  "last_exit_code s = 0 \<Longrightarrow> wp take_exit_code Q H s = Q 0 (s\<lparr>last_exit_code := NO_EXIT_CODE\<rparr>)"
  using take_exit_code_wp [of s 0] by simp

lemma stress_run_ok:
  assumes image: "user_image_ok pf tx" and tx: "lesson09_text pf tx" and fuel: "0 < fuel"
    and program: "pr_entry program = symbol pf ''user09_stress_entry''"
    and pid: "unat first_pid + i < 2 ^ 64" and s: "managing pf sp out s"
    and Q: "\<And>s'. managing pf sp out s' \<Longrightarrow> Q (steady_sp, no_running, first_pid + of_nat i) s'"
  shows "wp (stress_run fuel pf (on_frame (handle_lesson09 pf)) program (user_stack_of pf) (trap_stack_of pf)
    first_pid sp i (steady_sp, no_running, prev)) Q H s"
proof -
  have ok: "stacks_ok pf" using image by (simp add: user_image_ok_def)
  have asm: "assembled tx (symbol pf) (symbol pf ''user09_stress_start'') user09_stress_text"
    using tx by (simp add: lesson09_text_def)
  have even: "pr_entry program AND 1 = 0"
    using tx user09_stress_labels(1) [OF asm] program by (simp add: lesson09_text_def)
  have talk: "talks tx (symbol pf) (on_user_stack pf) (reply09 pf (trap_slot pf)) (\<lambda>_. True)
      (fresh_regs (first_sp pf)) (pr_entry program) [] (Some (Run_Exited 0)) (Suc 0)"
    using stress_talks [OF tx ok] by (simp add: program)
  have next_pid: "checked_add first_pid (of_nat i) = Some (first_pid + of_nat i)"
    using pid by (simp add: checked_add_def unat_of_nat take_bit_eq_mod)
  have sp: "regs t 2 = sp" if "managing pf sp out t" for t using that by (simp add: managing_def)
  show ?thesis
    unfolding stress_run_def prod.case
    apply (simp add: wps next_pid)
    apply (rule wp_prepare [OF ok s even])
    apply (simp add: wps reset_exit_mailbox_def read_sp_def)
    apply (rule wp_run_exit [OF image talk _ managing_mailbox(1) [THEN iffD2, OF s]])
     apply (simp add: fuel Suc_leI)
    apply (simp add: wps ACTION_TERMINATE_PROCESS_def take_exit_code_wp finish_exit_def prepared_def)
    apply (rule wp_clear_stacks [OF ok managing_mailbox(1) [THEN iffD2]], assumption)
    apply (simp add: wps sp [OF s] sp Q)
    done
qed

lemma stress_loop_ok:
  assumes image: "user_image_ok pf tx" and tx: "lesson09_text pf tx" and fuel: "0 < fuel"
    and program: "pr_entry program = symbol pf ''user09_stress_entry''"
  shows "managing pf sp out s \<Longrightarrow> unat first_pid + n \<le> 2 ^ 64 \<Longrightarrow> m < n \<Longrightarrow>
    (\<And>s'. managing pf sp out s' \<Longrightarrow> Q (True, True, first_pid + of_nat (n - 1)) s') \<Longrightarrow>
    wp (stress_loop fuel pf (on_frame (handle_lesson09 pf)) program (user_stack_of pf) (trap_stack_of pf)
      first_pid sp [m..<n] (True, True, prev)) Q H s"
proof (induction "n - m" arbitrary: m s prev)
  case (Suc k)
  have "wp (stress_run fuel pf (on_frame (handle_lesson09 pf)) program (user_stack_of pf) (trap_stack_of pf)
      first_pid sp m (True, True, prev)) (\<lambda>a. wp (stress_loop fuel pf (on_frame (handle_lesson09 pf)) program
        (user_stack_of pf) (trap_stack_of pf) first_pid sp [Suc m..<n] a) Q H) H s"
  proof (rule stress_run_ok [OF image tx fuel program _ Suc.prems(1)])
    show "unat first_pid + m < 2 ^ 64" using Suc.prems by simp
    fix s' assume s': "managing pf sp out s'"
    show "wp (stress_loop fuel pf (on_frame (handle_lesson09 pf)) program (user_stack_of pf) (trap_stack_of pf)
        first_pid sp [Suc m..<n] (True, True, first_pid + of_nat m)) Q H s'"
    proof (cases "Suc m < n")
      case True
      then show ?thesis using Suc s' by auto
    next
      case False
      then have "n = Suc m" using Suc.prems by simp
      then show ?thesis using Suc.prems(4) s' by (simp add: wps)
    qed
  qed
  then show ?case using Suc.prems by (simp add: upt_conv_Cons wps)
qed simp

section \<open>The lesson\<close>

definition lesson09_lines :: "platform \<Rightarrow> u64 \<Rightarrow> string list" where
  "lesson09_lines pf pid = exit_demo_lines pf @
     [''kernel resumed: exit=7'',
      ''process state=Exited(7)'',
      ''kernel_sp_returned=true'',
      ''[exit stress] completed=100'',
      ''[exit stress] first_pid='' @ fmt_dec (pid + 1) @ '' last_pid='' @ fmt_dec (pid + 100),
      ''[exit stress] kernel_sp_stable=true'',
      ''[exit stress] trap_frame_stable=true'',
      ''[exit stress] no_running=true'']"

lemma user09_programs:
  assumes "lesson09_text pf tx"
  shows "symbol pf ''user09_start'' \<le> symbol pf ''user09_entry''" "symbol pf ''user09_entry'' < symbol pf ''user09_end''"
    "symbol pf ''user09_entry'' AND 1 = 0"
    "symbol pf ''user09_stress_start'' \<le> symbol pf ''user09_stress_entry''"
    "symbol pf ''user09_stress_entry'' < symbol pf ''user09_stress_end''"
proof -
  let ?a = "symbol pf ''user09_start''" and ?b = "symbol pf ''user09_stress_start''"
  have asm: "assembled tx (symbol pf) ?a user09_text" "assembled tx (symbol pf) ?b user09_stress_text"
    and even: "?a AND 1 = 0" using assms by (simp_all add: lesson09_text_def)
  have "0 < length (code_of user09_text)" "0 < length (code_of user09_stress_text)"
    by (simp_all add: user09_text_def user09_stress_text_def)
  then have "site tx ?a 0 < site tx ?a (length (code_of user09_text))"
    "site tx ?b 0 < site tx ?b (length (code_of user09_stress_text))"
    using assembled_increasing [OF asm(1)] assembled_increasing [OF asm(2)] by blast+
  then show "?a \<le> symbol pf ''user09_entry''" "symbol pf ''user09_entry'' < symbol pf ''user09_end''"
    "symbol pf ''user09_entry'' AND 1 = 0" "?b \<le> symbol pf ''user09_stress_entry''"
    "symbol pf ''user09_stress_entry'' < symbol pf ''user09_stress_end''"
    using even unfolding user09_labels [OF asm(1)] user09_stress_labels [OF asm(2)] by simp_all
qed

lemma lesson09_wp:
  assumes image: "user_image_ok pf tx" and tx: "lesson09_text pf tx" and fuel: "2 \<le> fuel"
    and s: "managing pf sp out (s\<lparr>expected_trap_frame := 0\<rparr>)" and pid: "unat pid + 100 < 2 ^ 64"
  shows "wp (run_lesson09 fuel pf (on_frame (handle_lesson09 pf)) pid) (\<lambda>_ _. False)
    (\<lambda>s'. uart s' = out @ output_lines (lesson09_lines pf pid)) s"
proof -
  have ok: "stacks_ok pf" using image by (simp add: user_image_ok_def)
  note pr = user09_programs [OF tx]
  have sp: "regs t 2 = sp" if "managing pf sp out t" for out t using that by (simp add: managing_def)
  have sp0: "regs s 2 = sp" using sp [OF s] by simp
  have ranges: "stack_ranges pf = kret (user_stack_of pf, trap_stack_of pf, boot_stack pf)"
    using stacks_okD(4) [OF ok] by (auto simp: fun_eq_iff kret_def)
  have pid1: "checked_add pid 1 = Some (pid + 1)" and after: "unat (pid + 1) + 100 \<le> 2 ^ 64"
    using pid by (simp_all add: checked_add_def unat_add_no_overflow)
  show ?thesis
    unfolding run_lesson09_def ranges
    apply (simp add: wps user09_code_addresses_def pr del: append_Cons)
    apply (rule wp_prepare [OF ok s])
     apply (simp add: pr)
    apply (simp add: wps reset_exit_mailbox_def read_sp_def del: append_Cons)
    apply (rule wp_run_exit [OF image _ fuel managing_mailbox(1) [THEN iffD2, OF s]])
     apply (simp only: Program.select_convs, rule exit_demo_talks [OF tx ok])
    apply (simp add: wps ACTION_TERMINATE_PROCESS_def take_exit_code_wp [where code = 7, simplified] finish_exit_def prepared_def del: append_Cons)
    apply (rule wp_clear_stacks [OF ok, where sp = sp and out = "uart t" and s = t for t])
     apply (simp add: managing_def)
    apply (simp add: wps user09_stress_code_addresses_def pr pid1 sp sp0 del: append_Cons)
    apply (rule stress_loop_ok [OF image tx, where sp = sp])
         apply (use fuel in simp)
        apply simp
       apply (simp only: managing_mailbox)
      apply (use after in simp)
     apply simp
    apply (simp add: wps del: append_Cons)
    apply (simp add: fmt_bool_def lesson09_lines_def output_lines_Cons managing_def add.commute [of pid])
    done
qed

text \<open>
  C7: on an image with the program text of \<^verbatim>\<open>src/user.S\<close>, lesson 09 runs to its end: the
  demonstration's invalid exit is refused with -2 and resumed behind its system call, its exit
  with code 7 gives control back to the kernel with the stack pointer it had, then a hundred
  processes with the next hundred identifiers run and exit with 0, and the kernel reports all
  of it, in this order and with nothing else on the console, and shuts down.
\<close>

theorem lesson09_run:
  assumes "user_image_ok pf tx" and "lesson09_text pf tx"
    and "feature pf ''lesson09-exit''" and "\<not> feature pf ''lesson10-user-errors''" and "\<not> feature pf ''scheduling''"
    and "2 \<le> fuel" and "unat pid + 100 < 2 ^ 64" and "csrs s Sie = 0"
    and "\<not> on_user_stack pf (regs s 2)" and "\<not> AddressRange_contains (trap_stack_of pf) (regs s 2)"
  shows "\<exists>s'. run_lesson09 fuel pf (rust_user_trap_handler pf) pid s = Halted s'
    \<and> uart s' = uart s @ output_lines (lesson09_lines pf pid)"
proof -
  have "managing pf (regs s 2) (uart s) (s\<lparr>expected_trap_frame := 0\<rparr>)"
    using assms by (simp add: managing_def)
  from lesson09_wp [OF assms(1,2,6) this assms(7)] show ?thesis
    using rust_user_trap_handler_selects(3) [of pf] assms(3-5) by (simp add: wp_def split: outcome.splits)
qed

end
