(* ===== verification/Lesson10_Talk.thy ===== *)
theory Lesson10_Talk
  imports Lesson09_Run
begin

unbundle bit_operations_syntax

text \<open>
  What the programs of lesson 10 say to the kernel: the two of lesson 09, the one that executes
  an illegal instruction, and the one that calls the user library for every character it prints.
\<close>

section \<open>The texts\<close>

text \<open>The library comes after every program, as the linker script places it.\<close>

definition lesson10_text :: "platform \<Rightarrow> utext \<Rightarrow> bool" where
  "lesson10_text pf tx \<longleftrightarrow> lesson09_text pf tx
     \<and> assembled tx (symbol pf) (symbol pf ''user10_fault_start'') user10_fault_text
     \<and> assembled tx (symbol pf) (symbol pf ''user10_normal_start'') user10_normal_text
     \<and> assembled tx (symbol pf) (symbol pf ''user_api_start'') user_api_text
     \<and> symbol pf ''user09_stress_end'' \<le> symbol pf ''user_api_start''
     \<and> symbol pf ''user10_fault_end'' \<le> symbol pf ''user_api_start''
     \<and> symbol pf ''user10_normal_end'' \<le> symbol pf ''user_api_start''
     \<and> symbol pf ''user10_fault_start'' AND 1 = 0 \<and> symbol pf ''user10_normal_start'' AND 1 = 0"

lemma user_api_labels:
  assumes asm: "assembled tx adr (adr ''user_api_start'') user_api_text"
  shows "adr ''user_api_putchar'' = site tx (adr ''user_api_start'') 0"
    "adr ''user_api_exit'' = site tx (adr ''user_api_start'') 3"
    "adr ''user_api_end'' = site tx (adr ''user_api_start'') (length (code_of user_api_text))"
  using assembled_label [OF asm, of "''user_api_putchar''" 0 0] assembled_label [OF asm, of "''user_api_exit''" 3 0]
    assembled_label [OF asm, of "''user_api_end''" "length (code_of user_api_text)" 0]
  by (simp_all add: user_api_text_def del: site.simps)

lemma user10_labels:
  assumes asm: "assembled tx adr (adr ''user10_normal_start'') user10_normal_text"
  shows "adr ''user10_normal_main'' = site tx (adr ''user10_normal_start'') 35"
    "adr ''user10_normal_end'' = site tx (adr ''user10_normal_start'') (length (code_of user10_normal_text))"
  using assembled_label [OF asm, of "''user10_normal_main''" 35 0]
    assembled_label [OF asm, of "''user10_normal_end''" "length (code_of user10_normal_text)" 0]
  by (simp_all add: user10_normal_text_def del: site.simps)

lemma user10_fault_labels:
  assumes asm: "assembled tx adr (adr ''user10_fault_start'') user10_fault_text"
  shows "adr ''user10_fault_end'' = site tx (adr ''user10_fault_start'') (length (code_of user10_fault_text))"
  using assembled_label [OF asm, of "''user10_fault_end''" "length (code_of user10_fault_text)" 0]
  by (simp add: user10_fault_text_def del: site.simps)

section \<open>What the kernel answers\<close>

definition answer10 :: "uregs \<Rightarrow> reply" where
  "answer10 x =
     (case dispatch_outcome (x 17) (x 10) of
        Sys_Return v \<Rightarrow> Resume v (dispatch_output (x 17) (x 10) @ printed (sint v < 0)
          (''[user error] syscall='' @ fmt_dec (x 17) @ '' arg='' @ fmt_dec (x 10) @ '' result='' @ fmt_int v))
      | Sys_Exit code \<Rightarrow> Finish (Run_Exited code) (dispatch_output (x 17) (x 10)))"

definition lesson10_ready :: "platform \<Rightarrow> utext \<Rightarrow> bool" where
  "lesson10_ready pf tx \<longleftrightarrow> stacks_ok pf \<and> lesson10_text pf tx \<and> \<not> feature pf ''lesson10-kernel-fault''"

lemma lesson10_stage_ready: "lesson10_ready pf tx \<Longrightarrow> lesson10_stage pf (trap_slot pf)"
proof -
  assume r: "lesson10_ready pf tx"
  then have asm: "assembled tx (symbol pf) (symbol pf ''user_api_start'') user_api_text" and ok: "stacks_ok pf"
    and f: "\<not> feature pf ''lesson10-kernel-fault''"
    by (simp_all add: lesson10_ready_def lesson10_text_def)
  have code: "1 < length (code_of user_api_text)" "code_of user_api_text ! 1 = ECALL"
    by (simp_all add: user_api_text_def)
  have "symbol pf ''user_api_start'' < symbol pf ''user_api_end''"
    using ecall_site(1,2) [OF asm code] unfolding user_api_labels [OF asm] by simp
  then show ?thesis
    using f unat_trap_slot(1) [OF ok] stacks_okD(1) [OF ok] by (simp add: lesson10_stage_def)
qed

lemma user_api_site:
  assumes "lesson10_ready pf tx" and k: "k = 1 \<or> k = 4"
  shows "site tx (symbol pf ''user_api_start'') k + 4 = site tx (symbol pf ''user_api_start'') (Suc k)"
    and "reply10 pf (trap_slot pf) rng (8, 0) x (site tx (symbol pf ''user_api_start'') k) = answer10 x"
proof -
  let ?a = "symbol pf ''user_api_start''"
  have asm: "assembled tx (symbol pf) ?a user_api_text" using assms by (simp_all add: lesson10_ready_def lesson10_text_def)
  have code: "k < length (code_of user_api_text)" "code_of user_api_text ! k = ECALL"
    using k by (auto simp: user_api_text_def)
  note at = ecall_site [OF asm code] and labels = user_api_labels [OF asm]
  show "site tx ?a k + 4 = site tx ?a (Suc k)" using at by simp
  have "in_code pf ''user_api_start'' ''user_api_end'' (site tx ?a k)"
    using at by (simp add: in_code_def labels del: site.simps)
  then show "reply10 pf (trap_slot pf) rng (8, 0) x (site tx ?a k) = answer10 x"
    using at lesson10_stage_ready [OF assms(1)] by (simp add: reply10_def answer10_def lesson10_site_def labels del: site.simps append_Cons
        split: SyscallOutcome.split)
qed

text \<open>A program's own system call, below the library.\<close>

lemma own_site:
  assumes ready: "lesson10_ready pf tx" and asm: "assembled tx (symbol pf) a ls"
    and k: "k < length (code_of ls)" "code_of ls ! k = ECALL"
    and below: "site tx a (length (code_of ls)) \<le> symbol pf ''user_api_start''"
  shows "reply10 pf (trap_slot pf) \<lparr>ar_start = a, ar_end = site tx a (length (code_of ls))\<rparr> (8, 0) x (site tx a k) = answer10 x"
proof -
  note at = ecall_site [OF asm k]
  have "\<not> in_code pf ''user_api_start'' ''user_api_end'' (site tx a k)"
    using at(2) below by (auto simp: in_code_def)
  then show ?thesis
    using at lesson10_stage_ready [OF ready]
    by (simp add: reply10_def answer10_def lesson10_site_def AddressRange_contains_def del: append_Cons
        split: SyscallOutcome.split)
qed

lemma numbers10: "fmt_dec (2 :: 64 word) = ''2''" "fmt_dec (256 :: 64 word) = ''256''" "fmt_dec (999 :: 64 word) = ''999''"
  "fmt_dec (0 :: 64 word) = ''0''" "fmt_dec (1 :: 64 word) = ''1''" "fmt_int (- 1 :: 64 word) = ''-1''"
  "fmt_int (- 2 :: 64 word) = ''-2''" "fmt_hex (0 :: 64 word) = ''0x0''"
  by code_simp+

lemma answers10:
  "x 17 = 2 \<Longrightarrow> x 10 = 256 \<Longrightarrow> answer10 x = Resume (- 2) (output_lines [''[user error] syscall=2 arg=256 result=-2''])"
  "x 17 = 999 \<Longrightarrow> x 10 = 0 \<Longrightarrow> answer10 x = Resume (- 1) (output_lines [''[user error] syscall=999 arg=0 result=-1''])"
  "x 17 = 1 \<Longrightarrow> x 10 = 256 \<Longrightarrow> answer10 x = Resume (- 2) (output_lines [''[user error] syscall=1 arg=256 result=-2''])"
  "x 17 = 1 \<Longrightarrow> x 10 \<le> 127 \<Longrightarrow> answer10 x = Resume 0 [ucast (x 10)]"
  "x 17 = 2 \<Longrightarrow> x 10 = 0 \<Longrightarrow> answer10 x = Finish (Run_Exited 0) []"
  "x 17 = 2 \<Longrightarrow> x 10 = 7 \<Longrightarrow> answer10 x = Finish (Run_Exited 7) []"
  by (simp_all add: answer10_def dispatch_outcome_def dispatch_output_def printed_def output_lines_def numbers10)

lemma exit_talks10:
  assumes ready: "lesson10_ready pf tx"
  shows "talks tx (symbol pf) (on_user_stack pf)
    (reply10 pf (trap_slot pf) \<lparr>ar_start = symbol pf ''user09_start'', ar_end = symbol pf ''user09_end''\<rparr>)
    (\<lambda>_. True) (fresh_regs (first_sp pf)) (symbol pf ''user09_start'')
    (output_lines [''[user error] syscall=2 arg=256 result=-2'']) (Some (Run_Exited 7)) 2"
proof -
  let ?a = "symbol pf ''user09_start''" and ?x = "(fresh_regs (first_sp pf))(17 := 2, 10 := 256)"
  let ?y = "(?x(10 := - 2))(5 := - 2, 17 := 2, 10 := 7)"
  have asm: "assembled tx (symbol pf) ?a user09_text"
    and stress: "assembled tx (symbol pf) (symbol pf ''user09_stress_start'') user09_stress_text"
    and below: "symbol pf ''user09_end'' \<le> symbol pf ''user09_stress_start''"
      "symbol pf ''user09_stress_end'' \<le> symbol pf ''user_api_start''"
    and tx9: "lesson09_text pf tx"
    using ready by (simp_all add: lesson10_ready_def lesson10_text_def lesson09_text_def)
  note labels = user09_labels [OF asm] and progs = user09_programs [OF tx9]
  have below': "symbol pf ''user09_end'' \<le> symbol pf ''user_api_start''" using below progs by simp
  have code: "2 < length (code_of user09_text)" "code_of user09_text ! 2 = ECALL"
    "7 < length (code_of user09_text)" "code_of user09_text ! 7 = ECALL" by (simp_all add: user09_text_def)
  note site2 = own_site [OF ready asm code(1,2), folded labels(4), OF below']
    and site7 = own_site [OF ready asm code(3,4), folded labels(4), OF below']
  have first: "reply10 pf (trap_slot pf) \<lparr>ar_start = ?a, ar_end = symbol pf ''user09_end''\<rparr> (8, 0) ?x (site tx ?a 2)
      = Resume (- 2) (output_lines [''[user error] syscall=2 arg=256 result=-2''])"
    unfolding site2 by (rule answers10) (simp_all add: fresh_regs_def)
  have second: "reply10 pf (trap_slot pf) \<lparr>ar_start = ?a, ar_end = symbol pf ''user09_end''\<rparr> (8, 0) ?y (site tx ?a 7)
      = Finish (Run_Exited 7) []"
    unfolding site7 by (rule answers10) simp_all
  have pause: "pauses tx (symbol pf) (on_user_stack pf) (\<lambda>_. True) (?x(10 := - 2)) (site tx ?a 2 + 4) (8, 0)
      ?y (site tx ?a 7) (\<lambda>_. True)"
    using user09_second [OF asm, of "?x(10 := - 2)"] ecall_site(4) [OF asm code(1,2)]
    by (simp add: eval_nat_numeral del: site.simps)
  have "talks tx (symbol pf) (on_user_stack pf)
      (reply10 pf (trap_slot pf) \<lparr>ar_start = ?a, ar_end = symbol pf ''user09_end''\<rparr>) (\<lambda>_. True)
      (fresh_regs (first_sp pf)) (site tx ?a 0)
      (output_lines [''[user error] syscall=2 arg=256 result=-2''] @ []) (Some (Run_Exited 7)) (Suc (Suc 0))"
    by (rule talks.resume, rule user09_first [OF asm], rule private_True, rule first,
        rule talks.finish, rule pause, rule second)
  then show ?thesis by (simp add: numeral_2_eq_2)
qed

lemma stress_talks10:
  assumes ready: "lesson10_ready pf tx"
  shows "talks tx (symbol pf) (on_user_stack pf)
    (reply10 pf (trap_slot pf) \<lparr>ar_start = symbol pf ''user09_stress_start'', ar_end = symbol pf ''user09_stress_end''\<rparr>)
    (\<lambda>_. True) (fresh_regs (first_sp pf)) (symbol pf ''user09_stress_start'') [] (Some (Run_Exited 0)) (Suc 0)"
proof -
  let ?a = "symbol pf ''user09_stress_start''"
  have asm: "assembled tx (symbol pf) ?a user09_stress_text"
    and below: "symbol pf ''user09_stress_end'' \<le> symbol pf ''user_api_start''"
    using ready by (simp_all add: lesson10_ready_def lesson10_text_def lesson09_text_def)
  note labels = user09_stress_labels [OF asm]
  have code: "2 < length (code_of user09_stress_text)" "code_of user09_stress_text ! 2 = ECALL"
    by (simp_all add: user09_stress_text_def)
  note site2 = own_site [OF ready asm code, folded labels(3), OF below]
  have reply: "reply10 pf (trap_slot pf) \<lparr>ar_start = ?a, ar_end = symbol pf ''user09_stress_end''\<rparr> (8, 0)
      ((fresh_regs (first_sp pf))(17 := 2, 10 := 0)) (site tx ?a 2) = Finish (Run_Exited 0) []"
    unfolding site2 by (rule answers10) simp_all
  have "talks tx (symbol pf) (on_user_stack pf)
      (reply10 pf (trap_slot pf) \<lparr>ar_start = ?a, ar_end = symbol pf ''user09_stress_end''\<rparr>)
      (\<lambda>_. True) (fresh_regs (first_sp pf)) (site tx ?a 0) [] (Some (Run_Exited 0)) (Suc 0)"
    by (rule talks.finish, rule user09_stress_pause [OF asm], rule reply)
  then show ?thesis by simp
qed

lemma fault_talks10:
  assumes ready: "lesson10_ready pf tx"
  shows "talks tx (symbol pf) (on_user_stack pf)
    (reply10 pf (trap_slot pf) \<lparr>ar_start = symbol pf ''user10_fault_start'', ar_end = symbol pf ''user10_fault_end''\<rparr>)
    (\<lambda>_. True) (fresh_regs (first_sp pf)) (symbol pf ''user10_fault_start'') []
    (Some (Run_Faulted 2 (symbol pf ''user10_fault_start'') 0)) (Suc 0)"
proof -
  let ?a = "symbol pf ''user10_fault_start''"
  have asm: "assembled tx (symbol pf) ?a user10_fault_text"
    and below: "symbol pf ''user10_fault_end'' \<le> symbol pf ''user_api_start''"
    using ready by (simp_all add: lesson10_ready_def lesson10_text_def)
  have "0 < length (code_of user10_fault_text)" by (simp add: user10_fault_text_def)
  then have "site tx ?a 0 < site tx ?a (length (code_of user10_fault_text))"
    using assembled_increasing [OF asm] by blast
  then have at: "?a < symbol pf ''user10_fault_end''" unfolding user10_fault_labels [OF asm] by simp
  then have reply: "reply10 pf (trap_slot pf) \<lparr>ar_start = ?a, ar_end = symbol pf ''user10_fault_end''\<rparr> (2, 0)
      (fresh_regs (first_sp pf)) ?a = Finish (Run_Faulted 2 ?a 0) []"
    using below lesson10_stage_ready [OF ready]
    by (auto simp: reply10_def lesson10_site_def in_code_def AddressRange_contains_def)
  have "pauses tx (symbol pf) (on_user_stack pf) (\<lambda>_. True) (fresh_regs (first_sp pf)) (site tx ?a 0) (2, 0)
      (fresh_regs (first_sp pf)) (site tx ?a 0) (\<lambda>_. True)"
    by (rule pausesI) (simp_all add: urun_site [OF asm] user10_fault_text_def usteps del: site.simps)
  from talks.finish [OF this] reply show ?thesis by simp
qed

section \<open>The program that prints\<close>

text \<open>
  Its register file while \<^verbatim>\<open>user10_normal_main\<close> runs, and the return address the function
  has saved on its stack.
\<close>

definition keeps10 :: "platform \<Rightarrow> uregs \<Rightarrow> bool" where
  "keeps10 pf x \<longleftrightarrow> hart_regs x \<and> x 2 = first_sp pf - 16"

abbreviation saved10 :: "platform \<Rightarrow> utext \<Rightarrow> memory \<Rightarrow> bool" where
  "saved10 pf tx \<equiv> word_at (first_sp pf - 8) (site tx (symbol pf ''user10_normal_start'') 1)"

text \<open>A stretch of the listing that prints the characters \<open>cs\<close> through the library.\<close>

fun prints :: "usize list \<Rightarrow> uinstr list" where
  "prints [] = []"
| "prints (c # cs) = LOADI r_a0 c # CALL ''user_api_putchar'' # prints cs"

lemma length_prints [simp]: "length (prints cs) = 2 * length cs"
  by (induction cs) simp_all

definition after_fault :: "usize list" where
  "after_fault = [79, 75, 10, 65, 70, 84, 69, 82, 95, 70, 65, 85, 76, 84, 95, 79, 75, 10]"

lemma user10_prints: "take 36 (drop 46 (code_of user10_normal_text)) = prints after_fault"
  by (simp add: user10_normal_text_def after_fault_def)

lemma prints_nth:
  assumes "take (2 * length cs) (drop k code) = prints cs" and "cs = c # cs'"
    and "k + 2 * length cs \<le> length code"
  shows "code ! k = LOADI r_a0 c" "code ! Suc k = CALL ''user_api_putchar''"
    "take (2 * length cs') (drop (Suc (Suc k)) code) = prints cs'"
proof -
  have "drop k code = code ! k # code ! Suc k # drop (Suc (Suc k)) code"
    using assms(2,3) by (simp add: Cons_nth_drop_Suc)
  with assms(1,2) show "code ! k = LOADI r_a0 c" "code ! Suc k = CALL ''user_api_putchar''"
    "take (2 * length cs') (drop (Suc (Suc k)) code) = prints cs'" by simp_all
qed


definition normal_range :: "platform \<Rightarrow> AddressRange" where
  "normal_range pf = \<lparr>ar_start = symbol pf ''user10_normal_start'', ar_end = symbol pf ''user10_normal_end''\<rparr>"

abbreviation normal_talks :: "platform \<Rightarrow> utext \<Rightarrow> (memory \<Rightarrow> bool) \<Rightarrow> uregs \<Rightarrow> usize \<Rightarrow> u8 list
    \<Rightarrow> RunOutcome option \<Rightarrow> nat \<Rightarrow> bool" where
  "normal_talks pf tx \<equiv> talks tx (symbol pf) (on_user_stack pf) (reply10 pf (trap_slot pf) (normal_range pf))"

text \<open>From \<open>pc\<close> with registers \<open>x\<close> the hart gets to the \<open>k\<close>-th instruction with registers \<open>y\<close>.\<close>

definition reaches :: "platform \<Rightarrow> utext \<Rightarrow> (memory \<Rightarrow> bool) \<Rightarrow> uregs \<Rightarrow> usize \<Rightarrow> uregs \<Rightarrow> nat \<Rightarrow> bool" where
  "reaches pf tx P x pc y k \<longleftrightarrow> (\<forall>m. P m \<longrightarrow>
     urun tx (symbol pf) x pc m = urun tx (symbol pf) y (site tx (symbol pf ''user10_normal_start'') k) m)"

lemma api_return:
  assumes "lesson10_ready pf tx" and "hart_regs x" and "x 1 = site tx (symbol pf ''user10_normal_start'') k"
  shows "reaches pf tx P x (site tx (symbol pf ''user_api_start'') 2) x k"
proof -
  have asm: "assembled tx (symbol pf) (symbol pf ''user_api_start'') user_api_text"
    using assms by (simp add: lesson10_ready_def lesson10_text_def)
  show ?thesis
    using assms by (simp add: reaches_def urun_site [OF asm] user_api_text_def usteps hart_regs_def del: site.simps)
qed

lemma putchar_pause:
  assumes ready: "lesson10_ready pf tx" and y: "hart_regs y" and at: "reaches pf tx P x pc y k"
    and code: "code_of user10_normal_text ! k = LOADI r_a0 c" "code_of user10_normal_text ! Suc k = CALL ''user_api_putchar''"
      "Suc k < length (code_of user10_normal_text)"
  shows "pauses tx (symbol pf) own P x pc (8, 0)
    (y(10 := c, 1 := site tx (symbol pf ''user10_normal_start'') (Suc (Suc k)), 17 := 1))
    (site tx (symbol pf ''user_api_start'') 1) P"
proof (rule pauses_keep)
  let ?a = "symbol pf ''user10_normal_start''" and ?b = "symbol pf ''user_api_start''"
  have asm: "assembled tx (symbol pf) ?a user10_normal_text" "assembled tx (symbol pf) ?b user_api_text"
    using ready by (simp_all add: lesson10_ready_def lesson10_text_def)
  show "hart_regs (y(10 := c, 1 := site tx ?a (Suc (Suc k)), 17 := 1))"
    using y by (simp add: hart_regs_def del: site.simps)
  have lib: "urun tx (symbol pf) z (site tx ?b 0) m = Some ((8, 0), z(17 := 1), site tx ?b 1, m)" for z m
    by (simp add: urun_site [OF asm(2)] user_api_text_def usteps del: site.simps)
  have own: "urun tx (symbol pf) y (site tx ?a k) m
      = urun tx (symbol pf) (y(10 := c, 1 := site tx ?a (Suc (Suc k)))) (site tx ?b 0) m" for m
    using code by (simp add: urun_site [OF asm(1)] usteps user_api_labels [OF asm(2)] del: site.simps)
  fix m assume "P m"
  then show "urun tx (symbol pf) x pc m
      = Some ((8, 0), y(10 := c, 1 := site tx ?a (Suc (Suc k)), 17 := 1), site tx ?b 1, m)"
    using at by (simp add: reaches_def own lib del: site.simps)
qed

lemma prints_talks:
  assumes ready: "lesson10_ready pf tx" and priv: "private_to (on_user_stack pf) P"
    and rest: "\<And>x pc y. keeps10 pf y \<Longrightarrow> reaches pf tx P x pc y (k + 2 * length cs) \<Longrightarrow>
      normal_talks pf tx P x pc outs verdict n"
  shows "keeps10 pf y \<Longrightarrow> reaches pf tx P x pc y k \<Longrightarrow> \<forall>c\<in>set cs. c \<le> 127 \<Longrightarrow>
    take (2 * length cs) (drop k (code_of user10_normal_text)) = prints cs \<Longrightarrow>
    k + 2 * length cs \<le> length (code_of user10_normal_text) \<Longrightarrow>
    normal_talks pf tx P x pc (map ucast cs @ outs) verdict (length cs + n)"
  using rest
proof (induction cs arbitrary: k x pc y)
  case Nil
  then show ?case by simp
next
  case (Cons c cs)
  let ?a = "symbol pf ''user10_normal_start''" and ?b = "symbol pf ''user_api_start''"
  let ?x = "y(10 := c, 1 := site tx ?a (Suc (Suc k)), 17 := 1)"
  note nth = prints_nth [OF Cons.prems(4) refl Cons.prems(5)]
  have k: "Suc k < length (code_of user10_normal_text)" using Cons.prems(5) by simp
  have x: "hart_regs y" "keeps10 pf (?x(10 := 0))" using Cons.prems(1) by (simp_all add: keeps10_def hart_regs_def del: site.simps)
  have next_at: "reaches pf tx P (?x(10 := 0)) (site tx ?b 2) (?x(10 := 0)) (Suc (Suc k))"
    using x by (intro api_return [OF ready]) (simp_all add: keeps10_def del: site.simps)
  have "normal_talks pf tx P (?x(10 := 0)) (site tx ?b 2) (map ucast cs @ outs) verdict (length cs + n)"
    by (rule Cons.IH [OF x(2) next_at]) (use Cons.prems nth(3) in \<open>simp_all del: site.simps\<close>)
  then have cont: "normal_talks pf tx P (?x(10 := 0)) (site tx ?b 1 + 4) (map ucast cs @ outs) verdict (length cs + n)"
    using user_api_site(1) [OF ready, of 1] by (simp add: numeral_2_eq_2 del: site.simps)
  have reply: "reply10 pf (trap_slot pf) (normal_range pf) (8, 0) ?x (site tx ?b 1) = Resume 0 [ucast c]"
    using Cons.prems(3) by (subst user_api_site(2) [OF ready]) (simp_all add: answers10 del: site.simps)
  have "normal_talks pf tx P x pc ([ucast c] @ map ucast cs @ outs) verdict (Suc (length cs + n))"
    by (rule talks.resume [OF putchar_pause [OF ready x(1) Cons.prems(2) nth(1,2) k] priv reply cont])
  then show ?case by simp
qed

lemma user10_first:
  assumes ready: "lesson10_ready pf tx"
  shows "pauses tx (symbol pf) (on_user_stack pf) (\<lambda>_. True) (fresh_regs (first_sp pf))
    (site tx (symbol pf ''user10_normal_start'') 0) (8, 0)
    ((fresh_regs (first_sp pf))(1 := site tx (symbol pf ''user10_normal_start'') 1, 2 := first_sp pf - 16, 17 := 999, 10 := 0))
    (site tx (symbol pf ''user10_normal_start'') 39) (saved10 pf tx)"
proof -
  let ?a = "symbol pf ''user10_normal_start''"
  let ?x = "(fresh_regs (first_sp pf))(1 := site tx ?a 1, 2 := first_sp pf - 16, 17 := 999, 10 := 0)"
  let ?m = "\<lambda>m. store64 m (first_sp pf - 8) (site tx ?a 1)"
  have asm: "assembled tx (symbol pf) ?a user10_normal_text" and ok: "stacks_ok pf"
    using ready by (simp_all add: lesson10_ready_def lesson10_text_def)
  have sp: "aligned8 (first_sp pf - 8)" "first_sp pf - 16 + 8 = first_sp pf - 8"
    "\<And>i. i < 8 \<Longrightarrow> on_user_stack pf (first_sp pf - 8 + of_nat i)"
    using first_sp_words [OF ok, of 8] by simp_all
  have "hart_regs ?x" by (simp add: hart_regs_def fresh_regs_def del: site.simps)
  moreover have "urun tx (symbol pf) (fresh_regs (first_sp pf)) (site tx ?a 0) m = Some ((8, 0), ?x, site tx ?a 39, ?m m)" for m
    using sp by (simp add: urun_site [OF asm] user10_labels [OF asm] user10_normal_text_def usteps fresh_regs_def fun_upd_twist del: site.simps)
  moreover have "saved10 pf tx (?m m)" for m by (simp add: word_at_def)
  moreover have "?m m b = m b" if "\<not> on_user_stack pf b" for m b using sp(3) that by (rule store64_inside)
  ultimately show ?thesis unfolding pauses_def by blast
qed

lemma user10_second:
  assumes ready: "lesson10_ready pf tx" and x: "keeps10 pf x" "x 10 = - 1"
  shows "pauses tx (symbol pf) own P x (site tx (symbol pf ''user10_normal_start'') 40) (8, 0)
    (x(5 := - 1, 10 := 256, 1 := site tx (symbol pf ''user10_normal_start'') 44, 17 := 1))
    (site tx (symbol pf ''user_api_start'') 1) P"
proof -
  let ?a = "symbol pf ''user10_normal_start''"
  have asm: "assembled tx (symbol pf) ?a user10_normal_text"
    using ready by (simp add: lesson10_ready_def lesson10_text_def)
  have at: "reaches pf tx P x (site tx ?a 40) (x(5 := - 1)) 42"
    using x by (simp add: reaches_def urun_site [OF asm] user10_normal_text_def usteps keeps10_def hart_regs_def del: site.simps)
  have y: "hart_regs (x(5 := - 1))" using x by (simp add: keeps10_def hart_regs_def)
  have code: "code_of user10_normal_text ! 42 = LOADI r_a0 256"
    "code_of user10_normal_text ! Suc 42 = CALL ''user_api_putchar''" "Suc 42 < length (code_of user10_normal_text)"
    by (simp_all add: user10_normal_text_def)
  from putchar_pause [OF ready y at code] show ?thesis by (simp add: eval_nat_numeral del: site.simps)
qed

lemma user10_last:
  assumes ready: "lesson10_ready pf tx" and y: "keeps10 pf y" and at: "reaches pf tx (saved10 pf tx) x pc y 82"
  shows "normal_talks pf tx (saved10 pf tx) x pc [] (Some (Run_Exited 0)) 1"
proof -
  let ?a = "symbol pf ''user10_normal_start''" and ?b = "symbol pf ''user_api_start''"
  let ?y = "y(10 := 0, 1 := site tx ?a 2, 2 := first_sp pf, 17 := 2)"
  have asm: "assembled tx (symbol pf) ?a user10_normal_text" "assembled tx (symbol pf) ?b user_api_text" and ok: "stacks_ok pf"
    using ready by (simp_all add: lesson10_ready_def lesson10_text_def)
  have sp: "aligned8 (first_sp pf - 8)" "first_sp pf - 16 + 8 = first_sp pf - 8"
    using first_sp_words [OF ok, of 8] by simp_all
  have lib: "urun tx (symbol pf) z (site tx ?b 3) m = Some ((8, 0), z(17 := 2), site tx ?b 4, m)" for z m
    by (simp add: urun_site [OF asm(2)] user_api_text_def usteps del: site.simps)
  have "pauses tx (symbol pf) (on_user_stack pf) (saved10 pf tx) x pc (8, 0) ?y (site tx ?b 4) (saved10 pf tx)"
  proof (rule pauses_keep)
    show "hart_regs ?y" using y by (simp add: keeps10_def hart_regs_def del: site.simps)
    fix m assume m: "saved10 pf tx m"
    have "urun tx (symbol pf) y (site tx ?a 82) m = urun tx (symbol pf) (y(10 := 0, 1 := site tx ?a 2, 2 := first_sp pf)) (site tx ?b 3) m"
      using y sp m
      by (simp add: urun_site [OF asm(1)] user_api_labels [OF asm(2)] user10_normal_text_def usteps keeps10_def
          hart_regs_def word_at_def fun_upd_twist del: site.simps)
    then show "urun tx (symbol pf) x pc m = Some ((8, 0), ?y, site tx ?b 4, m)"
      using at m by (simp add: reaches_def lib del: site.simps)
  qed
  moreover have "reply10 pf (trap_slot pf) (normal_range pf) (8, 0) ?y (site tx ?b 4) = Finish (Run_Exited 0) []"
    by (subst user_api_site(2) [OF ready]) (simp_all add: answers10 del: site.simps)
  ultimately show ?thesis unfolding One_nat_def by (rule talks.finish)
qed

lemma normal_talks10:
  assumes ready: "lesson10_ready pf tx"
  shows "normal_talks pf tx (\<lambda>_. True) (fresh_regs (first_sp pf)) (symbol pf ''user10_normal_start'')
    (output_lines [''[user error] syscall=999 arg=0 result=-1'', ''[user error] syscall=1 arg=256 result=-2'',
       ''OK'', ''AFTER_FAULT_OK'']) (Some (Run_Exited 0)) 21"
proof -
  let ?a = "symbol pf ''user10_normal_start''" and ?b = "symbol pf ''user_api_start''" and ?P = "saved10 pf tx"
  let ?x = "(fresh_regs (first_sp pf))(1 := site tx ?a 1, 2 := first_sp pf - 16, 17 := 999, 10 := 0)"
  let ?y = "(?x(10 := - 1))(5 := - 1, 10 := 256, 1 := site tx ?a 44, 17 := 1)"
  let ?z = "?y(10 := - 2)"
  have asm: "assembled tx (symbol pf) ?a user10_normal_text" and ok: "stacks_ok pf"
    and below: "symbol pf ''user10_normal_end'' \<le> ?b"
    using ready by (simp_all add: lesson10_ready_def lesson10_text_def)
  have priv: "private_to (on_user_stack pf) ?P"
    by (rule private_word) (rule first_sp_words(2) [OF ok], simp_all)
  have keep: "keeps10 pf (?x(10 := - 1))" "keeps10 pf ?z" "keeps10 pf (?z(5 := - 2))"
    by (simp_all add: keeps10_def hart_regs_def fresh_regs_def del: site.simps)
  have lib: "reaches pf tx ?P ?z (site tx ?b 2) ?z 44"
    using keep(2) by (intro api_return [OF ready]) (simp_all add: keeps10_def del: site.simps)
  then have at: "reaches pf tx ?P ?z (site tx ?b 2) (?z(5 := - 2)) 46"
    by (simp add: reaches_def urun_site [OF asm] user10_normal_text_def usteps del: site.simps)
  have printing: "normal_talks pf tx ?P ?z (site tx ?b 2) (map ucast after_fault @ []) (Some (Run_Exited 0))
      (length after_fault + 1)"
  proof (rule prints_talks [OF ready priv _ keep(3) at])
    show "normal_talks pf tx ?P x pc [] (Some (Run_Exited 0)) 1"
      if "keeps10 pf y" "reaches pf tx ?P x pc y (46 + 2 * length after_fault)" for x pc y
      using user10_last [OF ready that(1)] that(2) by (simp add: after_fault_def)
  qed (use user10_prints in \<open>simp_all add: after_fault_def\<close>, simp add: user10_normal_text_def)
  note labels = user10_labels [OF asm]
  have code: "39 < length (code_of user10_normal_text)" "code_of user10_normal_text ! 39 = ECALL"
    by (simp_all add: user10_normal_text_def)
  have reply: "reply10 pf (trap_slot pf) (normal_range pf) (8, 0) ?x (site tx ?a 39)
      = Resume (- 1) (output_lines [''[user error] syscall=999 arg=0 result=-1''])"
    unfolding normal_range_def labels(2)
    by (subst own_site [OF ready asm code below [unfolded labels(2)]]) (simp add: answers10 del: site.simps)
  have reply': "reply10 pf (trap_slot pf) (normal_range pf) (8, 0) ?y (site tx ?b 1)
      = Resume (- 2) (output_lines [''[user error] syscall=1 arg=256 result=-2''])"
    by (subst user_api_site(2) [OF ready]) (simp_all add: answers10 del: site.simps)
  have next': "site tx ?a 39 + 4 = site tx ?a 40" "site tx ?b 1 + 4 = site tx ?b 2"
    using ecall_site(4) [OF asm code] user_api_site(1) [OF ready, of 1]
    by (simp_all add: numeral_2_eq_2 [symmetric] del: site.simps)
  have second: "normal_talks pf tx ?P (?x(10 := - 1)) (site tx ?a 39 + 4)
      (output_lines [''[user error] syscall=1 arg=256 result=-2''] @ map ucast after_fault @ [])
      (Some (Run_Exited 0)) (Suc (length after_fault + 1))"
    unfolding next'(1)
    by (rule talks.resume [OF user10_second [OF ready keep(1)] priv reply' printing [folded next'(2)]]) simp
  have "normal_talks pf tx (\<lambda>_. True) (fresh_regs (first_sp pf)) (site tx ?a 0)
      (output_lines [''[user error] syscall=999 arg=0 result=-1''] @
       output_lines [''[user error] syscall=1 arg=256 result=-2''] @ map ucast after_fault @ [])
      (Some (Run_Exited 0)) (Suc (Suc (length after_fault + 1)))"
    by (rule talks.resume [OF user10_first [OF ready] priv reply second])
  moreover have "map ucast after_fault = output_lines [''OK'', ''AFTER_FAULT_OK'']"
    by (simp add: after_fault_def output_lines_def as_bytes_def)
  moreover have "Suc (Suc (length after_fault + 1)) = 21" by (simp add: after_fault_def)
  moreover have "output_lines [l] @ output_lines [l'] @ output_lines ls @ [] = output_lines (l # l' # ls)" for l l' ls
    by (simp add: output_lines_def)
  ultimately show ?thesis by (simp only: site.simps(1))
qed

end
