(* ===== verification/Lesson10_Run.thy ===== *)
theory Lesson10_Run
  imports Lesson10_Talk
begin

unbundle bit_operations_syntax

text \<open>
  Lesson 10 from \<^verbatim>\<open>run_lesson10\<close> to its last line: a process that exits, one that faults,
  one that runs after the fault, and a hundred more.
\<close>

section \<open>One process of the batch\<close>

lemma managing_active [simp]: "managing pf sp out (s\<lparr>active := a\<rparr>) = managing pf sp out s"
  by (simp add: managing_def)

lemma wp_run_user10:
  assumes image: "user_image_ok pf tx"
    and talk: "talks tx (symbol pf) (on_user_stack pf) (reply10 pf (trap_slot pf) (act_code (active s))) (\<lambda>_. True)
      (fresh_regs (first_sp pf)) (pr_entry program) added (Some res) n"
    and fuel: "n \<le> fuel" and s: "managing pf sp out s"
    and Q: "\<And>s'. managing pf sp (out @ added) s' \<Longrightarrow> act_outcome (active s') = Some res \<Longrightarrow> Q 1 s'"
  shows "wp (run_process fuel pf (on_frame (lesson10_handle pf))
      (prepared pid program (user_stack_of pf) (trap_stack_of pf) sst)) Q H s"
  by (rule lesson10.wp_run_process [OF image refl refl talk fuel s])
    (rule Q, simp_all add: settle10_def)

definition outcome_line :: "u64 \<Rightarrow> string \<Rightarrow> RunOutcome \<Rightarrow> string list" where
  "outcome_line pid name res = (case res of
     Run_Exited _ \<Rightarrow> []
   | Run_Faulted cause sepc stval \<Rightarrow>
       [''[user fault] pid='' @ fmt_dec pid @ '' program='' @ name @ '' cause='' @ fmt_dec cause
         @ '' sepc='' @ fmt_hex sepc @ '' stval='' @ fmt_hex stval])"

lemma wp_run_one:
  assumes image: "user_image_ok pf tx"
    and talk: "talks tx (symbol pf) (on_user_stack pf)
      (reply10 pf (trap_slot pf) \<lparr>ar_start = start, ar_end = end'\<rparr>) (\<lambda>_. True)
      (fresh_regs (first_sp pf)) start added (Some res) n"
    and fuel: "n \<le> fuel" and s: "managing pf sp out s" and code: "start < end'" "start AND 1 = 0"
    and Q: "\<And>s'. managing pf sp (out @ added @ output_lines (outcome_line pid name res)) s' \<Longrightarrow> Q res s'"
  shows "wp (run_one fuel pf (on_frame (lesson10_handle pf)) pid name start end') Q H s"
proof -
  have ok: "stacks_ok pf" using image by (simp add: user_image_ok_def)
  have sp: "regs t 2 = sp" "csrs t Sie = 0" if "managing pf sp out t" for out t using that by (simp_all add: managing_def)
  let ?program = "\<lparr>pr_name = name, pr_entry = start, pr_code_start = start, pr_code_end = end'\<rparr>"
  have settled: "wp (case res of
         Run_Exited code \<Rightarrow> finish_exit (prepared pid ?program us ts sst) code
       | Run_Faulted cause sepc stval \<Rightarrow>
           kbind (finish_fault (prepared pid ?program us ts sst) \<lparr>fi_cause = cause, fi_sepc = sepc, fi_stval = stval\<rparr>) (\<lambda>process.
           kthen (println (''[user fault] pid='' @ fmt_dec pid @ '' program='' @ name @ '' cause=''
             @ fmt_dec cause @ '' sepc='' @ fmt_hex sepc @ '' stval='' @ fmt_hex stval))
           (kret process)))
      (\<lambda>process. wp (kthen (kassert (pc_state process \<noteq> Ready \<and> pc_state process \<noteq> Running) msg)
          (kthen (clear_runtime_stacks pf (user_stack_of pf) (trap_stack_of pf)) (kret res))) Q H) H t"
    if t: "managing pf sp (out @ added) t" for t us ts sst msg
  proof -
    let ?t = "t\<lparr>uart := uart t @ output_lines (outcome_line pid name res)\<rparr>"
    have after: "wp (clear_runtime_stacks pf (user_stack_of pf) (trap_stack_of pf)) (\<lambda>_. wp (kret res) Q H) H ?t"
      by (rule wp_clear_stacks [OF ok managing_uart [OF t]]) (simp only: wps, rule Q, simp)
    then show ?thesis
      by (cases res) (simp_all add: wps finish_exit_def finish_fault_def prepared_def outcome_line_def
          output_lines_Cons del: append_Cons)
  qed
  show ?thesis
    unfolding run_one_def
    apply (simp add: wps wp_stack_ranges [OF ok] code del: append_Cons)
    apply (rule wp_clear_stacks [OF ok s])
    apply (simp add: wps wp_prepare_image [OF ok] sp [OF s] code read_sp_def code_range_def del: append_Cons)
    apply (rule wp_run_user10 [OF image _ fuel, where added = added and res = res and sp = sp and out = out])
      apply (simp add: talk)
     apply simp
    apply (simp add: wps ACTION_TERMINATE_PROCESS_def take_outcome_def sp [OF s] sp settled del: append_Cons)
    done
qed

section \<open>The hundred runs\<close>

lemma wp_arith_add: "unat a + unat b < 2 ^ 64 \<Longrightarrow> wp (arith_add c a b) Q H s = Q (a + b) s"
  by (simp add: wp_def arith_add_run)

lemma lesson10_stress_ok:
  assumes image: "user_image_ok pf tx" and ready: "lesson10_ready pf tx" and fuel: "0 < fuel"
    and code: "symbol pf ''user09_stress_start'' < symbol pf ''user09_stress_end''"
      "symbol pf ''user09_stress_start'' AND 1 = 0"
  shows "managing pf sp out s \<Longrightarrow> unat first_pid + 3 + n \<le> 2 ^ 64 \<Longrightarrow>
    (\<And>s'. managing pf sp out s' \<Longrightarrow> Q () s') \<Longrightarrow>
    wp (lesson10_stress fuel pf (on_frame (lesson10_handle pf)) first_pid (symbol pf ''user09_stress_start'')
      (symbol pf ''user09_stress_end'') [m..<n]) Q H s"
proof (induction "n - m" arbitrary: m s)
  case 0
  then show ?case by (simp add: wps)
next
  case (Suc k)
  then have m: "m < n" by simp
  have u: "unat (first_pid + 3) = unat first_pid + 3" "unat (of_nat m :: u64) = m"
    using Suc.prems(2) m by (simp_all add: unat_add_no_overflow unat_of_nat take_bit_eq_mod)
  have pids: "wp (arith_add c first_pid 3) Q' H t = Q' (first_pid + 3) t"
    "wp (arith_add c (first_pid + 3) (of_nat m)) Q' H t = Q' (first_pid + 3 + of_nat m) t" for c Q' and t :: machine
    using Suc.prems(2) m u by (simp_all add: wp_arith_add)
  have rest: "wp (lesson10_stress fuel pf (on_frame (lesson10_handle pf)) first_pid (symbol pf ''user09_stress_start'')
      (symbol pf ''user09_stress_end'') [Suc m..<n]) Q H t" if "managing pf sp out t" for t
    by (rule Suc.hyps(1)) (use Suc that in simp_all)
  have "wp (run_one fuel pf (on_frame (lesson10_handle pf)) pid ''stress'' (symbol pf ''user09_stress_start'')
      (symbol pf ''user09_stress_end'')) (\<lambda>outcome. wp (kthen (kassert (outcome = Run_Exited 0) msg)
        (lesson10_stress fuel pf (on_frame (lesson10_handle pf)) first_pid (symbol pf ''user09_stress_start'')
          (symbol pf ''user09_stress_end'') [Suc m..<n])) Q H) H s" for pid msg
    by (rule wp_run_one [OF image stress_talks10 [OF ready] _ Suc.prems(1) code])
      (use fuel rest in \<open>simp_all add: outcome_line_def output_lines_Cons wps\<close>)
  then show ?case using m by (simp add: upt_conv_Cons wps pids)
qed

section \<open>The lesson\<close>

definition lesson10_lines :: "platform \<Rightarrow> u64 \<Rightarrow> string list" where
  "lesson10_lines pf pid =
     [''[user error] syscall=2 arg=256 result=-2'',
      ''[user batch] Exited(7)'',
      ''[user fault] pid='' @ fmt_dec (pid + 1) @ '' program=illegal cause=2 sepc=''
        @ fmt_hex (symbol pf ''user10_fault_start'') @ '' stval=0x0'',
      ''[user error] syscall=999 arg=0 result=-1'',
      ''[user error] syscall=1 arg=256 result=-2'',
      ''OK'',
      ''AFTER_FAULT_OK'',
      ''[user batch] completed=100 stack_stable=true'',
      ''[user batch] stage-complete'']"

lemma lesson10_programs:
  assumes "lesson10_ready pf tx"
  shows "symbol pf ''user09_start'' < symbol pf ''user09_end''" "symbol pf ''user09_start'' AND 1 = 0"
    "symbol pf ''user09_stress_start'' < symbol pf ''user09_stress_end''" "symbol pf ''user09_stress_start'' AND 1 = 0"
    "symbol pf ''user10_fault_start'' < symbol pf ''user10_fault_end''" "symbol pf ''user10_fault_start'' AND 1 = 0"
    "symbol pf ''user10_normal_start'' < symbol pf ''user10_normal_end''" "symbol pf ''user10_normal_start'' AND 1 = 0"
proof -
  have tx: "lesson09_text pf tx" and asm: "assembled tx (symbol pf) (symbol pf ''user10_fault_start'') user10_fault_text"
      "assembled tx (symbol pf) (symbol pf ''user10_normal_start'') user10_normal_text"
    and even: "symbol pf ''user09_start'' AND 1 = 0" "symbol pf ''user09_stress_start'' AND 1 = 0"
      "symbol pf ''user10_fault_start'' AND 1 = 0" "symbol pf ''user10_normal_start'' AND 1 = 0"
    using assms by (simp_all add: lesson10_ready_def lesson10_text_def lesson09_text_def)
  have "0 < length (code_of user10_fault_text)" "0 < length (code_of user10_normal_text)"
    by (simp_all add: user10_fault_text_def user10_normal_text_def)
  then have "site tx (symbol pf ''user10_fault_start'') 0 < site tx (symbol pf ''user10_fault_start'') (length (code_of user10_fault_text))"
    "site tx (symbol pf ''user10_normal_start'') 0 < site tx (symbol pf ''user10_normal_start'') (length (code_of user10_normal_text))"
    using assembled_increasing [OF asm(1)] assembled_increasing [OF asm(2)] by blast+
  then show "symbol pf ''user10_fault_start'' < symbol pf ''user10_fault_end''"
    "symbol pf ''user10_normal_start'' < symbol pf ''user10_normal_end''"
    unfolding user10_fault_labels [OF asm(1)] user10_labels [OF asm(2)] by simp_all
  show "symbol pf ''user09_start'' < symbol pf ''user09_end''" "symbol pf ''user09_stress_start'' < symbol pf ''user09_stress_end''"
    using user09_programs [OF tx] by simp_all
  show "symbol pf ''user09_start'' AND 1 = 0" "symbol pf ''user09_stress_start'' AND 1 = 0"
    "symbol pf ''user10_fault_start'' AND 1 = 0" "symbol pf ''user10_normal_start'' AND 1 = 0"
    using even by simp_all
qed

lemma lesson10_wp:
  assumes image: "user_image_ok pf tx" and ready: "lesson10_ready pf tx" and fuel: "21 \<le> fuel"
    and s: "managing pf sp out (s\<lparr>expected_trap_frame := 0\<rparr>)" and pid: "unat pid + 103 \<le> 2 ^ 64"
  shows "wp (run_lesson10 fuel pf (on_frame (lesson10_handle pf)) pid) (\<lambda>_ _. False)
    (\<lambda>s'. uart s' = out @ output_lines (lesson10_lines pf pid)) s"
proof -
  note code = lesson10_programs [OF ready]
  have pids: "wp (arith_add c pid 1) Q H t = Q (pid + 1) t" "wp (arith_add c pid 2) Q H t = Q (pid + 2) t"
    for c Q H and t :: machine using pid by (simp_all add: wp_arith_add)
  show ?thesis
    unfolding run_lesson10_def
    apply (simp add: wps user09_code_addresses_def Let_def del: append_Cons)
    apply (rule wp_run_one [OF image exit_talks10 [OF ready] _ s code(1,2)])
     apply (use fuel in simp)
    apply (simp add: wps pids del: append_Cons)
    apply (rule wp_run_one [OF image fault_talks10 [OF ready] _ _ code(5,6), where sp = sp and out = "uart t" and s = t for t])
      apply (use fuel in simp)
     apply (simp add: managing_def)
    apply (simp add: wps pids del: append_Cons)
    apply (rule wp_run_one [OF image normal_talks10 [OF ready, unfolded normal_range_def] fuel _ code(7,8)], assumption)
    apply (simp add: wps user09_stress_code_addresses_def del: append_Cons)
    apply (rule lesson10_stress_ok [OF image ready _ code(3,4)])
       apply (use fuel in simp)
      apply assumption
     apply (use pid in simp)
    apply (simp add: wps del: append_Cons)
    apply (simp add: managing_def lesson10_lines_def output_lines_Cons outcome_line_def numbers10)
    done
qed

text \<open>
  C9: on an image with the program texts of \<^verbatim>\<open>src/user.S\<close>, \<^verbatim>\<open>src/user10.S\<close> and
  \<^verbatim>\<open>src/user_api.S\<close>, lesson 10 runs to its end: the first process exits with 7, the second
  faults on its illegal instruction and is ended with cause and address reported, the third
  still runs to its normal exit, printing through the user library, after one of its system
  calls and one call of the library were refused, and a hundred more exit with 0 with the
  kernel's stack pointer unchanged; the console shows exactly these lines, and the machine is
  shut down.
\<close>

theorem lesson10_run:
  assumes "user_image_ok pf tx" and "lesson10_ready pf tx"
    and "feature pf ''lesson10-user-errors''" and "\<not> feature pf ''scheduling''"
    and "21 \<le> fuel" and "unat pid + 103 \<le> 2 ^ 64" and "csrs s Sie = 0"
    and "\<not> on_user_stack pf (regs s 2)" and "\<not> AddressRange_contains (trap_stack_of pf) (regs s 2)"
  shows "\<exists>s'. run_lesson10 fuel pf (rust_user_trap_handler pf) pid s = Halted s'
    \<and> uart s' = uart s @ output_lines (lesson10_lines pf pid)"
proof -
  have "managing pf (regs s 2) (uart s) (s\<lparr>expected_trap_frame := 0\<rparr>)"
    using assms by (simp add: managing_def)
  from lesson10_wp [OF assms(1,2,5) this assms(6)] show ?thesis
    using rust_user_trap_handler_selects(2) [of pf] assms(3,4) by (simp add: wp_def split: outcome.splits)
qed

end
