(* ===== verification/Boot.thy ===== *)
theory Boot
  imports User_Trap Memory Image
begin

unbundle bit_operations_syntax

text \<open>
  \<^verbatim>\<open>src/main.rs\<close>: the entry point \<^verbatim>\<open>_start\<close>, which clears the BSS before any Rust code
  runs, the feature-selected course of \<^verbatim>\<open>rust_main\<close>, and the panic handler.
\<close>

section \<open>The entry point\<close>

function clear_bss :: "usize \<Rightarrow> usize \<Rightarrow> memory \<Rightarrow> memory" where
  "clear_bss t0 t1 m = (if t0 \<ge> t1 then m else clear_bss (t0 + 1) t1 (m(t0 := 0)))"
  by auto

termination
proof (relation "measure (\<lambda>(t0, t1, m). unat t1 - unat t0)")
  fix t0 t1 :: usize and m :: memory
  assume "\<not> t1 \<le> t0"
  then have lt: "unat t0 < unat t1" by (simp add: word_le_nat_alt)
  have "unat t0 + unat (1 :: usize) < 2 ^ LENGTH(64)" using lt unat_bound64 [of t1] by (simp del: unat_bound64)
  then have "unat (t0 + 1) = unat t0 + 1" by (simp add: unat_add_no_overflow)
  then show "((t0 + 1, t1, m(t0 := 0)), (t0, t1, m)) \<in> measure (\<lambda>(t0, t1, m). unat t1 - unat t0)"
    using lt by simp
qed simp

declare clear_bss.simps [simp del]

definition probe_code :: "instr list" where
  "probe_code = [LA r_t0 ''bss_probe'', LI r_t1 0x1122334455667788, SD r_t1 0 r_t0]"

definition start_code :: "platform \<Rightarrow> machine \<Rightarrow> machine" where
  "start_code pf s =
     (let s = exec pf [LA r_sp ''boot_stack_top'',
                       LI r_t2 (if feature pf ''lesson04-bss-probe'' then 1 else 0)] s;
          s = (if regs s r_t2 = 0 then s else exec pf probe_code s);
          s = exec pf [LI r_t2 (if feature pf ''lesson04-skip-bss-clear'' then 1 else 0)] s
      in if regs s r_t2 \<noteq> 0 then s
         else
           let s = exec pf [LA r_t0 ''sbss'', LA r_t1 ''ebss''] s in
           s\<lparr>mem := clear_bss (regs s r_t0) (regs s r_t1) (mem s),
             regs := (regs s)(r_t0 := max (regs s r_t0) (regs s r_t1))\<rparr>)"

section \<open>The kernel's main function and its panic handler\<close>

definition rust_main :: "nat \<Rightarrow> platform \<Rightarrow> unit K" where
  "rust_main fuel pf =
     kthen (kseq
       [println ''Hello kernel'',
        println (''count='' @ fmt_nat 42),
        println (''addr='' @ fmt_hex (0x80200000 :: usize)),
        println '''',
        print ''left'',
        println '' right'',
        report_and_validate pf,
        trap_init pf,
        kwhen (feature pf ''lesson05-illegal-trap'') (trigger_lesson05 pf)]) (
     kbind (run_lesson06_model pf) (\<lambda>next_pid.
     let h = rust_user_trap_handler pf in
     kthen (kseq
       [kwhen (feature pf ''lesson03-panic'')
          (kthen (kpanic ''lesson 03 deliberate failure'' :: unit K) (println ''SHOULD_NOT_REACH'')),
        kwhen (feature pf ''lesson07-user-mode'') (run_lesson07 fuel pf h next_pid),
        kwhen (feature pf ''lesson08-syscalls'') (run_lesson08 fuel pf h next_pid),
        kwhen (feature pf ''lesson09-exit'') (run_lesson09 fuel pf h next_pid),
        kwhen (feature pf ''lesson10-user-errors'') (run_lesson10 fuel pf h next_pid),
        kwhen (feature pf ''scheduling'') (scheduler_run fuel pf)])
     khalt))"

text \<open>
  A panic's source location is known to the compiler only; \<open>loc\<close> gives it for each
  message.
\<close>

definition panic_handler :: "string \<Rightarrow> (string \<times> nat \<times> nat) option \<Rightarrow> unit K" where
  "panic_handler message loc =
     kthen (println (''[panic] '' @ message)) (
     kthen (case loc of
         Some (file, line, column) \<Rightarrow>
           println (''at '' @ file @ '':'' @ fmt_nat line @ '':'' @ fmt_nat column)
       | None \<Rightarrow> println ''location unavailable'')
     khalt)"

definition kernel_boot ::
  "nat \<Rightarrow> platform \<Rightarrow> (string \<Rightarrow> (string \<times> nat \<times> nat) option) \<Rightarrow> unit K" where
  "kernel_boot fuel pf loc s =
     (case rust_main fuel pf (start_code pf s) of
        Panicked message s' \<Rightarrow> panic_handler message (loc message) s'
      | outcome \<Rightarrow> outcome)"

section \<open>The BSS is clear before Rust runs\<close>

lemma clear_bss_zeroes: "clear_bss t0 t1 m a = (if t0 \<le> a \<and> a < t1 then 0 else m a)"
proof (induction t0 t1 m rule: clear_bss.induct)
  case (1 t0 t1 m)
  show ?case
  proof (cases "t1 \<le> t0")
    case True
    then show ?thesis by (auto simp: clear_bss.simps [of t0])
  next
    case False
    then have lt: "unat t0 < unat t1" by (simp add: word_le_nat_alt)
    have "unat t0 + unat (1 :: usize) < 2 ^ LENGTH(64)"
      using lt unat_bound64 [of t1] by (simp del: unat_bound64)
    then have next_address: "unat (t0 + 1) = unat t0 + 1" by (simp add: unat_add_no_overflow)
    then have "t0 + 1 \<le> a \<and> a < t1 \<or> a = t0 \<longleftrightarrow> t0 \<le> a \<and> a < t1"
      using lt next_address by (auto simp: word_le_nat_alt word_less_nat_alt word_unat_eq_iff)
    moreover have "clear_bss t0 t1 m a = (if t0 + 1 \<le> a \<and> a < t1 then 0 else (m(t0 := 0)) a)"
      by (subst clear_bss.simps) (simp only: False if_False "1.IH" [OF False])
    ultimately show ?thesis by auto
  qed
qed

lemma start_clears:
  "regs (start_code pf s) 2 = symbol pf ''boot_stack_top''
   \<and> mem (start_code pf s) a =
       (if \<not> feature pf ''lesson04-skip-bss-clear'' \<and> symbol pf ''sbss'' \<le> a \<and> a < symbol pf ''ebss''
        then 0
        else if feature pf ''lesson04-bss-probe''
        then store64 (mem s) (symbol pf ''bss_probe'') 0x1122334455667788 a
        else mem s a)"
  by (simp add: start_code_def Let_def probe_code_def rset_def rget_def clear_bss_zeroes)

text \<open>
  C21: when Rust starts, the stack pointer is the top of the boot stack and every byte from
  \<^verbatim>\<open>sbss\<close> up to \<^verbatim>\<open>ebss\<close> is zero, unless the build skips the clearing; no other byte has
  changed but those of the probe, whose pattern is stored before, not after, the clearing.
\<close>

theorem start_clears_bss:
  "regs (start_code pf s) 2 = symbol pf ''boot_stack_top''
   \<and> mem (start_code pf s) a =
       (if \<not> feature pf ''lesson04-skip-bss-clear'' \<and> symbol pf ''sbss'' \<le> a \<and> a < symbol pf ''ebss''
        then 0
        else if feature pf ''lesson04-bss-probe''
        then store64 (mem s) (symbol pf ''bss_probe'') 0x1122334455667788 a
        else mem s a)"
  by (rule start_clears)

text \<open>The layout the linker script is to produce: the static part of the boot check.\<close>

definition linked_ok :: "platform \<Rightarrow> bool" where
  "linked_ok pf \<longleftrightarrow>
     layout_ok pf (layout pf) (start_address pf) (symbol pf ''boot_stack_top'') 0
     \<and> symbol pf ''sbss'' \<le> symbol pf ''bss_probe''
     \<and> unat (symbol pf ''bss_probe'') + 8 \<le> unat (symbol pf ''ebss'')"

lemma load64_zero:
  assumes "\<And>i. i < 8 \<Longrightarrow> m (a + of_nat i) = 0"
  shows "load64 m a = 0"
proof -
  have "map (\<lambda>i. m (a + of_nat i)) [0..<8] = replicate 8 0"
    using assms by (intro nth_equalityI) auto
  then show ?thesis by (simp add: load64_def bytes_dword_def numeral_eq_Suc)
qed

lemma start_layout_ok:
  assumes "linked_ok pf"
  shows "layout_ok pf (layout pf) (start_address pf) (regs (start_code pf s) 2)
    (load64 (mem (start_code pf s)) (symbol pf ''bss_probe''))"
proof -
  let ?s = "start_code pf s"
  have sp: "regs ?s 2 = symbol pf ''boot_stack_top''" using start_clears by simp
  have "load64 (mem ?s) (symbol pf ''bss_probe'') = 0" if "\<not> feature pf ''lesson04-skip-bss-clear''"
  proof (rule load64_zero)
    fix i :: nat assume i: "i < 8"
    let ?a = "symbol pf ''bss_probe'' + of_nat i"
    have "unat (of_nat i :: usize) = i" using i by (simp add: unat_of_nat take_bit_eq_mod)
    moreover have "unat (symbol pf ''bss_probe'') + i < 18446744073709551616"
      using assms i unat_bound64 [of "symbol pf ''ebss''"] unfolding linked_ok_def by linarith
    ultimately have "unat ?a = unat (symbol pf ''bss_probe'') + i"
      using i by (subst unat_add_no_overflow) auto
    then have "symbol pf ''sbss'' \<le> ?a \<and> ?a < symbol pf ''ebss''"
      using assms i by (auto simp: linked_ok_def word_le_nat_alt word_less_nat_alt)
    then show "mem ?s ?a = 0" using that start_clears by simp
  qed
  then show ?thesis using assms sp by (auto simp: linked_ok_def layout_ok_def)
qed

text \<open>
  C20: on every correctly linked image the boot check of the memory layout passes, whatever
  memory held at reset and whether or not the probe pattern was stored: after \<^verbatim>\<open>_start\<close> the
  check returns, so the kernel goes on past it.
\<close>

theorem boot_check_passes:
  assumes "linked_ok pf"
  shows "\<exists>s'. report_and_validate pf (start_code pf s) = Ret () s'"
proof -
  have "wp (report_and_validate pf) (\<lambda>_ _. True) (\<lambda>_. False) (start_code pf s)"
    using start_layout_ok [OF assms] by (simp add: report_and_validate_wp)
  then show ?thesis by (auto simp: wp_def split: outcome.splits)
qed

section \<open>The kernel never returns\<close>

lemma kthen_khalt: "kthen m khalt s \<noteq> Ret a s'"
  by (simp add: krun split: outcome.split)

lemma rust_main_never_returns: "rust_main fuel pf s \<noteq> Ret () s'"
  by (auto simp: rust_main_def kthen_run kbind_run khalt_run Let_def split: outcome.splits)

lemma panic_handler_halts:
  "\<exists>line s'. panic_handler message loc s = Halted s'
     \<and> uart s' = uart s @ as_bytes (''[panic] '' @ message) @ [10] @ as_bytes line @ [10]"
  by (cases loc) (auto simp: panic_handler_def krun simp del: append_Cons)


end
