(* ===== verification/Boot_Lessons.thy ===== *)
theory Boot_Lessons
  imports Boot Lesson10_Run
begin

unbundle bit_operations_syntax

text \<open>
  The whole course of the kernel, from reset to shutdown: \<^verbatim>\<open>_start\<close>, the checks of
  \<^verbatim>\<open>rust_main\<close>, the process model of lesson 06 and a user lesson.
\<close>

text \<open>What the linker and the build are to provide up to the first lesson.\<close>

definition bootable :: "platform \<Rightarrow> bool" where
  "bootable pf \<longleftrightarrow> linked_ok pf
     \<and> symbol pf ''trap_entry'' AND 3 = 0
     \<and> symbol pf ''model_hello_start'' \<le> symbol pf ''model_hello_entry''
     \<and> symbol pf ''model_hello_entry'' < symbol pf ''model_hello_end''
     \<and> \<not> on_user_stack pf (symbol pf ''boot_stack_top'')
     \<and> \<not> AddressRange_contains (trap_stack_of pf) (symbol pf ''boot_stack_top'')
     \<and> \<not> feature pf ''lesson03-panic'' \<and> \<not> feature pf ''lesson05-illegal-trap''"

text \<open>What the lessons find: the machine after the checks and lesson 06, after some output.\<close>

definition lessons_start :: "platform \<Rightarrow> machine \<Rightarrow> machine \<Rightarrow> bool" where
  "lessons_start pf s0 s \<longleftrightarrow> regs s 2 = symbol pf ''boot_stack_top'' \<and> csrs s Sie = 0
     \<and> expected_trap_frame s = expected_trap_frame s0
     \<and> (\<exists>out. uart s = uart s0 @ out @ output_lines (lesson06_lines pf))"

definition lessons :: "nat \<Rightarrow> platform \<Rightarrow> u64 \<Rightarrow> unit K" where
  "lessons fuel pf next_pid =
     (let h = rust_user_trap_handler pf in
      kthen (kseq
        [kwhen (feature pf ''lesson03-panic'')
          (kthen (kpanic ''lesson 03 deliberate failure'' :: unit K) (println ''SHOULD_NOT_REACH'')),
         kwhen (feature pf ''lesson07-user-mode'') (run_lesson07 fuel pf h next_pid),
         kwhen (feature pf ''lesson08-syscalls'') (run_lesson08 fuel pf h next_pid),
         kwhen (feature pf ''lesson09-exit'') (run_lesson09 fuel pf h next_pid),
         kwhen (feature pf ''lesson10-user-errors'') (run_lesson10 fuel pf h next_pid),
         kwhen (feature pf ''scheduling'') (scheduler_run fuel pf)])
      khalt)"

lemma rust_main_lessons:
  "rust_main fuel pf =
     kthen (kseq
       [println ''Hello kernel'',
        println (''count='' @ fmt_nat 42),
        println (''addr='' @ fmt_hex (0x80200000 :: usize)),
        println '''',
        print ''left'',
        println '' right'',
        report_and_validate pf,
        trap_init pf,
        kwhen (feature pf ''lesson05-illegal-trap'') (trigger_lesson05 pf)])
     (kbind (run_lesson06_model pf) (lessons fuel pf))"
  by (simp only: rust_main_def lessons_def [abs_def] Let_def)

lemma start_code_keeps [simp]:
  "uart (start_code pf s) = uart s" "expected_trap_frame (start_code pf s) = expected_trap_frame s"
  by (simp_all add: start_code_def Let_def probe_code_def rset_def rget_def)

lemma trap_init_wp:
  assumes "symbol pf ''trap_entry'' AND 3 = 0" and "stvec_keeps pf (symbol pf ''trap_entry'') = symbol pf ''trap_entry''"
    and "\<And>c. c Sie = 0 \<Longrightarrow> Q () (s\<lparr>csrs := c, uart := uart s @ as_bytes ''trap ready'' @ [10]\<rparr>)"
  shows "wp (trap_init pf) Q H s"
  using assms
  by (auto simp: trap_init_def Let_def trap_entry_address_def csrw_def csrr_def csr_clear_bits_def
      csr_write_def wps simp del: append_Cons)

lemma report_checked:
  assumes ok: "linked_ok pf" and s: "s = (start_code pf s0)\<lparr>uart := out\<rparr>"
    and Q: "\<And>added. Q () (s\<lparr>uart := out @ added\<rparr>)"
  shows "wp (report_and_validate pf) Q H s"
proof -
  have same: "\<exists>added. t = t\<lparr>uart := uart t @ added\<rparr>" for t :: machine by (rule exI [of _ "[]"]) simp
  have "wp (report_and_validate pf) (\<lambda>_ t. \<exists>added. t = s\<lparr>uart := uart s @ added\<rparr>) H s"
  proof (subst report_and_validate_wp)
    show "(\<exists>added. s\<lparr>uart := uart s @ o'\<rparr> = s\<lparr>uart := uart s @ added\<rparr>) = (\<exists>added. s = s\<lparr>uart := uart s @ added\<rparr>)" for o'
      using same [of s] by blast
    show "layout_ok pf (layout pf) (start_address pf) (regs s 2) (load64 (mem s) (symbol pf ''bss_probe''))
      \<and> (\<exists>added. s = s\<lparr>uart := uart s @ added\<rparr>)"
      using start_layout_ok [OF ok, of s0] same [of s] by (simp add: s)
  qed
  then show ?thesis by (rule wp_mono) (use Q s in auto)
qed

lemma lesson06_wp:
  assumes "symbol pf ''model_hello_start'' \<le> symbol pf ''model_hello_entry''"
    and "symbol pf ''model_hello_entry'' < symbol pf ''model_hello_end''"
    and "Q 3 (s\<lparr>uart := uart s @ output_lines (lesson06_lines pf)\<rparr>)"
  shows "wp (run_lesson06_model pf) Q H s"
  using lesson06_run [OF assms(1,2), of s] assms(3) by (simp add: wp_def)

lemma boot_to_lessons:
  assumes ok: "bootable pf" and keeps: "stvec_keeps pf (symbol pf ''trap_entry'') = symbol pf ''trap_entry''"
    and rest: "\<And>t. lessons_start pf s t \<Longrightarrow> wp (lessons fuel pf 3) (\<lambda>_ _. False) H t"
  shows "wp (rust_main fuel pf) (\<lambda>_ _. False) H (start_code pf s)"
proof -
  have sp: "regs (start_code pf s) 2 = symbol pf ''boot_stack_top''" using start_clears by simp
  show ?thesis
    using ok unfolding rust_main_lessons bootable_def
    apply (simp add: wps del: append_Cons)
    apply (rule report_checked)
      apply simp
     apply (rule refl)
    apply (simp only: wps)
    apply (rule trap_init_wp)
      apply simp
     apply (rule keeps)
    apply (simp add: wps del: append_Cons)
    apply (rule lesson06_wp)
      apply simp
     apply simp
    apply (rule rest)
    apply (simp add: lessons_start_def sp del: append_Cons)
    done
qed

text \<open>
  C6: from reset, on a bootable image that carries lesson 10, the kernel gets through its
  layout checks, the installation of its trap vector and the process model of lesson 06, and
  then through the whole of lesson 10 with the process identifiers from 3 on; after the boot
  report the console shows exactly the lines of the two lessons, and the machine is shut
  down, whatever its memory, registers and control registers held before.
\<close>

theorem boot_lesson10:
  assumes "bootable pf" and "user_image_ok pf tx" and "lesson10_ready pf tx"
    and "feature pf ''lesson10-user-errors''" and "\<not> feature pf ''scheduling''" and "\<not> feature pf ''lesson09-exit''"
    and "\<not> feature pf ''lesson08-syscalls''" and "\<not> feature pf ''lesson07-user-mode''" and "21 \<le> fuel"
  shows "\<exists>out s'. kernel_boot fuel pf loc s = Halted s'
    \<and> uart s' = uart s @ out @ output_lines (lesson06_lines pf @ lesson10_lines pf 3)"
proof -
  have h: "rust_user_trap_handler pf = on_frame (lesson10_handle pf)"
    using rust_user_trap_handler_selects(2) assms by blast
  have "wp (rust_main fuel pf) (\<lambda>_ _. False)
      (\<lambda>s'. \<exists>out. uart s' = uart s @ out @ output_lines (lesson06_lines pf @ lesson10_lines pf 3)) (start_code pf s)"
  proof (rule boot_to_lessons [OF assms(1)])
    show "stvec_keeps pf (symbol pf ''trap_entry'') = symbol pf ''trap_entry''"
      using assms(2) by (simp add: user_image_ok_def)
    fix t assume t: "lessons_start pf s t"
    then obtain out where out: "uart t = uart s @ out @ output_lines (lesson06_lines pf)"
      by (auto simp: lessons_start_def)
    have "managing pf (symbol pf ''boot_stack_top'') (uart t) (t\<lparr>expected_trap_frame := 0\<rparr>)"
      using t assms(1) by (simp add: managing_def lessons_start_def bootable_def)
    from lesson10_wp [OF assms(2,3,9) this, of 3]
    have "wp (run_lesson10 fuel pf (rust_user_trap_handler pf) 3) (\<lambda>_ _. False)
        (\<lambda>s'. uart s' = uart t @ output_lines (lesson10_lines pf 3)) t" by (simp add: h)
    then show "wp (lessons fuel pf 3) (\<lambda>_ _. False)
        (\<lambda>s'. \<exists>out. uart s' = uart s @ out @ output_lines (lesson06_lines pf @ lesson10_lines pf 3)) t"
      using assms out by (auto simp: lessons_def wps bootable_def output_lines_Cons elim!: wp_mono)
  qed
  then show ?thesis by (auto simp: kernel_boot_def wp_def split: outcome.splits)
qed

end
