(* ===== verification/Lesson_Assembly.thy ===== *)
theory Lesson_Assembly
  imports Lesson07_Run Lesson08_Run Boot_Lessons
begin

unbundle bit_operations_syntax

text \<open>
  A concrete image that carries the user programs: an assembler that gives every instruction
  four bytes, the addresses of their listings, and the symbols this defines.  It shows that
  what the theorems on the lessons ask of an image can be met; the theorems hold for every
  placement and every choice of compressed instructions.
\<close>

section \<open>An assembler\<close>

definition text_at :: "usize \<Rightarrow> line list \<Rightarrow> utext" where
  "text_at a ls pc =
     (let d = unat (pc - a) in
      if d mod 4 = 0 \<and> d div 4 < length (code_of ls) then Some (code_of ls ! (d div 4), pc + 4) else None)"

fun text_of :: "(usize \<times> line list) list \<Rightarrow> utext" where
  "text_of [] pc = None"
| "text_of ((a, ls) # rest) pc = (case text_at a ls pc of None \<Rightarrow> text_of rest pc | Some e \<Rightarrow> Some e)"

definition symbols_at :: "usize \<Rightarrow> line list \<Rightarrow> (string \<times> usize) list" where
  "symbols_at a ls = map (\<lambda>(l, k). (l, a + 4 * of_nat k)) (labels_of 0 ls)"

text \<open>Listings placed upwards without overlap, below the end of the address space.\<close>

fun placed :: "nat \<Rightarrow> (usize \<times> line list) list \<Rightarrow> bool" where
  "placed lo [] = True"
| "placed lo ((a, ls) # rest) \<longleftrightarrow> lo \<le> unat a \<and> unat a + 4 * length (code_of ls) < 2 ^ 64
     \<and> placed (unat a + 4 * length (code_of ls)) rest"

lemma placed_mono: "placed hi lst \<Longrightarrow> lo \<le> hi \<Longrightarrow> placed lo lst"
  by (cases lst) auto

lemma placed_above: "placed lo lst \<Longrightarrow> (a, ls) \<in> set lst \<Longrightarrow> lo \<le> unat a \<and> unat a + 4 * length (code_of ls) < 2 ^ 64"
  by (induction lo lst rule: placed.induct) auto

lemma unat_offset:
  assumes "unat (a :: usize) + 4 * n < 2 ^ 64"
  shows "unat ((a :: usize) + 4 * of_nat n) = unat a + 4 * n"
proof -
  have "unat (4 * of_nat n :: usize) = 4 * n"
    using assms by (simp add: unat_word_ariths unat_of_nat take_bit_eq_mod)
  then show ?thesis using assms by (simp add: unat_add_no_overflow)
qed

lemma text_of_instruction:
  assumes "placed lo lst" and "(a, ls) \<in> set lst" and k: "k < length (code_of ls)"
  shows "text_of lst (a + 4 * of_nat k) = Some (code_of ls ! k, a + 4 * of_nat k + 4)"
  using assms(1,2)
proof (induction lo lst rule: placed.induct)
  case (2 lo a0 ls0 rest)
  let ?pc = "a + 4 * of_nat k"
  have room: "unat a + 4 * length (code_of ls) < 2 ^ 64" using placed_above [OF 2(2,3)] by simp
  then have pc: "unat ?pc = unat a + 4 * k" using k by (simp add: unat_offset)
  show ?case
  proof (cases "(a0, ls0) = (a, ls)")
    case True
    have "4 * k < 2 ^ 64" using room k by linarith
    then have "unat (?pc - a) = 4 * k" using pc unat_offset [of 0 k] by simp
    then show ?thesis using True k by (simp add: text_at_def)
  next
    case False
    then have rest: "(a, ls) \<in> set rest" using 2(3) by auto
    have later: "placed (unat a0 + 4 * length (code_of ls0)) rest" using 2(2) by simp
    then have "unat a0 + 4 * length (code_of ls0) \<le> unat a" using placed_above [OF _ rest] by blast
    then have "4 * length (code_of ls0) \<le> unat (?pc - a0)"
      using pc by (simp add: unat_sub_le word_le_nat_alt)
    moreover have "n \<le> d div 4" if "4 * n \<le> d" for n d :: nat using that by linarith
    ultimately have "text_at a0 ls0 ?pc = None" by (simp add: text_at_def Let_def not_less)
    then show ?thesis using "2.IH" [OF later rest] by simp
  qed
qed simp

lemma assembledI:
  assumes "\<And>k. k < length (code_of ls) \<Longrightarrow> tx (a + 4 * of_nat k) = Some (code_of ls ! k, a + 4 * of_nat k + 4)"
    and "\<And>l k. (l, k) \<in> set (labels_of j ls) \<Longrightarrow> adr l = a + 4 * (of_nat k - of_nat j)"
    and "unat a + 4 * length (code_of ls) < 2 ^ 64"
  shows "assembled tx adr a ls"
  using assms
proof (induction tx adr a ls arbitrary: j rule: assembled.induct)
  case (2 tx adr a l ls)
  have "adr l = a" using 2(3) [of l j] by simp
  moreover have "assembled tx adr a ls" using 2(2,3,4) by (intro "2.IH") auto
  ultimately show ?case by simp
next
  case (3 tx adr a i ls)
  have first: "tx a = Some (i, a + 4)" using 3(2) [of 0] by simp
  then have after: "after_at tx a = a + 4" by (simp add: after_at_def)
  have u: "unat (a + 4) = unat a + 4" using 3(4) by (simp add: unat_add_no_overflow)
  have "assembled tx adr (a + 4) ls"
  proof (rule "3.IH" [unfolded after])
    show "tx (a + 4 + 4 * of_nat k) = Some (code_of ls ! k, a + 4 + 4 * of_nat k + 4)" if "k < length (code_of ls)" for k
      using 3(2) [of "Suc k"] that by (simp add: algebra_simps)
    show "adr l = a + 4 + 4 * (of_nat k - of_nat (Suc j))" if "(l, k) \<in> set (labels_of (Suc j) ls)" for l k
      using 3(3) [of l k] that by (simp add: algebra_simps)
    show "unat (a + 4) + 4 * length (code_of ls) < 2 ^ 64" using 3(4) u by simp
  qed
  then show ?case using first after u by (simp add: word_less_nat_alt)
qed simp

lemma text_of_assembled:
  assumes "placed lo lst" and "(a, ls) \<in> set lst"
    and "\<And>l v. (l, v) \<in> set (symbols_at a ls) \<Longrightarrow> adr l = v"
  shows "assembled (text_of lst) adr a ls"
proof (rule assembledI [where j = 0])
  show "text_of lst (a + 4 * of_nat k) = Some (code_of ls ! k, a + 4 * of_nat k + 4)" if "k < length (code_of ls)" for k
    by (rule text_of_instruction [OF assms(1,2) that])
  show "adr l = a + 4 * (of_nat k - of_nat 0)" if "(l, k) \<in> set (labels_of 0 ls)" for l k
    using assms(3) that by (force simp: symbols_at_def)
  show "unat a + 4 * length (code_of ls) < 2 ^ 64" using placed_above [OF assms(1,2)] by simp
qed

section \<open>The image\<close>

definition listings :: "(usize \<times> line list) list" where
  "listings =
     [(0x80201000, user07_text), (0x80201100, user08_text), (0x80201300, user09_text),
      (0x80201400, user09_stress_text), (0x80201500, user10_fault_text),
      (0x80201600, user10_normal_text), (0x80201900, user_api_text)]"

definition lesson_symbols :: "(string \<times> usize) list" where
  "lesson_symbols =
     concat (map (\<lambda>(a, ls). symbols_at a ls) listings) @
     [(''user_stack_start'', 0x80231000), (''user_stack_end'', 0x80235000),
      (''user_trap_stack_start'', 0x80235000), (''user_trap_stack_end'', 0x80239000),
      (''kernel_gp_saved'', 0x80239000), (''kernel_tp_saved'', 0x80239008),
      (''kernel_context'', 0x80239010), (''bss_probe'', 0x80239100)] @ image_symbols"

definition lesson_symbol :: "string \<Rightarrow> usize" where
  "lesson_symbol n = (case map_of lesson_symbols n of None \<Rightarrow> 0 | Some a \<Rightarrow> a)"

lemma placed_listings: "placed 0 listings"
  by (simp add: listings_def user07_text_def user08_text_def user09_text_def user09_stress_text_def
      user10_fault_text_def user10_normal_text_def user_api_text_def)

lemma distinct_symbols: "distinct (map fst (concat (map (\<lambda>(a, ls). symbols_at a ls) listings)))"
  by code_simp

lemma lesson_symbol_label:
  assumes "(a, ls) \<in> set listings" and "(l, v) \<in> set (symbols_at a ls)"
  shows "lesson_symbol l = v"
proof -
  let ?code = "concat (map (\<lambda>(a, ls). symbols_at a ls) listings)"
  have "(l, v) \<in> set ?code" using assms by force
  then have "map_of ?code l = Some v" using distinct_symbols by (simp add: map_of_is_SomeI)
  then show ?thesis by (simp add: lesson_symbol_def lesson_symbols_def map_add_Some_iff)
qed

abbreviation lesson_text :: utext where
  "lesson_text \<equiv> text_of listings"

lemma lesson_assembled:
  "(a, ls) \<in> set listings \<Longrightarrow> assembled lesson_text lesson_symbol a ls"
  by (rule text_of_assembled [OF placed_listings]) (auto intro: lesson_symbol_label)

lemma lesson_labels [simp]:
  "lesson_symbol ''user_start'' = 0x80201000" "lesson_symbol ''user08_start'' = 0x80201100"
  "lesson_symbol ''user09_start'' = 0x80201300" "lesson_symbol ''user09_end'' = 0x802013d8"
  "lesson_symbol ''user09_stress_start'' = 0x80201400" "lesson_symbol ''user09_stress_end'' = 0x80201410"
  "lesson_symbol ''user10_fault_start'' = 0x80201500" "lesson_symbol ''user10_fault_end'' = 0x80201508"
  "lesson_symbol ''user10_normal_start'' = 0x80201600" "lesson_symbol ''user10_normal_end'' = 0x80201764"
  "lesson_symbol ''user_api_start'' = 0x80201900"
  by code_simp+

lemma lesson_data [simp]:
  "lesson_symbol ''user_stack_start'' = 0x80231000" "lesson_symbol ''user_stack_end'' = 0x80235000"
  "lesson_symbol ''user_trap_stack_start'' = 0x80235000" "lesson_symbol ''user_trap_stack_end'' = 0x80239000"
  "lesson_symbol ''kernel_gp_saved'' = 0x80239000" "lesson_symbol ''kernel_tp_saved'' = 0x80239008"
  "lesson_symbol ''kernel_context'' = 0x80239010" "lesson_symbol ''bss_probe'' = 0x80239100"
  "lesson_symbol ''sboot_stack'' = 0x80220000" "lesson_symbol ''eboot_stack'' = 0x80230000"
  "lesson_symbol ''boot_stack_top'' = 0x80230000" "lesson_symbol ''sbss'' = 0x80230000"
  "lesson_symbol ''ebss'' = 0x80270000"
  by code_simp+

lemma lesson_sections [simp]:
  "lesson_symbol ''stext'' = 0x80200000" "lesson_symbol ''_start'' = 0x80200000"
  "lesson_symbol ''trap_entry'' = 0x80200100"
  "lesson_symbol ''etext'' = 0x80210000" "lesson_symbol ''srodata'' = 0x80210000"
  "lesson_symbol ''erodata'' = 0x80218000" "lesson_symbol ''sdata'' = 0x80218000"
  "lesson_symbol ''edata'' = 0x80219000" "lesson_symbol ''model_hello_start'' = 0x80203000"
  "lesson_symbol ''model_hello_entry'' = 0x80203000" "lesson_symbol ''model_hello_end'' = 0x80203008"
  by code_simp+

definition lesson_platform :: "string list \<Rightarrow> platform" where
  "lesson_platform fs = (image_platform fs (\<lambda>_. 0) (user_mode lesson_text lesson_symbol))\<lparr>symbol := lesson_symbol\<rparr>"

lemma lesson_platform_simps [simp]:
  "symbol (lesson_platform fs) = lesson_symbol"
  "feature (lesson_platform fs) f = (f \<in> set fs)"
  "stvec_keeps (lesson_platform fs) v = v"
  "user_code (lesson_platform fs) = user_mode lesson_text lesson_symbol"
  by (simp_all add: lesson_platform_def)

lemma lesson_stacks [simp]:
  "user_stack_of (lesson_platform fs) = \<lparr>ar_start = 0x80231000, ar_end = 0x80235000\<rparr>"
  "trap_stack_of (lesson_platform fs) = \<lparr>ar_start = 0x80235000, ar_end = 0x80239000\<rparr>"
  "trap_slot (lesson_platform fs) = 0x80238ee0"
  by (simp_all add: user_stack_of_def trap_stack_of_def trap_slot_def)

lemma lesson_saves_clear:
  assumes "b < 0x80235000"
  shows "clear_of_saves (lesson_platform fs) b"
proof -
  have "unat b < 0x80235000" using assms by (simp add: word_less_nat_alt)
  then show ?thesis
    by (simp add: clear_of_saves_def slots16_def) (intro conjI; rule clear_below; simp)
qed

lemma lesson_image_ok: "user_image_ok (lesson_platform fs) lesson_text"
proof -
  have "stacks_ok (lesson_platform fs)"
    by (simp add: stacks_ok_def stacks_ordered_def AddressRange_extent_def AddressRange_overlaps_def boot_stack_def)
  moreover have "kernel_areas_ok (lesson_platform fs)"
    by (simp add: kernel_areas_ok_def outside_16 slots16_def aligned8_def)
  moreover have "frame_slot_ok (lesson_platform fs) 0x80238ee0"
    by (simp add: frame_slot_ok_def outside_36 slots16_def slots36_def aligned8_def)
  ultimately show ?thesis
    by (simp add: user_image_ok_def AddressRange_contains_def lesson_saves_clear)
qed

lemma lesson_texts:
  "lesson07_text (lesson_platform fs) lesson_text" "lesson08_text (lesson_platform fs) lesson_text"
  "lesson09_text (lesson_platform fs) lesson_text" "lesson10_text (lesson_platform fs) lesson_text"
  using lesson_assembled
  by (simp_all add: lesson07_text_def lesson08_text_def lesson09_text_def lesson10_text_def listings_def)

lemma lesson10_image_ready: "''lesson10-kernel-fault'' \<notin> set fs \<Longrightarrow> lesson10_ready (lesson_platform fs) lesson_text"
  using lesson_image_ok [of fs] lesson_texts(4) [of fs] by (simp add: lesson10_ready_def user_image_ok_def)

lemma lesson_bootable:
  assumes "''lesson03-panic'' \<notin> set fs" and "''lesson05-illegal-trap'' \<notin> set fs"
  shows "bootable (lesson_platform fs)"
  using assms
  by (simp add: bootable_def linked_ok_def layout_ok_def layout_def start_address_def AddressRange_contains_def)

end
