(* ===== verification/Witnesses.thy ===== *)
theory Witnesses
  imports Scheduler_Laws User_Laws Boot
begin

unbundle bit_operations_syntax

text \<open>
  The properties at work: each one that has hypotheses is applied to the image and machine
  of theory \<open>Image\<close>, with concrete user programs, tasks and clocks, where all of its
  hypotheses hold.
\<close>

section \<open>The image\<close>

lemma image_addresses1 [simp]:
  "image_symbol ''stext'' = 0x80200000"
  "image_symbol ''_start'' = 0x80200000"
  "image_symbol ''trap_entry'' = 0x80200100"
  "image_symbol ''user_trap_entry'' = 0x80200200"
  "image_symbol ''trap_trigger_label'' = 0x80200400"
  "image_symbol ''user_start'' = 0x80201000"
  "image_symbol ''user_entry'' = 0x80201000"
  "image_symbol ''user_ecall'' = 0x80201008"
  "image_symbol ''user_end'' = 0x80201010"
  "image_symbol ''user08_start'' = 0x80201100"
  "image_symbol ''user08_entry'' = 0x80201100"
  "image_symbol ''user08_ecall_unknown'' = 0x80201140"
  by (simp_all add: image_eval)

lemma image_addresses2 [simp]:
  "image_symbol ''user08_ecall_invalid'' = 0x80201154"
  "image_symbol ''user08_ecall_o'' = 0x802011a0"
  "image_symbol ''user08_ecall_k'' = 0x802011b0"
  "image_symbol ''user08_ecall_newline'' = 0x802011c0"
  "image_symbol ''user08_end'' = 0x80201230"
  "image_symbol ''user09_start'' = 0x80201300"
  "image_symbol ''user09_entry'' = 0x80201300"
  "image_symbol ''user09_ecall_invalid_exit'' = 0x80201308"
  "image_symbol ''user09_ecall_exit7'' = 0x8020131c"
  "image_symbol ''user09_end'' = 0x802013e0"
  "image_symbol ''user09_stress_start'' = 0x80201400"
  "image_symbol ''user09_stress_entry'' = 0x80201400"
  by (simp_all add: image_eval)

lemma image_addresses3 [simp]:
  "image_symbol ''user09_stress_ecall'' = 0x80201408"
  "image_symbol ''user09_stress_end'' = 0x80201410"
  "image_symbol ''user10_fault_start'' = 0x80201500"
  "image_symbol ''user10_fault_end'' = 0x80201508"
  "image_symbol ''user10_normal_start'' = 0x80201600"
  "image_symbol ''user10_normal_end'' = 0x80201800"
  "image_symbol ''user_api_start'' = 0x80201900"
  "image_symbol ''user_api_end'' = 0x80201918"
  "image_symbol ''sched_code_start'' = 0x80202000"
  "image_symbol ''sched_entry'' = 0x80202000"
  "image_symbol ''sched_fault'' = 0x80202200"
  "image_symbol ''sched_code_end'' = 0x80202208"
  by (simp_all add: image_eval)

lemma image_addresses4 [simp]:
  "image_symbol ''model_hello_start'' = 0x80203000"
  "image_symbol ''model_hello_entry'' = 0x80203000"
  "image_symbol ''model_hello_end'' = 0x80203008"
  "image_symbol ''etext'' = 0x80210000"
  "image_symbol ''srodata'' = 0x80210000"
  "image_symbol ''erodata'' = 0x80218000"
  "image_symbol ''sdata'' = 0x80218000"
  "image_symbol ''edata'' = 0x80219000"
  "image_symbol ''sboot_stack'' = 0x80220000"
  "image_symbol ''boot_stack_top'' = 0x80230000"
  "image_symbol ''eboot_stack'' = 0x80230000"
  "image_symbol ''sbss'' = 0x80230000"
  by (simp_all add: image_eval)

lemma image_addresses5 [simp]:
  "image_symbol ''user_stack_start'' = 0x80230000"
  "image_symbol ''user_stack_end'' = 0x80234000"
  "image_symbol ''user_trap_stack_start'' = 0x80234000"
  "image_symbol ''user_trap_stack_end'' = 0x80238000"
  "image_symbol ''kernel_gp_saved'' = 0x80238000"
  "image_symbol ''kernel_tp_saved'' = 0x80238008"
  "image_symbol ''kernel_context'' = 0x80238010"
  "image_symbol ''bss_probe'' = 0x80238100"
  "image_symbol ''STACKS'' = 0x80240000"
  "image_symbol ''TIMER_DONE'' = 0x80260000"
  "image_symbol ''ebss'' = 0x80270000"
  by (simp_all add: image_eval)

text \<open>User code that leaves memory alone and always traps with the same context.\<close>

definition traps_with :: "TrapFrame \<Rightarrow> nat \<Rightarrow> TrapFrame \<Rightarrow> memory \<Rightarrow> (TrapFrame \<times> memory) option" where
  "traps_with g n f m = Some (g, m)"

lemma traps_keep_context: "user_keeps_context (image_platform fs clk (traps_with g))"
  by (simp add: user_keeps_context_def traps_with_def saved_context_def)

lemma image_areas: "kernel_areas_ok (image_platform fs clk usr)"
  by (simp add: kernel_areas_ok_def outside_16 slots16_def aligned8_def)

definition ticking :: "nat \<Rightarrow> usize" where "ticking n = of_nat n * 100 + 1000"

lemma image_firmware: "firmware_ok (image_platform fs clk usr)"
  by (simp add: firmware_ok_def)

abbreviation image :: platform where "image \<equiv> image_platform [] ticking (traps_with zero_frame)"

section \<open>Boot, processes and kernel traps\<close>

theorem lesson06_model_run_witness:
  "run_lesson06_model image image_machine
    = Ret 3 (image_machine\<lparr>uart := uart image_machine @ output_lines (lesson06_lines image)\<rparr>)"
  by (rule lesson06_model_run) simp_all

theorem lesson05_trap_reported_witness:
  "\<exists>s'. trigger_lesson05 image image_machine = Halted s'
    \<and> uart s' = uart image_machine @ output_lines (lesson05_lines image image_machine)"
  by (rule lesson05_trap_reported) (simp add: image_machine_def aligned8_def)

theorem timer_stop_disarms_witness:
  "(\<exists>s'. stop image image_machine = Ret () s' \<and> csrs s' Sie AND 32 = 0
      \<and> last (sbi_log s') = (0x54494d45, 0, - 1))
    \<and> (\<exists>s'. arm image 5000 image_machine = Ret () s' \<and> csrs s' Sie AND 32 = 32
      \<and> last (sbi_log s') = (0x54494d45, 0, 5000))"
  by (rule timer_stop_disarms) (rule image_firmware)

theorem boot_check_passes_witness:
  "\<exists>s'. report_and_validate image (start_code image image_machine) = Ret () s'"
proof (rule boot_check_passes)
  show "linked_ok image"
    by (simp add: linked_ok_def layout_ok_def layout_def start_address_def)
qed

section \<open>The scheduler\<close>

text \<open>One task, ready or running.\<close>

definition one_task :: "Task \<Rightarrow> nat option \<Rightarrow> nat \<Rightarrow> Sched" where
  "one_task t current queued_tasks =
     \<lparr>sc_tasks = [t, blank_task, blank_task, blank_task],
      sc_ready = \<lparr>rq_ids = [0, 0, 0, 0], rq_len = queued_tasks\<rparr>, sc_boost = 1000000,
      sc_current = current, sc_deadline = 20000, sc_switches = 0, sc_trace = [], sc_dropped = 0,
      sc_boosts = 0\<rparr>"

abbreviation running_task :: Sched where
  "running_task \<equiv> one_task (blank_task\<lparr>tk_state := Task_Running\<rparr>) (Some 0) 0"

abbreviation ready_task :: Sched where
  "ready_task \<equiv> one_task (blank_task\<lparr>tk_state := Task_Ready\<rparr>) None 1"

lemma running_task_runs: "runs (length [spec]) 0 running_task"
  by (auto simp: runs_def sched_inv_def one_task_def N_def rq_ok_def queued_def blank_task_def nth_Cons'
      split: if_splits)

lemma ready_task_inv: "sched_inv 1 ready_task" "queued (sc_ready ready_task) = [0]"
  by (auto simp: sched_inv_def one_task_def N_def rq_ok_def queued_def blank_task_def)

theorem sched_step_well_formed_witness:
  "case sched_step image Policy_Rr [Spec_new 0 1] 0 0 ready_task image_machine of
      Ret (go_on, sc') s' \<Rightarrow>
        sched_inv (length [Spec_new 0 1]) sc' \<and> (\<not> go_on \<longrightarrow> all_done (length [Spec_new 0 1]) sc')
    | Panicked e s' \<Rightarrow> e \<notin> set scheduler_checks
    | Halted s' \<Rightarrow> True
    | NoFuel \<Rightarrow> True"
  by (rule sched_step_well_formed) (use ready_task_inv(1) in simp)

definition event_at :: "usize \<Rightarrow> Reason \<Rightarrow> Exchange" where
  "event_at time reason = \<lparr>ex_expected = 0, ex_frame = zero_frame, ex_reason = reason, ex_time = time\<rparr>"

theorem next_boost_future_witness:
  "\<exists>boost. next_boost image 1000 450000 image_machine = Ret boost image_machine \<and> 450000 < boost
    \<and> boost \<le> 450000 + 20 * T \<and> 1000 \<le> boost \<and> unat (20 * T) dvd unat (boost - 1000)"
  by (rule next_boost_future) (simp_all add: T_def)

theorem mlfq_accounting_witness:
  "\<exists>sc' s'. sched_serve image Policy_Mlfq [faulting_spec] 5000 (event_at 30000 Reason_Yield) 0
      running_task image_machine = Ret sc' s'
    \<and> tk_level (sc_tasks sc' ! 0) = 1 \<and> tk_allot (sc_tasks sc' ! 0) = 4 * T"
proof -
  have charge: "tk_level (mlfq_charge 25000 (sc_tasks running_task ! 0)) = 1"
    "tk_allot (mlfq_charge 25000 (sc_tasks running_task ! 0)) = 4 * T"
    by (simp_all add: one_task_def mlfq_charge_def blank_task_def T_def saturating_sub_def allotment_def)
  show ?thesis
    using mlfq_accounting [OF running_task_runs [of faulting_spec], of 5000 "event_at 30000 Reason_Yield"
        image image_machine] charge
    by (auto simp: event_at_def)
qed

theorem dispatch_choice_witness:
  "\<exists>i sc' s'. sched_dispatch image Policy_Mlfq ready_task image_machine = Ret (Some i, sc') s'
    \<and> sc_current sc' = Some i \<and> sched_inv 1 sc'"
  using dispatch_choice [OF ready_task_inv(1), of image image_machine Policy_Mlfq] ready_task_inv(2)
  by (auto simp: one_task_def ticking_def image_machine_def)

theorem rr_time_slice_witness:
  "\<exists>sc' s'. sched_serve image Policy_Rr [faulting_spec] 5000 (event_at 6000 Reason_Syscall) 0
      running_task image_machine = Ret sc' s' \<and> sc_current sc' = Some 0 \<and> sc_deadline sc' = 20000"
  using rr_time_slice [OF running_task_runs [of faulting_spec], of "event_at 6000 Reason_Syscall" image 5000
      image_machine]
  by (auto simp: event_at_def one_task_def)

theorem one_shot_timer_witness:
  "\<exists>sc' s'. sched_serve image (Policy_Timer 1) [faulting_spec] 5000 (event_at 6000 Reason_Timer) 0
      running_task image_machine = Ret sc' s' \<and> sc_current sc' = Some 0
    \<and> csrs s' Sie AND 32 = 0 \<and> mem s' = store64 (mem image_machine) 0x80260000 1"
  using one_shot_timer [OF running_task_runs [of faulting_spec], of "event_at 6000 Reason_Timer" image
      image_machine 1 5000]
  by (auto simp: event_at_def one_task_def blank_task_def image_firmware ticking_def image_machine_def T_def)

theorem arm_programs_deadline_witness:
  "\<exists>sc' s'. sched_arm image Policy_Rr blank_task running_task image_machine = Ret sc' s'
    \<and> sbi_log s' = [(0x54494d45, 0, 20000)]"
  using arm_programs_deadline [OF image_firmware, of "[]" ticking "traps_with zero_frame" image_machine blank_task
      Policy_Rr running_task]
  by (auto simp: blank_task_def T_def ticking_def image_machine_def one_task_def)

theorem ready_queue_fifo_witness:
  "\<exists>q q'. push_all [2, 0, 3] Ready_new image_machine = Ret q image_machine \<and> queued q = [2, 0, 3]
    \<and> pop_all [] [2, 0, 3] q image_machine = Ret q' image_machine"
  using ready_queue_fifo [of "[2, 0, 3]" image_machine "[]" False] by (auto simp: N_def)

text \<open>A timer interrupt inside the task code, and the slot of task 0's trap frame.\<close>

definition timer_trap :: TrapFrame where
  "timer_trap = zero_frame\<lparr>tf_sepc := 0x80202010, tf_scause := 0x8000000000000005\<rparr>"

lemma task_slot: "frame_slot_ok (image_platform fs clk usr) 0x80253ee0"
  by (simp add: frame_slot_ok_def outside_36 slots16_def slots36_def aligned8_def)

theorem task_switch_witness:
  "\<exists>s'. run_task (Suc 0) (image_platform [] ticking (traps_with timer_trap))
      (task_handler (image_platform [] ticking (traps_with timer_trap))) 0x80253ee0
      (image_machine\<lparr>mem := store_frame (mem image_machine) 0x80253ee0 zero_frame,
         exchange := (exchange image_machine)\<lparr>ex_expected := 0x80253ee0\<rparr>\<rparr>) = Ret 1 s'
    \<and> callee_saved s' = callee_saved image_machine \<and> ex_reason (exchange s') = Reason_Timer"
proof -
  let ?pf = "image_platform [] ticking (traps_with timer_trap)"
  let ?s = "image_machine\<lparr>mem := store_frame (mem image_machine) 0x80253ee0 zero_frame,
         exchange := (exchange image_machine)\<lparr>ex_expected := 0x80253ee0\<rparr>\<rparr>"
  have "length (tf_x zero_frame) = 32" by (simp add: zero_frame_def)
  moreover have "user_code ?pf (user_entries image_machine)
      (zero_frame\<lparr>tf_x := (tf_x zero_frame)[0 := 0], tf_scause := csrs image_machine Scause,
         tf_stval := csrs image_machine Stval\<rparr>)
      (memory_at_entry ?pf 0x80253ee0 ?s) = Some (timer_trap, memory_at_entry ?pf 0x80253ee0 ?s)"
    by (simp add: traps_with_def)
  moreover have "legal_trap ?pf (trap_context timer_trap)"
    by (simp add: legal_trap_def trap_context_def timer_trap_def zero_frame_def)
  moreover have "fst (served_trap (trap_context timer_trap)) = Reason_Timer"
    by (simp add: served_trap_def trap_context_def timer_trap_def zero_frame_def)
  ultimately show ?thesis
    using task_switch [OF image_areas task_slot traps_keep_context _ refl] by force
qed

theorem stacks_disjoint_witness:
  "\<exists>top top'. stack_top image 1 True image_machine = Ret top image_machine
    \<and> stack_top image 1 False image_machine = Ret top' image_machine
    \<and> (unat top \<le> unat top' - STACK \<or> unat top' \<le> unat top - STACK)"
  using stacks_disjoint [of image 1 1 True False image_machine] by (auto simp: N_def STACK_def)

section \<open>User traps\<close>

text \<open>The system call \<^verbatim>\<open>exit(7)\<close> of the lesson 09 program, as its trap frame.\<close>

definition exit_trap :: TrapFrame where
  "exit_trap = zero_frame\<lparr>tf_x := (replicate 32 0)[2 := 0x80233ff0, 10 := 7, 17 := 2],
     tf_sepc := 0x8020131c, tf_scause := 8\<rparr>"

lemma exit_trap_simps [simp]:
  "tf_x exit_trap ! 2 = 0x80233ff0" "tf_x exit_trap ! 10 = 7" "tf_x exit_trap ! 17 = 2"
  "tf_sepc exit_trap = 0x8020131c" "tf_scause exit_trap = 8" "tf_sstatus exit_trap = 0"
  by (simp_all add: exit_trap_def zero_frame_def)

lemma exit_trap_context: "trap_context exit_trap = exit_trap"
proof -
  have "map (\<lambda>r. if r = 0 then 0 else tf_x exit_trap ! r) [0..<32] = tf_x exit_trap"
    by (rule nth_equalityI) (auto simp: exit_trap_def zero_frame_def)
  then show ?thesis by (simp add: trap_context_def)
qed

definition vectored_machine :: machine where
  "vectored_machine = image_machine\<lparr>csrs := (\<lambda>_. 0)(Stvec := 0x80200100),
     active := \<lparr>act_code = \<lparr>ar_start = 0x80201300, ar_end = 0x802013e0\<rparr>, act_outcome = None\<rparr>\<rparr>"

lemma vectored_machine_simps [simp]:
  "csrs vectored_machine Stvec = 0x80200100" "expected_trap_frame vectored_machine = 0"
  "active vectored_machine = \<lparr>act_code = \<lparr>ar_start = 0x80201300, ar_end = 0x802013e0\<rparr>, act_outcome = None\<rparr>"
  by (simp_all add: vectored_machine_def image_machine_def)

lemma image_stacks: "stacks_ordered (image_platform fs clk usr)"
  by (simp add: stacks_ordered_def)

lemma exit_trap_accepted:
  "user_trap_ok (image_platform fs clk usr) 0x80237ee0 exit_trap 0x80201300 0x802013e0 0x80200100"
  by (simp add: user_trap_ok_def image_stacks)

lemma exit_trap_range:
  "lesson09_range (image_platform fs clk usr) 0x8020131c = Some (0x80201300, 0x802013e0)"
  "user09_ecall_kind (image_platform fs clk usr) 0x8020131c = Some ''exit7''"
  by (simp_all add: lesson09_range_def in_code_def user09_ecall_kind_def)

lemma exit_outcome: "dispatch_outcome 2 7 = Sys_Exit 7"
  by (simp add: dispatch_outcome_def)

theorem handle_lesson09_correct_witness:
  "\<exists>f' s'. handle_lesson09 image 0x80237ee0 exit_trap vectored_machine = Ret (ACTION_TERMINATE_PROCESS, f') s'
    \<and> last_exit_code s' = 7"
  using handle_lesson09_correct [of image exit_trap "0x80201300" "0x802013e0" "0x80237ee0" vectored_machine]
  by (auto simp: exit_trap_range exit_trap_accepted exit_outcome)

theorem lesson10_contains_faults_witness:
  "\<exists>out act f' o'. lesson10_handle image 0x80237ee0 (exit_trap\<lparr>tf_scause := 2, tf_stval := 0x30500073\<rparr>)
      vectored_machine = Ret (act, f') (vectored_machine\<lparr>expected_trap_frame := 0x80237ee0,
        uart := uart vectored_machine @ out, active := (active vectored_machine)\<lparr>act_outcome := o'\<rparr>\<rparr>)
    \<and> act = ACTION_TERMINATE_PROCESS \<and> o' = Some (Run_Faulted 2 0x8020131c 0x30500073)"
proof -
  have "lesson10_trap_ok image 0x80237ee0 (exit_trap\<lparr>tf_scause := 2, tf_stval := 0x30500073\<rparr>) vectored_machine"
    by (simp add: lesson10_trap_ok_def image_stacks AddressRange_contains_def)
  from lesson10_contains_faults [OF this] show ?thesis
    by (simp add: lesson10_end_def in_code_def)
      (rule exI [of _ "[]"], simp add: vectored_machine_def image_machine_def)
qed

theorem exit_returns_to_caller_witness:
  "\<exists>s'. run_user 1 (image_platform [''lesson09-exit''] ticking (traps_with exit_trap))
      (rust_user_trap_handler (image_platform [''lesson09-exit''] ticking (traps_with exit_trap)))
      0x80234000 0x80201300 0 0x80238000 image_machine = Ret 1 s'
    \<and> last_exit_code s' = 7 \<and> callee_saved s' = callee_saved image_machine"
proof -
  let ?pf = "image_platform [''lesson09-exit''] ticking (traps_with exit_trap)"
  have slot: "frame_slot_ok ?pf 0x80237ee0"
    by (simp add: frame_slot_ok_def outside_36 slots16_def slots36_def aligned8_def)
  show ?thesis
    using exit_returns_to_caller [OF _ _ _ image_areas slot traps_keep_context, where g = exit_trap
        and lo = "0x80201300" and hi = "0x802013e0" and n = 0 and s = image_machine
        and usp = "0x80234000" and entry = "0x80201300" and sst = 0]
    by (auto simp: traps_with_def exit_trap_range exit_trap_accepted exit_trap_context SYSCALL_EXIT_def
        image_machine_def)
qed


theorem save_restore_roundtrip_witness:
  "context_of (exec image restore_user_frame_code (exec image user_trap_entry_code
      (image_machine\<lparr>csrs := (\<lambda>_. 0)(Sscratch := 0x80238000)\<rparr>)))
    = context_of (image_machine\<lparr>csrs := (\<lambda>_. 0)(Sscratch := 0x80238000)\<rparr>)"
proof -
  have "outside 0x80237ee0 36 (symbol image ''kernel_gp_saved'')"
    "outside 0x80237ee0 36 (symbol image ''kernel_tp_saved'')" "aligned8 (0x80237ee0 :: usize)"
    by (simp_all add: outside_36 slots36_def aligned8_def)
  then show ?thesis
    using save_restore_roundtrip [of "0x80237ee0"
        "image_machine\<lparr>csrs := (\<lambda>_. 0)(Sscratch := 0x80238000)\<rparr>" image] by simp
qed

end
