(* ===== verification/Witnesses_Live.thy ===== *)
theory Witnesses_Live
  imports Witnesses Scheduler_Live Scheduler_Spec
begin

unbundle bit_operations_syntax

text \<open>
  Two tasks that exit at their first trap, on the image of theory \<open>Image\<close> with a clock that
  advances and then stands still: the hypotheses of the theorems on whole batches hold.
\<close>

definition steady :: "nat \<Rightarrow> usize" where
  "steady n = of_nat (min n 1000000) * 100 + 1000"

definition exit_zero :: TrapFrame where
  "exit_zero = zero_frame\<lparr>tf_x := (replicate 32 0)[17 := 2], tf_sepc := 0x80202100, tf_scause := 8\<rparr>"

abbreviation two_exits :: platform where
  "two_exits \<equiv> image_platform [] steady (traps_with exit_zero)"

abbreviation two_specs :: "Spec list" where
  "two_specs \<equiv> [Spec_new 0 3, Spec_new 0 3]"

lemma unat_steady: "unat (steady n) = min n 1000000 * 100 + 1000"
proof -
  have of_nat: "unat (of_nat k :: usize) = k" if "k < 2 ^ 64" for k
    using that by (simp add: unat_of_nat take_bit_eq_mod)
  have "steady n = of_nat (min n 1000000 * 100 + 1000)" by (simp add: steady_def)
  moreover have "min n 1000000 * 100 + 1000 < (2::nat) ^ 64" by simp
  ultimately show ?thesis by (simp only: of_nat)
qed

lemma image_frame_slots:
  "frame_slot (image_platform fs clk usr) 0 = 0x80253ee0"
  "frame_slot (image_platform fs clk usr) 1 = 0x80257ee0"
  "frame_slot (image_platform fs clk usr) 2 = 0x8025bee0"
  "frame_slot (image_platform fs clk usr) 3 = 0x8025fee0"
  by (simp_all add: frame_slot_def N_def STACK_def)

lemma image_slots_ok:
  "frame_slot_ok (image_platform fs clk usr) 0x80253ee0"
  "frame_slot_ok (image_platform fs clk usr) 0x80257ee0"
  "frame_slot_ok (image_platform fs clk usr) 0x8025bee0"
  "frame_slot_ok (image_platform fs clk usr) 0x8025fee0"
  by (simp_all add: frame_slot_ok_def outside_36 slots16_def slots36_def aligned8_def)

lemma image_stacks_apart: "stacks_apart (image_platform fs clk usr)"
proof -
  have slots: "frame_slot_ok (image_platform fs clk usr) (frame_slot (image_platform fs clk usr) i)"
    if "i < N" for i
  proof -
    have "i < 4" using that by (simp add: N_def)
    then consider "i = 0" | "i = 1" | "i = 2" | "i = 3" by linarith
    then show ?thesis by cases (simp_all only: image_frame_slots image_slots_ok)
  qed
  have "clear_of_saves (image_platform fs clk usr) b \<and> clear_of b 0x80260000"
    if "i < N" "in_user_stack (image_platform fs clk usr) i b" for i b
  proof -
    have b: "0x80240000 \<le> unat b" "unat b < 0x80250000"
      using that by (auto simp: in_user_stack_def N_def STACK_def)
    then have "clear_of b 0x80260000" by (intro clear_below) simp_all
    moreover have "clear_of_saves (image_platform fs clk usr) b"
      using b by (simp add: clear_of_saves_def slots16_def) (intro conjI; rule clear_above; simp)
    ultimately show ?thesis by simp
  qed
  then show ?thesis using slots by (simp add: stacks_apart_def) (simp add: N_def STACK_def)
qed

lemma two_exits_ok: "scheduling_ok two_exits"
proof -
  have "mono steady"
    by (rule monoI) (simp add: word_le_nat_alt unat_steady)
  moreover have "unat (steady n) + 200000 < 2 ^ 64" for n
    by (simp add: unat_steady min_def)
  ultimately show ?thesis
    using image_areas image_firmware image_stacks_apart by (simp add: scheduling_ok_def)
qed

lemma exits_at_once: "ends_within two_exits i faulty 1 f m"
proof -
  have "trap_context exit_zero = exit_zero"
  proof -
    have "map (\<lambda>r. if r = 0 then 0 else tf_x exit_zero ! r) [0..<32] = tf_x exit_zero"
      by (rule nth_equalityI) (auto simp: exit_zero_def zero_frame_def)
    then show ?thesis by (simp add: trap_context_def)
  qed
  moreover have "legal_trap two_exits exit_zero" "fst (served_trap exit_zero) = Reason_Exit 0"
    by (simp_all add: legal_trap_def served_trap_def exit_zero_def zero_frame_def dispatch_outcome_def)
  ultimately show ?thesis by (simp add: traps_with_def)
qed


lemma two_exits_loop:
  "\<exists>base sc s1 sc' s2. batch_start two_exits ''pair'' Policy_Rr two_specs image_machine = Ret (base, sc) s1
    \<and> sched_loop 3 two_exits Policy_Rr two_specs base 0x8022ff00 sc s1 = Ret sc' s2"
  using batch_loop_live [OF two_exits_ok, where specs = two_specs and policy = Policy_Rr and work = "\<lambda>_. 1"
      and s = image_machine and fuel = 3 and name = "''pair''"] exits_at_once
  by (simp add: N_def untimed_specs_def Spec_new_def image_machine_def numeral_eq_Suc) blast



end
