(* ===== verification/Witnesses_User.thy ===== *)
theory Witnesses_User
  imports Lesson_Assembly
begin

unbundle bit_operations_syntax

text \<open>
  The properties of the user lessons at work on the image of theory \<open>Lesson_Assembly\<close>, which
  carries the programs of the repository.
\<close>

theorem prepare_process_iff_witness:
  "prepare_process (lesson_platform []) 3
     \<lparr>pr_name = ''user-ecall'', pr_entry = 0x80201000, pr_code_start = 0x80201000, pr_code_end = 0x80201010\<rparr>
     \<lparr>ar_start = 0x80231000, ar_end = 0x80235000\<rparr> \<lparr>ar_start = 0x80235000, ar_end = 0x80239000\<rparr> image_machine
   = Ret (prepared 3
     \<lparr>pr_name = ''user-ecall'', pr_entry = 0x80201000, pr_code_start = 0x80201000, pr_code_end = 0x80201010\<rparr>
     \<lparr>ar_start = 0x80231000, ar_end = 0x80235000\<rparr> \<lparr>ar_start = 0x80235000, ar_end = 0x80239000\<rparr> 0) image_machine"
proof -
  let ?us = "\<lparr>ar_start = 0x80231000, ar_end = 0x80235000\<rparr> :: AddressRange"
  let ?ts = "\<lparr>ar_start = 0x80235000, ar_end = 0x80239000\<rparr> :: AddressRange"
  have "stacks_ordered (lesson_platform [])" by (simp add: stacks_ordered_def)
  from prepare_process_iff [OF this, of ?us ?ts] show ?thesis
    by (simp add: process_ok_def AddressRange_extent_def AddressRange_overlaps_def boot_stack_def image_machine_def)
qed

theorem lesson07_run_witness:
  "\<exists>s'. run_lesson07 1 (lesson_platform [''lesson07-user-mode''])
       (rust_user_trap_handler (lesson_platform [''lesson07-user-mode''])) 3 image_machine = Halted s'
     \<and> uart s' = uart image_machine @ output_lines
       (lesson07_setup (lesson_platform [''lesson07-user-mode'']) 3 @ lesson07_report (lesson_platform [''lesson07-user-mode'']))"
  by (rule lesson07_run [OF lesson_image_ok lesson_texts(1)]) (simp_all add: image_machine_def)

theorem lesson08_run_witness:
  "\<exists>s'. run_lesson08 6 (lesson_platform [''lesson08-syscalls''])
       (rust_user_trap_handler (lesson_platform [''lesson08-syscalls''])) 3 image_machine = Halted s'
     \<and> uart s' = uart image_machine @ output_lines (lesson08_lines (lesson_platform [''lesson08-syscalls'']) 3)"
  by (rule lesson08_run [OF lesson_image_ok lesson_texts(2)]) (simp_all add: image_machine_def)

theorem lesson09_run_witness:
  "\<exists>s'. run_lesson09 2 (lesson_platform [''lesson09-exit''])
       (rust_user_trap_handler (lesson_platform [''lesson09-exit''])) 3 image_machine = Halted s'
     \<and> uart s' = uart image_machine @ output_lines (lesson09_lines (lesson_platform [''lesson09-exit'']) 3)"
  by (rule lesson09_run [OF lesson_image_ok lesson_texts(3)])
    (simp_all add: image_machine_def AddressRange_contains_def)

theorem lesson10_run_witness:
  "\<exists>s'. run_lesson10 21 (lesson_platform [''lesson10-user-errors''])
       (rust_user_trap_handler (lesson_platform [''lesson10-user-errors''])) 3 image_machine = Halted s'
     \<and> uart s' = uart image_machine @ output_lines (lesson10_lines (lesson_platform [''lesson10-user-errors'']) 3)"
  by (rule lesson10_run [OF lesson_image_ok lesson10_image_ready])
    (simp_all add: image_machine_def AddressRange_contains_def)

theorem boot_lesson10_witness:
  "\<exists>out s'. kernel_boot 21 (lesson_platform [''lesson10-user-errors'']) (\<lambda>_. None) image_machine = Halted s'
     \<and> uart s' = uart image_machine @ out
         @ output_lines (lesson06_lines (lesson_platform [''lesson10-user-errors''])
             @ lesson10_lines (lesson_platform [''lesson10-user-errors'']) 3)"
  by (rule boot_lesson10 [OF lesson_bootable lesson_image_ok lesson10_image_ready]) simp_all

end
